(* ===== verification/JsPrelude.thy ===== *)
theory JsPrelude
  imports Main
begin

text \<open>
  Prelude of the development: the part of JavaScript's strings and numbers that the
  front end under web/src uses, and the generic lemmas the components share.

  A JavaScript string is a sequence of UTF-16 code units; here it is a list of code
  units, each a natural number. \<open>js\<close> embeds an ASCII literal. Decimal printing
  (\<open>String(n)\<close>, template literals), \<open>padStart\<close>, \<open>split\<close>, \<open>startsWith\<close>,
  \<open>trim\<close>, \<open>join\<close>, the order of strings and \<open>Number\<close> of a digit string follow
  ECMAScript. A missing or \<open>null\<close> value is \<open>None\<close>; a thrown error is \<open>Inl\<close>.
\<close>

named_theorems js_eval \<open>equations that evaluate the string literals and operations\<close>
named_theorems step_simps \<open>equations of the components' operations\<close>

type_synonym jstr = "nat list"

subsection \<open>String literals\<close>

definition js :: "string \<Rightarrow> jstr" where
  "js s = map of_char s"

lemma js_inject [simp]: "js a = js b \<longleftrightarrow> a = b"
  by (auto simp: js_def inj_map_eq_map inj_on_def)

lemma js_Nil [simp]: "js [] = []"
  by (simp add: js_def)

lemma js_eq_Nil [simp]: "js a = [] \<longleftrightarrow> a = []" "[] = js a \<longleftrightarrow> a = []"
  by (auto simp: js_def)

lemma js_append: "js (a @ b) = js a @ js b"
  by (simp add: js_def)

lemma js_Cons [js_eval]: "js (c # cs) = of_char c # js cs"
  by (simp add: js_def)

text \<open>A token \<open>{name}\<close> of a translation text.\<close>

definition hole :: "string \<Rightarrow> jstr" where
  "hole n = [123] @ js n @ [125]"

text \<open>Code units the parsers test for.\<close>

abbreviation (input) c_nl :: nat where "c_nl \<equiv> 10"
abbreviation (input) c_space :: nat where "c_space \<equiv> 32"
abbreviation (input) c_hash :: nat where "c_hash \<equiv> 35"
abbreviation (input) c_comma :: nat where "c_comma \<equiv> 44"
abbreviation (input) c_dash :: nat where "c_dash \<equiv> 45"
abbreviation (input) c_dot :: nat where "c_dot \<equiv> 46"
abbreviation (input) c_slash :: nat where "c_slash \<equiv> 47"
abbreviation (input) c_0 :: nat where "c_0 \<equiv> 48"
abbreviation (input) c_lbrace :: nat where "c_lbrace \<equiv> 123"
abbreviation (input) c_rbrace :: nat where "c_rbrace \<equiv> 125"

text \<open>A string is falsy exactly when it is empty.\<close>

abbreviation (input) truthy :: "jstr \<Rightarrow> bool" where "truthy s \<equiv> s \<noteq> []"

definition str_or :: "jstr \<Rightarrow> jstr \<Rightarrow> jstr" where
  "str_or a b = (if truthy a then a else b)"

definition opt_or :: "jstr option \<Rightarrow> jstr \<Rightarrow> jstr" where
  "opt_or a b = (case a of Some s \<Rightarrow> if truthy s then s else b | None \<Rightarrow> b)"

definition nullish :: "'a option \<Rightarrow> 'a \<Rightarrow> 'a" where
  "nullish a b = (case a of Some x \<Rightarrow> x | None \<Rightarrow> b)"

lemma nullish_simps [simp]: "nullish None b = b" "nullish (Some x) b = x"
  by (simp_all add: nullish_def)

subsection \<open>White space, trim, split, join, startsWith\<close>

text \<open>WhiteSpace and LineTerminator of ECMAScript, the set of \<open>trim\<close> and of \<open>\s\<close>.\<close>

definition is_ws :: "nat \<Rightarrow> bool" where
  "is_ws c \<longleftrightarrow> (9 \<le> c \<and> c \<le> 13) \<or> c = 32 \<or> c = 160 \<or> c = 5760 \<or> (8192 \<le> c \<and> c \<le> 8202)
     \<or> c = 8232 \<or> c = 8233 \<or> c = 8239 \<or> c = 8287 \<or> c = 12288 \<or> c = 65279"

definition trim_start :: "jstr \<Rightarrow> jstr" where
  "trim_start s = dropWhile is_ws s"

definition trim :: "jstr \<Rightarrow> jstr" where
  "trim s = rev (dropWhile is_ws (rev (dropWhile is_ws s)))"

fun split_on :: "nat \<Rightarrow> jstr \<Rightarrow> jstr list" where
  "split_on c [] = [[]]"
| "split_on c (x # xs) =
     (if x = c then [] # split_on c xs
      else (case split_on c xs of [] \<Rightarrow> [[x]] | w # ws \<Rightarrow> (x # w) # ws))"

fun join_with :: "jstr \<Rightarrow> jstr list \<Rightarrow> jstr" where
  "join_with sep [] = []"
| "join_with sep [w] = w"
| "join_with sep (w # ws) = w @ sep @ join_with sep ws"

fun starts_with :: "jstr \<Rightarrow> jstr \<Rightarrow> bool" where
  "starts_with [] s = True"
| "starts_with (p # ps) [] = False"
| "starts_with (p # ps) (x # xs) = (p = x \<and> starts_with ps xs)"

lemma starts_with_iff: "starts_with p s \<longleftrightarrow> (\<exists>r. s = p @ r)"
  by (induction p s rule: starts_with.induct) auto

lemma starts_with_append [simp]: "starts_with p (p @ s)"
  by (auto simp: starts_with_iff)

lemma split_on_nonempty [simp]: "split_on c s \<noteq> []" "[] \<noteq> split_on c s"
  by (induction s) (auto split: list.splits)

lemma split_on_no_sep: "c \<notin> set s \<Longrightarrow> split_on c s = [s]"
  by (induction s) auto

lemma split_on_append_sep: "c \<notin> set a \<Longrightarrow> split_on c (a @ c # b) = a # split_on c b"
  by (induction a) auto

lemma join_split: "join_with [c] (split_on c s) = s"
proof (induction s)
  case (Cons x xs)
  obtain w ws where w: "split_on c xs = w # ws"
    by (meson neq_Nil_conv split_on_nonempty(1))
  with Cons show ?case
    by (cases ws) auto
qed simp

lemma split_join:
  assumes "ws \<noteq> []" and "\<And>w. w \<in> set ws \<Longrightarrow> c \<notin> set w"
  shows "split_on c (join_with [c] ws) = ws"
  using assms
  by (induction "[c]" ws rule: join_with.induct)
    (auto simp: split_on_no_sep split_on_append_sep)

lemma trim_Nil [simp]: "trim [] = []"
  by (simp add: trim_def)

lemma trim_eq_Nil_iff: "trim s = [] \<longleftrightarrow> (\<forall>c \<in> set s. is_ws c)"
proof -
  have "trim s = [] \<longleftrightarrow> (\<forall>c \<in> set (dropWhile is_ws s). is_ws c)"
    by (simp add: trim_def)
  also have "\<dots> \<longleftrightarrow> dropWhile is_ws s = []"
    using hd_dropWhile [of is_ws s] by (cases "dropWhile is_ws s") (auto dest: set_dropWhileD)
  finally show ?thesis by simp
qed

lemma trim_set: "set (trim s) \<subseteq> set s"
proof
  fix c assume "c \<in> set (trim s)"
  then have "c \<in> set (dropWhile is_ws (rev (dropWhile is_ws s)))" by (simp add: trim_def)
  then have "c \<in> set (rev (dropWhile is_ws s))" by (rule set_dropWhileD)
  then show "c \<in> set s" by (simp add: set_dropWhileD)
qed

lemma hd_trim: "trim s \<noteq> [] \<Longrightarrow> \<not> is_ws (hd (trim s))"
proof -
  assume ne: "trim s \<noteq> []"
  let ?d = "dropWhile is_ws s"
  have "rev (trim s) = dropWhile is_ws (rev ?d)" by (simp add: trim_def)
  then obtain p where p: "rev ?d = p @ rev (trim s)"
    by (metis takeWhile_dropWhile_id)
  then have d: "?d = trim s @ rev p"
    by (metis rev_append rev_rev_ident)
  then have "?d \<noteq> []" using ne by simp
  then have "\<not> is_ws (hd ?d)" by (rule hd_dropWhile)
  then show ?thesis using d ne by simp
qed

lemma trim_trim [simp]: "trim (trim s) = trim s"
proof (cases "trim s = []")
  case False
  then have "dropWhile is_ws (trim s) = trim s"
    using hd_trim [of s] by (cases "trim s") auto
  moreover have "dropWhile is_ws (rev (trim s)) = rev (trim s)"
    by (simp add: trim_def dropWhile_idem)
  ultimately show ?thesis by (simp add: trim_def)
qed simp

subsection \<open>The order of strings\<close>

text \<open>\<open>a < b\<close> on strings compares code units lexicographically.\<close>

fun js_less :: "jstr \<Rightarrow> jstr \<Rightarrow> bool" where
  "js_less [] t = (t \<noteq> [])"
| "js_less (x # xs) [] = False"
| "js_less (x # xs) (y # ys) = (x < y \<or> (x = y \<and> js_less xs ys))"

lemma js_less_irrefl [simp]: "\<not> js_less s s"
  by (induction s) auto

lemma js_less_trans: "js_less a b \<Longrightarrow> js_less b c \<Longrightarrow> js_less a c"
proof (induction a b arbitrary: c rule: js_less.induct)
  case (1 t)
  then show ?case by (cases c; cases t) auto
next
  case (3 x xs y ys)
  then show ?case by (cases c) auto
qed simp

lemma js_less_linear: "js_less a b \<or> a = b \<or> js_less b a"
proof (induction a b rule: js_less.induct)
  case (1 t)
  then show ?case by (cases t) auto
qed auto

lemma js_less_append:
  "length a = length b \<Longrightarrow> js_less (a @ s) (b @ t) \<longleftrightarrow> js_less a b \<or> (a = b \<and> js_less s t)"
  by (induction a b rule: list_induct2) auto

subsection \<open>Decimal numbers\<close>

text \<open>
  \<open>String(n)\<close> of a non-negative integer below \<open>10^21\<close> (larger ones print with an
  exponent, and are outside the model), of an integer, and the value of a digit string.
\<close>

fun dec :: "nat \<Rightarrow> jstr" where
  "dec n = (if n < 10 then [c_0 + n] else dec (n div 10) @ [c_0 + n mod 10])"

declare dec.simps [simp del]

definition dec_int :: "int \<Rightarrow> jstr" where
  "dec_int i = (if i < 0 then c_dash # dec (nat (- i)) else dec (nat i))"

definition is_digit :: "nat \<Rightarrow> bool" where
  "is_digit c \<longleftrightarrow> 48 \<le> c \<and> c \<le> 57"

definition dec_value :: "jstr \<Rightarrow> nat" where
  "dec_value s = foldl (\<lambda>a c. 10 * a + (c - c_0)) 0 s"

definition all_digits :: "jstr \<Rightarrow> bool" where
  "all_digits s \<longleftrightarrow> s \<noteq> [] \<and> list_all is_digit s"

definition pad_start :: "nat \<Rightarrow> nat \<Rightarrow> jstr \<Rightarrow> jstr" where
  "pad_start n c s = replicate (n - length s) c @ s"

lemma dec_value_snoc: "dec_value (s @ [c]) = 10 * dec_value s + (c - c_0)"
  by (simp add: dec_value_def)

lemma dec_value_dec [simp]: "dec_value (dec n) = n"
proof (induction n rule: dec.induct)
  case (1 n)
  show ?case
  proof (cases "n < 10")
    case True
    then show ?thesis by (simp add: dec.simps [of n] dec_value_def)
  next
    case False
    with 1 show ?thesis by (simp add: dec.simps [of n] dec_value_snoc)
  qed
qed

lemma dec_inject [simp]: "dec m = dec n \<longleftrightarrow> m = n"
  by (metis dec_value_dec)

lemma digits_dec: "c \<in> set (dec n) \<Longrightarrow> is_digit c"
proof (induction n rule: dec.induct)
  case (1 n)
  show ?case
  proof (cases "n < 10")
    case True
    with 1 show ?thesis by (simp add: dec.simps [of n] is_digit_def)
  next
    case False
    have "n mod 10 < 10" by simp
    with 1 False show ?thesis by (auto simp: dec.simps [of n] is_digit_def)
  qed
qed

lemma dec_nonempty [simp]: "dec n \<noteq> []" "[] \<noteq> dec n"
  by (simp_all add: dec.simps [of n])

lemma all_digits_dec [simp]: "all_digits (dec n)"
  by (auto simp: all_digits_def list_all_iff intro: digits_dec)

lemma length_dec_le: "0 < k \<Longrightarrow> length (dec n) \<le> k \<longleftrightarrow> n < 10 ^ k"
proof (induction n arbitrary: k rule: dec.induct)
  case (1 n)
  show ?case
  proof (cases "n < 10")
    case True
    have "(10::nat) ^ 1 \<le> 10 ^ k" using "1.prems" by (intro power_increasing) auto
    with True "1.prems" show ?thesis by (simp add: dec.simps [of n])
  next
    case False
    then obtain m where k: "k = Suc m" using "1.prems" by (cases k) auto
    show ?thesis
    proof (cases "m = 0")
      case True
      with False k show ?thesis by (simp add: dec.simps [of n] Suc_le_eq)
    next
      case m: False
      have "length (dec (n div 10)) \<le> m \<longleftrightarrow> n div 10 < 10 ^ m"
        using "1.IH" False m by simp
      also have "\<dots> \<longleftrightarrow> n < 10 ^ k"
        by (simp add: k div_less_iff_less_mult mult.commute)
      finally show ?thesis
        using False k by (simp add: dec.simps [of n])
    qed
  qed
qed

lemma length_dec:
  assumes "10 ^ k \<le> n" and "n < 10 ^ Suc k"
  shows "length (dec n) = Suc k"
proof -
  have "length (dec n) \<le> Suc k" using assms(2) by (simp add: length_dec_le)
  moreover have "\<not> length (dec n) \<le> k"
  proof (cases "k = 0")
    case False
    then show ?thesis using assms(1) by (simp add: length_dec_le)
  qed (auto simp: Suc_le_eq)
  ultimately show ?thesis by simp
qed

text \<open>On digit strings of one length the order of strings is the order of numbers.\<close>

lemma dec_value_bound:
  "list_all is_digit s \<Longrightarrow> dec_value s < 10 ^ length s"
proof (induction s rule: rev_induct)
  case (snoc c s)
  then show ?case by (auto simp: dec_value_snoc is_digit_def)
qed (simp add: dec_value_def)

lemma foldl_dec_value:
  "foldl (\<lambda>a c. 10 * a + (c - c_0)) a s = a * 10 ^ length s + dec_value s"
proof (induction s arbitrary: a rule: rev_induct)
  case (snoc c s)
  then show ?case by (simp add: dec_value_snoc algebra_simps)
qed (simp add: dec_value_def)

lemma dec_value_Cons: "dec_value (c # s) = (c - c_0) * 10 ^ length s + dec_value s"
  using foldl_dec_value [of "c - c_0" s] by (simp add: dec_value_def)

lemma js_less_digits:
  "length s = length t \<Longrightarrow> list_all is_digit s \<Longrightarrow> list_all is_digit t \<Longrightarrow>
     js_less s t \<longleftrightarrow> dec_value s < dec_value t"
proof (induction s t rule: list_induct2)
  case (Cons x xs y ys)
  let ?p = "(10::nat) ^ length xs"
  have bx: "dec_value xs < ?p" and by': "dec_value ys < ?p"
    using Cons dec_value_bound [of xs] dec_value_bound [of ys] by auto
  have lt: "a * ?p + u < b * ?p + v" if "a < b" and "u < ?p" for a b u v :: nat
  proof -
    have "a * ?p + u < Suc a * ?p" using that(2) by simp
    also have "\<dots> \<le> b * ?p" using that(1) by (intro mult_le_mono1) simp
    finally show ?thesis by simp
  qed
  consider "x < y" | "x = y" | "y < x" by linarith
  then show ?case
  proof cases
    case 1
    then have "x - c_0 < y - c_0" using Cons.prems by (auto simp: is_digit_def)
    with 1 show ?thesis using lt [OF _ bx] Cons.hyps by (simp add: dec_value_Cons)
  next
    case 2
    then show ?thesis using Cons by (simp add: dec_value_Cons)
  next
    case 3
    then have "y - c_0 < x - c_0" using Cons.prems by (auto simp: is_digit_def)
    with 3 show ?thesis
      using lt [OF _ by', of "y - c_0" "x - c_0" "dec_value xs"] Cons.hyps
      by (simp add: dec_value_Cons)
  qed
qed simp

lemma js_less_int:
  "length s = length t \<Longrightarrow> list_all is_digit s \<Longrightarrow> list_all is_digit t \<Longrightarrow>
     js_less s t \<longleftrightarrow> int (dec_value s) < int (dec_value t)"
  by (simp add: js_less_digits)

lemma digits_eq_int:
  "length s = length t \<Longrightarrow> list_all is_digit s \<Longrightarrow> list_all is_digit t \<Longrightarrow>
     s = t \<longleftrightarrow> int (dec_value s) = int (dec_value t)"
  using js_less_linear [of s t] js_less_digits [of s t] js_less_digits [of t s] by auto

end
