(* ===== verification/ApiTypes.thy ===== *)
theory ApiTypes
  imports Complex_Main JsPrelude
begin

text \<open>
  The data that crosses the HTTP interface: the type declarations of web/src/lib/api.ts
  as records and datatypes. An optional field (\<open>x?: T\<close>) and a nullable one
  (\<open>T | null\<close>) are options. Numbers that are counts or ids are integers; amounts of
  money, quantities and costs are rationals, the exact value of the double. A
  \<open>Record<string, string>\<close> is its list of entries in insertion order. Field names that
  occur in several types, or that Isabelle's library uses, carry a prefix.
\<close>

subsection \<open>The chat stream\<close>

datatype AgentEventType =
  EvText | EvToolCallStarted | EvToolCall | EvToolResult | EvError | EvCancelled | EvDone

record AgentEvent =
  ev_type :: AgentEventType
  ev_text :: "jstr option"
  ev_tool :: "jstr option"
  ev_tool_id :: "jstr option"
  ev_input :: "jstr option"
  ev_result :: "jstr option"
  ev_is_error :: "bool option"

record Conversation =
  conv_id :: int
  conv_title :: jstr
  conv_started_at :: jstr
  conv_updated_at :: jstr

datatype MessageRole = RoleUser | RoleAssistant | RoleTool

record Message =
  msg_id :: int
  msg_role :: MessageRole
  msg_text :: jstr
  msg_created_at :: jstr

subsection \<open>Weeks\<close>

datatype WeekStatus = Draft | CartBuilt | Ordered

record WeekSummary =
  week_id :: int
  iso_week :: jstr
  start_date :: jstr
  end_date :: jstr
  delivery_date :: "jstr option"
  order_date :: "jstr option"
  week_status :: WeekStatus
  dinner_count :: int
  week_updated_at :: jstr

datatype DinnerRating = Loved | Liked | Meh | Disliked

record Dinner =
  dinner_id :: int
  day_date :: jstr
  dish_id :: "int option"
  dish_name :: jstr
  cuisine :: "jstr option"
  servings :: int
  sourcing :: "(jstr \<times> jstr) list"
  recipe_md :: jstr
  dinner_notes :: jstr
  rating :: "DinnerRating option"
  rating_notes :: jstr

record Exception =
  exc_id :: int
  exc_kind :: jstr
  description :: jstr

record Retrospective =
  retro_id :: int
  retro_notes_md :: jstr
  retro_created_at :: jstr

record CartItemSnapshot =
  snap_name :: "jstr option"
  unit_price :: "rat option"
  line_total :: "rat option"

record CartItem =
  item_id :: int
  product_code :: jstr
  qty :: rat
  reason_md :: jstr
  committed :: bool
  snapshot :: CartItemSnapshot

record WeekDetail = WeekSummary +
  notes_md :: jstr
  dinners :: "Dinner list"
  exceptions :: "Exception list"
  retrospectives :: "Retrospective list"
  cart_items :: "CartItem list"

record WeekCreate =
  wc_start_date :: jstr
  wc_end_date :: jstr
  wc_notes_md :: jstr

text \<open>A partial update: \<open>None\<close> is an absent key; dates that may be cleared are nullable.\<close>

record WeekPatch =
  p_iso_week :: "jstr option"
  p_start_date :: "jstr option"
  p_end_date :: "jstr option"
  p_delivery_date :: "jstr option option"
  p_order_date :: "jstr option option"
  p_status :: "WeekStatus option"
  p_notes_md :: "jstr option"

definition empty_patch :: WeekPatch where
  "empty_patch = \<lparr>p_iso_week = None, p_start_date = None, p_end_date = None,
     p_delivery_date = None, p_order_date = None, p_status = None, p_notes_md = None\<rparr>"

subsection \<open>Household settings\<close>

datatype Lang = Sv | En

record HouseholdSettings =
  default_dinners :: int
  default_delivery_weekday :: int
  default_order_offset_days :: int
  default_servings :: int
  language :: Lang
  llm_provider :: jstr
  hs_notes_md :: jstr

subsection \<open>Providers\<close>

record ProviderFieldOption =
  opt_value :: jstr
  opt_label :: jstr

datatype FieldType = FText | FPassword | FSelect

record ProviderField =
  f_key :: jstr
  f_label :: jstr
  f_type :: FieldType
  f_options :: "ProviderFieldOption list option"
  f_default :: "jstr option"
  f_placeholder :: "jstr option"
  f_required :: "bool option"
  f_hint :: "jstr option"

datatype ProviderCategory = CatLlm | CatShopping

record ProviderKindInfo =
  pk_kind :: jstr
  pk_category :: ProviderCategory
  pk_display_name :: jstr
  pk_fields :: "ProviderField list"

record Provider =
  pr_kind :: jstr
  pr_enabled :: bool
  pr_config :: "jstr \<rightharpoonup> jstr"
  pr_updated_at :: "jstr option"

record ProvidersEnvelope =
  env_known :: "ProviderKindInfo list"
  env_providers :: "Provider list"
  env_sentinel :: jstr

record TestProviderResult =
  tp_ok :: bool
  tp_error :: "jstr option"
  tp_model :: "jstr option"
  tp_reply :: "jstr option"

record Preference =
  category :: jstr
  body_md :: jstr
  pref_updated_at :: jstr

subsection \<open>Usage, versions, updates, set-up, backups\<close>

record UsageTotals =
  cost_usd :: rat
  input_tokens :: int
  cache_creation_input_tokens :: int
  cache_read_input_tokens :: int
  output_tokens :: int
  calls :: int

record UsageDay =
  ud_date :: jstr
  ud_cost_usd :: rat
  ud_calls :: int

record UsageModel = UsageTotals +
  um_model :: jstr

record UsageWeek =
  uw_week_id :: int
  uw_iso_week :: jstr
  uw_cost_usd :: rat
  uw_calls :: int

record UsageConversation =
  conversation_id :: int
  uv_title :: jstr
  uv_week_id :: "int option"
  uv_iso_week :: "jstr option"
  uv_cost_usd :: rat
  uv_calls :: int
  last_used_at :: jstr

record UsageSummary =
  window_days :: int
  total :: UsageTotals
  by_day :: "UsageDay list"
  by_model :: "UsageModel list"
  by_week :: "UsageWeek list"
  recent_conversations :: "UsageConversation list"

record VersionInfo =
  version :: jstr
  vi_commit :: jstr
  built_at :: jstr

record UpdateStatus =
  us_current :: jstr
  us_latest :: jstr
  has_update :: bool
  us_url :: jstr
  us_can_apply :: bool
  auto_enabled :: bool

record UpdateConfig =
  auto_update_enabled :: bool
  uc_can_apply :: bool

record SetupStatus =
  setup_complete :: bool
  has_llm_provider :: bool
  has_preferences :: bool
  has_family_members :: bool

datatype BackupReason = PreMigration | Manual | Nightly | NoReason

record Backup =
  filename :: jstr
  reason :: BackupReason
  bk_label :: jstr
  size_bytes :: nat
  bk_created_at :: jstr

record BackupConfig =
  nightly_enabled :: bool
  nightly_keep :: int
  can_write :: bool

text \<open>The strings of the enumerations, as they stand in URLs, JSON and translation keys.\<close>

fun status_str :: "WeekStatus \<Rightarrow> jstr" where
  "status_str Draft = js ''draft''"
| "status_str CartBuilt = js ''cart_built''"
| "status_str Ordered = js ''ordered''"

fun rating_str :: "DinnerRating \<Rightarrow> jstr" where
  "rating_str Loved = js ''loved''"
| "rating_str Liked = js ''liked''"
| "rating_str Meh = js ''meh''"
| "rating_str Disliked = js ''disliked''"

fun lang_str :: "Lang \<Rightarrow> jstr" where
  "lang_str Sv = js ''sv''"
| "lang_str En = js ''en''"

definition summary_of :: "WeekDetail \<Rightarrow> WeekSummary" where
  "summary_of w = WeekSummary.truncate w"

end
