(* ===== verification/Chat.thy ===== *)
theory Chat
  imports ApiTypes
begin

text \<open>
  web/src/components/ChatDrawer.tsx: the transcript of a chat turn. \<open>applyAgentEvent\<close>
  folds the agent's events into the list of entries; its two refs, the index of the
  assistant entry that is being streamed (\<open>-1\<close> for none) and the map from tool ids to
  entries, are the record \<open>turn\<close>. Also the drawer's submit guard, the model chip and the
  thinking indicator.
\<close>

subsection \<open>Data\<close>

datatype ChatEntry =
    UserEntry jstr
  | AssistantEntry jstr
  | ToolEntry (te_name: jstr) (te_input: jstr) (te_result: "jstr option") (te_isError: "bool option")
  | ErrorEntry jstr
  | CancelledEntry

record turn =
  assistantIndex :: int
  toolsByID :: "jstr \<rightharpoonup> nat"

definition init_turn :: turn where
  "init_turn = \<lparr>assistantIndex = -1, toolsByID = Map.empty\<rparr>"

text \<open>\<open>entries[idx]?.kind\<close>: reading out of range gives undefined.\<close>

definition entry_at :: "ChatEntry list \<Rightarrow> int \<Rightarrow> ChatEntry option" where
  "entry_at es i = (if 0 \<le> i \<and> nat i < length es then Some (es ! nat i) else None)"

subsection \<open>applyAgentEvent\<close>

definition apply_text :: "jstr \<Rightarrow> ChatEntry list \<times> turn \<Rightarrow> ChatEntry list \<times> turn" where
  "apply_text txt st =
     (let (entries, t) = st; idx = assistantIndex t in
      case entry_at entries idx of
        Some (AssistantEntry prev) \<Rightarrow> (entries[nat idx := AssistantEntry (prev @ txt)], t)
      | _ \<Rightarrow> (entries @ [AssistantEntry txt], t\<lparr>assistantIndex := int (length entries)\<rparr>))"

definition apply_tool_call :: "AgentEvent \<Rightarrow> ChatEntry list \<times> turn \<Rightarrow> ChatEntry list \<times> turn" where
  "apply_tool_call ev st =
     (let (entries, t) = st;
          entries' = entries @ [ToolEntry (opt_or (ev_tool ev) (js ''tool''))
                                          (opt_or (ev_input ev) (js ''{}'')) None None];
          t' = t\<lparr>assistantIndex := -1\<rparr>
      in case ev_tool_id ev of
           Some i \<Rightarrow> if truthy i then (entries', t'\<lparr>toolsByID := (toolsByID t)(i \<mapsto> length entries)\<rparr>)
                     else (entries', t')
         | None \<Rightarrow> (entries', t'))"

definition apply_tool_result :: "AgentEvent \<Rightarrow> ChatEntry list \<times> turn \<Rightarrow> ChatEntry list \<times> turn" where
  "apply_tool_result ev st =
     (let (entries, t) = st;
          idx = (case ev_tool_id ev of
                   Some i \<Rightarrow> if truthy i then toolsByID t i else None
                 | None \<Rightarrow> None)
      in case idx of
           None \<Rightarrow> (entries, t)
         | Some k \<Rightarrow>
             (case entry_at entries (int k) of
                Some (ToolEntry n i r e) \<Rightarrow>
                  (entries[k := ToolEntry n i (ev_result ev) (ev_is_error ev)], t)
              | _ \<Rightarrow> (entries, t)))"

definition applyAgentEvent :: "AgentEvent \<Rightarrow> ChatEntry list \<times> turn \<Rightarrow> ChatEntry list \<times> turn" where
  "applyAgentEvent ev st =
     (case ev_type ev of
        EvText \<Rightarrow> (case ev_text ev of
                     Some txt \<Rightarrow> if truthy txt then apply_text txt st else st
                   | None \<Rightarrow> st)
      | EvToolCallStarted \<Rightarrow> st
      | EvToolCall \<Rightarrow> apply_tool_call ev st
      | EvToolResult \<Rightarrow> apply_tool_result ev st
      | EvError \<Rightarrow> (fst st @ [ErrorEntry (opt_or (ev_result ev) (js ''unknown error''))], snd st)
      | EvCancelled \<Rightarrow> (fst st @ [CancelledEntry], snd st)
      | EvDone \<Rightarrow> st)"

subsection \<open>The drawer's own behaviour\<close>

text \<open>\<open>submit\<close>: the message to send, if any, and the new content of the input field.\<close>

definition submit :: "bool \<Rightarrow> jstr \<Rightarrow> jstr option \<times> jstr" where
  "submit busy input =
     (let message = trim input in
      if \<not> truthy message \<or> busy then (None, input) else (Some message, []))"

definition send_disabled :: "bool \<Rightarrow> jstr \<Rightarrow> bool" where
  "send_disabled busy input \<longleftrightarrow> busy \<or> \<not> truthy (trim input)"

definition shows_clear :: "bool \<Rightarrow> ChatEntry list \<Rightarrow> bool" where
  "shows_clear has_onClear entries \<longleftrightarrow> has_onClear \<and> entries \<noteq> []"

definition shows_thinking :: "bool \<Rightarrow> ChatEntry list \<Rightarrow> bool" where
  "shows_thinking busy entries \<longleftrightarrow>
     busy \<and> entries \<noteq> [] \<and> (case last entries of AssistantEntry _ \<Rightarrow> False | _ \<Rightarrow> True)"

text \<open>The mark in front of a tool entry: pending, failed or done.\<close>

datatype ToolMark = MarkPending | MarkFailed | MarkDone

definition tool_mark :: "jstr option \<Rightarrow> bool option \<Rightarrow> ToolMark" where
  "tool_mark res isErr =
     (if res = None then MarkPending else if isErr = Some True then MarkFailed else MarkDone)"

text \<open>
  The chip with the model's name: the Anthropic provider's \<open>model\<close> setting. Replies that
  arrive after the drawer closed (\<open>cancelled\<close>) change nothing; a failure is silent.
\<close>

definition active_model :: "ProvidersEnvelope \<Rightarrow> jstr option" where
  "active_model env =
     (case find (\<lambda>p. pr_kind p = js ''anthropic'') (env_providers env) of
        None \<Rightarrow> None | Some p \<Rightarrow> pr_config p (js ''model''))"

definition model_reply ::
    "bool \<Rightarrow> jstr + ProvidersEnvelope \<Rightarrow> jstr option \<Rightarrow> jstr option" where
  "model_reply cancelled reply model =
     (case reply of Inl _ \<Rightarrow> model | Inr env \<Rightarrow> if cancelled then model else active_model env)"

text \<open>
  \<open>shortModelName\<close>. \<open>upper\<close> is \<open>toUpperCase\<close> of the first character, a Unicode case
  mapping that is a parameter.
\<close>

definition shortModelName :: "(jstr \<Rightarrow> jstr) \<Rightarrow> jstr \<Rightarrow> jstr" where
  "shortModelName upper i =
     (let rest = (if starts_with (js ''claude-'') i then drop 7 i else i);
          parts = split_on c_dash rest in
      if parts = [] then i
      else let name = upper (take 1 (hd parts)) @ drop 1 (hd parts);
               ver = join_with [c_dot] (tl parts)
           in if truthy ver then name @ [c_space] @ ver else name)"

text \<open>The indicator steps through its thirteen phrases.\<close>

definition next_phrase :: "nat \<Rightarrow> nat" where
  "next_phrase i = (i + 1) mod 13"

definition prettyJSON :: "(jstr \<Rightarrow> 'j option) \<Rightarrow> ('j \<Rightarrow> jstr) \<Rightarrow> jstr \<Rightarrow> jstr" where
  "prettyJSON parse_json stringify2 s =
     (case parse_json s of Some v \<Rightarrow> stringify2 v | None \<Rightarrow> s)"

subsection \<open>Applying one event\<close>

lemma entry_at_int: "entry_at es (int k) = (if k < length es then Some (es ! k) else None)"
  by (simp add: entry_at_def)

lemma entry_at_length [simp]: "entry_at es (int (length es)) = None"
  by (simp add: entry_at_def)

lemma entry_at_neg [simp]: "entry_at es (- 1) = None"
  by (simp add: entry_at_def)

lemma entry_at_SomeD: "entry_at es i = Some e \<Longrightarrow> 0 \<le> i \<and> nat i < length es \<and> es ! nat i = e"
  by (simp add: entry_at_def split: if_splits)

text \<open>
  Applying an event twice to the same entries, with the refs the first application left,
  gives the same result: running the state updater twice is harmless.
\<close>

lemma replay_text:
  "apply_text txt (es, snd (apply_text txt (es, t))) = apply_text txt (es, t)"
  by (auto simp: apply_text_def Let_def split: option.splits ChatEntry.splits)

lemma replay_tool_call:
  "apply_tool_call ev (es, snd (apply_tool_call ev (es, t))) = apply_tool_call ev (es, t)"
  by (auto simp: apply_tool_call_def Let_def split: option.splits)

lemma tool_result_turn [simp]: "snd (apply_tool_result ev (es, t)) = t"
  by (simp add: apply_tool_result_def Let_def split: option.splits ChatEntry.splits)

lemma replay_event:
  "applyAgentEvent ev (es, snd (applyAgentEvent ev (es, t))) = applyAgentEvent ev (es, t)"
  by (cases "ev_type ev")
    (simp_all add: applyAgentEvent_def replay_text replay_tool_call split: option.splits)

text \<open>What kind of entry stands at a position never changes, and no entry goes away.\<close>

fun same_kind :: "ChatEntry \<Rightarrow> ChatEntry \<Rightarrow> bool" where
  "same_kind (UserEntry a) e = (e = UserEntry a)"
| "same_kind (AssistantEntry a) e = (\<exists>b. e = AssistantEntry (a @ b))"
| "same_kind (ToolEntry n i r x) e = (\<exists>r' x'. e = ToolEntry n i r' x')"
| "same_kind (ErrorEntry a) e = (e = ErrorEntry a)"
| "same_kind CancelledEntry e = (e = CancelledEntry)"

lemma same_kind_refl [simp]: "same_kind e e"
  by (cases e) auto

definition extends :: "ChatEntry list \<Rightarrow> ChatEntry list \<Rightarrow> bool" where
  "extends es es' \<longleftrightarrow> length es \<le> length es' \<and> (\<forall>k < length es. same_kind (es ! k) (es' ! k))"

lemma extends_refl [simp]: "extends es es"
  by (simp add: extends_def)

lemma extends_append [simp]: "extends es (es @ fs)"
  by (simp add: extends_def nth_append)

lemma extends_update: "same_kind (es ! k) e \<Longrightarrow> extends es (es[k := e])"
  by (cases "k < length es") (auto simp: extends_def nth_list_update list_update_beyond)

lemma same_kind_trans: "same_kind a b \<Longrightarrow> same_kind b c \<Longrightarrow> same_kind a c"
  by (cases a) auto

lemma extends_trans: "extends a b \<Longrightarrow> extends b c \<Longrightarrow> extends a c"
  unfolding extends_def by (meson le_trans less_le_trans same_kind_trans)

lemma apply_extends: "extends es (fst (applyAgentEvent ev (es, t)))"
  by (auto simp: applyAgentEvent_def apply_text_def apply_tool_call_def apply_tool_result_def Let_def
      split: AgentEventType.splits option.splits ChatEntry.splits dest!: entry_at_SomeD
      intro!: extends_update)

definition run_events :: "AgentEvent list \<Rightarrow> ChatEntry list \<times> turn \<Rightarrow> ChatEntry list \<times> turn" where
  "run_events evs st = fold applyAgentEvent evs st"

lemma run_events_simps [simp]:
  "run_events [] st = st" "run_events (ev # evs) st = run_events evs (applyAgentEvent ev st)"
  by (simp_all add: run_events_def)

lemma run_extends: "extends (fst st) (fst (run_events evs st))"
proof (induction evs arbitrary: st)
  case (Cons ev evs)
  then show ?case
    using apply_extends [of "fst st" ev "snd st"] extends_trans by fastforce
qed simp

subsection \<open>Streamed text\<close>

definition text_event :: "jstr \<Rightarrow> AgentEvent" where
  "text_event s = \<lparr>ev_type = EvText, ev_text = Some s, ev_tool = None, ev_tool_id = None,
     ev_input = None, ev_result = None, ev_is_error = None\<rparr>"

lemma apply_text_event:
  "applyAgentEvent (text_event s) st = (if truthy s then apply_text s st else st)"
  by (simp add: applyAgentEvent_def text_event_def)

lemma text_appends:
  "run_events (map text_event ss) (es @ [AssistantEntry a], t\<lparr>assistantIndex := int (length es)\<rparr>)
    = (es @ [AssistantEntry (a @ concat ss)], t\<lparr>assistantIndex := int (length es)\<rparr>)"
  by (induction ss arbitrary: a)
    (auto simp: apply_text_event apply_text_def Let_def entry_at_def)

lemma text_streams:
  assumes "entry_at es (assistantIndex t) = None" and "concat ss \<noteq> []"
  shows "run_events (map text_event ss) (es, t)
    = (es @ [AssistantEntry (concat ss)], t\<lparr>assistantIndex := int (length es)\<rparr>)"
  using assms(2)
proof (induction ss)
  case (Cons s ss)
  show ?case
  proof (cases "s = []")
    case True
    then show ?thesis using Cons by (simp add: apply_text_event)
  next
    case False
    then have "applyAgentEvent (text_event s) (es, t)
        = (es @ [AssistantEntry s], t\<lparr>assistantIndex := int (length es)\<rparr>)"
      using assms(1) by (simp add: apply_text_event apply_text_def)
    then show ?thesis by (simp add: text_appends)
  qed
qed simp

subsection \<open>Tool cards\<close>

fun is_tool :: "ChatEntry \<Rightarrow> bool" where
  "is_tool (ToolEntry n i r e) = True"
| "is_tool _ = False"

definition tools_inv :: "ChatEntry list \<times> turn \<Rightarrow> bool" where
  "tools_inv st \<longleftrightarrow>
     (\<forall>i k. toolsByID (snd st) i = Some k \<longrightarrow> k < length (fst st) \<and> is_tool (fst st ! k))
     \<and> inj_on (toolsByID (snd st)) (dom (toolsByID (snd st)))"

lemma tools_inv_init: "tools_inv (es, init_turn)"
  by (simp add: tools_inv_def init_turn_def)

lemma same_kind_tool: "same_kind a b \<Longrightarrow> is_tool a \<Longrightarrow> is_tool b"
  by (cases a) auto

lemma extends_tools:
  assumes "tools_inv (es, t)" and "extends es es'" and "toolsByID t' = toolsByID t"
  shows "tools_inv (es', t')"
  using assms unfolding tools_inv_def extends_def
  by simp (meson less_le_trans same_kind_tool)

lemma tool_call_turn:
  "toolsByID (snd (applyAgentEvent ev (es, t))) =
     (case (ev_type ev, ev_tool_id ev) of
        (EvToolCall, Some i) \<Rightarrow> if truthy i then (toolsByID t)(i \<mapsto> length es) else toolsByID t
      | _ \<Rightarrow> toolsByID t)"
  by (auto simp: applyAgentEvent_def apply_text_def apply_tool_call_def Let_def
      split: AgentEventType.splits option.splits ChatEntry.splits)

lemma tools_inv_call:
  assumes "tools_inv (es, t)"
  shows "tools_inv (es @ [ToolEntry n i r e], t\<lparr>assistantIndex := a, toolsByID := (toolsByID t)(x \<mapsto> length es)\<rparr>)"
proof -
  have b: "toolsByID t y = Some k \<Longrightarrow> k < length es \<and> is_tool (es ! k)" for y k
    using assms by (auto simp: tools_inv_def)
  have "inj_on (toolsByID t) (dom (toolsByID t))" using assms by (simp add: tools_inv_def)
  then have "inj_on ((toolsByID t)(x \<mapsto> length es)) (dom ((toolsByID t)(x \<mapsto> length es)))"
    using b by (auto simp: inj_on_def dom_def) blast
  then show ?thesis using b by (auto simp: tools_inv_def nth_append less_Suc_eq)
qed

lemma apply_tools_inv:
  assumes "tools_inv (es, t)"
  shows "tools_inv (applyAgentEvent ev (es, t))"
proof (cases "ev_type ev = EvToolCall \<and> (\<exists>i. ev_tool_id ev = Some i \<and> truthy i)")
  case True
  then show ?thesis
    using tools_inv_call [OF assms]
    by (auto simp: applyAgentEvent_def apply_tool_call_def Let_def)
next
  case False
  then have "toolsByID (snd (applyAgentEvent ev (es, t))) = toolsByID t"
    by (auto simp: tool_call_turn split: AgentEventType.splits option.splits)
  then show ?thesis
    using extends_tools [OF assms apply_extends, of "snd (applyAgentEvent ev (es, t))" ev t] by simp
qed

lemma run_tools_inv: "tools_inv st \<Longrightarrow> tools_inv (run_events evs st)"
proof (induction evs arbitrary: st)
  case (Cons ev evs)
  then show ?case using apply_tools_inv [of "fst st" "snd st" ev] by simp
qed simp

lemma tool_result_card:
  assumes "tools_inv (es, t)" and "ev_type ev = EvToolResult" and "ev_tool_id ev = Some i"
    and "i \<noteq> []" and "toolsByID t i = Some k"
  shows "applyAgentEvent ev (es, t) =
    (es[k := ToolEntry (te_name (es ! k)) (te_input (es ! k)) (ev_result ev) (ev_is_error ev)], t)"
proof -
  have "k < length es" "is_tool (es ! k)" using assms by (auto simp: tools_inv_def)
  with assms show ?thesis
    by (cases "es ! k") (auto simp: applyAgentEvent_def apply_tool_result_def entry_at_int)
qed

text \<open>An event that carries another id leaves the card of \<open>i\<close> alone.\<close>

lemma other_event_keeps_card:
  assumes "tools_inv (es, t)" and "toolsByID t i = Some k" and "ev_tool_id ev \<noteq> Some i"
  shows "fst (applyAgentEvent ev (es, t)) ! k = es ! k"
    and "toolsByID (snd (applyAgentEvent ev (es, t))) i = Some k"
proof -
  have k: "k < length es" "is_tool (es ! k)" using assms(1,2) by (auto simp: tools_inv_def)
  have inj: "toolsByID t j = Some k \<Longrightarrow> j = i" for j
    using assms(1,2) by (auto simp: tools_inv_def inj_on_def dom_def)
  show "fst (applyAgentEvent ev (es, t)) ! k = es ! k"
    using k inj assms(3)
    by (auto simp: applyAgentEvent_def apply_text_def apply_tool_call_def apply_tool_result_def
        Let_def nth_append nth_list_update
        split: AgentEventType.splits option.splits ChatEntry.splits dest!: entry_at_SomeD)
  show "toolsByID (snd (applyAgentEvent ev (es, t))) i = Some k"
    using assms(2,3) by (auto simp: tool_call_turn split: AgentEventType.splits option.splits)
qed

lemma run_keeps_card:
  "tools_inv st \<Longrightarrow> toolsByID (snd st) i = Some k \<Longrightarrow> \<forall>ev \<in> set evs. ev_tool_id ev \<noteq> Some i \<Longrightarrow>
    fst (run_events evs st) ! k = fst st ! k"
proof (induction evs arbitrary: st)
  case (Cons ev evs)
  let ?s = "applyAgentEvent ev st"
  have "tools_inv ?s" using apply_tools_inv [of "fst st" "snd st" ev] Cons.prems by simp
  moreover have "toolsByID (snd ?s) i = Some k" "fst ?s ! k = fst st ! k"
    using other_event_keeps_card [of "fst st" "snd st" i k ev] Cons.prems by auto
  ultimately show ?case using Cons by simp
qed simp

subsection \<open>Properties\<close>

text \<open>
  C11: The state updater may run twice, as React's strict mode does: applying an event again to
  the same entries, with the refs that the first run left, gives the same entries and refs.
\<close>

theorem event_replay: "applyAgentEvent ev (es, snd (applyAgentEvent ev (es, t))) = applyAgentEvent ev (es, t)"
  by (rule replay_event)

text \<open>
  The transcript only grows: no event removes or reorders an entry; a text is only continued
  at its end, and a tool card keeps its name and input.
\<close>

theorem transcript_grows: "extends es (fst (run_events evs (es, t)))"
  using run_extends [of "(es, t)" evs] by simp

text \<open>
  Streamed text arrives complete: any split of an answer into text events, with no entry
  under way, ends in one new assistant entry with the whole text.
\<close>

theorem text_is_concatenated:
  assumes "concat ss \<noteq> []"
  shows "run_events (map text_event ss) (es, init_turn)
    = (es @ [AssistantEntry (concat ss)], init_turn\<lparr>assistantIndex := int (length es)\<rparr>)"
  using assms by (intro text_streams) (simp_all add: init_turn_def)

theorem text_is_concatenated_witness:
  "fst (run_events (map text_event [[104], [], [105]]) ([UserEntry [63]], init_turn))
    = [UserEntry [63], AssistantEntry [104, 105]]"
  using text_is_concatenated [of "[[104], [], [105]]" "[UserEntry [63]]"] by simp

text \<open>
  A tool's result ends up on its own card and stays there: after a call with id i, whatever
  events follow, the result for i fills the card of that call, and later events that are not
  about i leave the card as it is.
\<close>

theorem result_stays_on_card:
  assumes "tools_inv (es, t)" and "toolsByID t i = Some k" and "i \<noteq> []"
    and "ev_type ev = EvToolResult" and "ev_tool_id ev = Some i"
    and "list_all (\<lambda>e. ev_tool_id e \<noteq> Some i) before" and "list_all (\<lambda>e. ev_tool_id e \<noteq> Some i) after"
  shows "fst (run_events (before @ ev # after) (es, t)) ! k =
    ToolEntry (te_name (es ! k)) (te_input (es ! k)) (ev_result ev) (ev_is_error ev)"
proof -
  let ?b = "run_events before (es, t)"
  obtain es1 t1 where b: "?b = (es1, t1)" by (cases ?b)
  have keep: "\<forall>e \<in> set before. ev_tool_id e \<noteq> Some i" "\<forall>e \<in> set after. ev_tool_id e \<noteq> Some i"
    using assms(6,7) by (simp_all add: list_all_iff)
  have inv: "tools_inv (es1, t1)" using run_tools_inv [OF assms(1), of before] by (simp add: b)
  have card: "es1 ! k = es ! k"
    using run_keeps_card [of "(es, t)" i k before] assms(1,2) keep(1) by (simp add: b)
  have "toolsByID t1 i = Some k"
    using assms(1,2) keep(1) b
  proof (induction before arbitrary: es t)
    case (Cons e before)
    obtain es2 t2 where e: "applyAgentEvent e (es, t) = (es2, t2)" by (cases "applyAgentEvent e (es, t)")
    have "tools_inv (es2, t2)" using apply_tools_inv [OF Cons.prems(1), of e] by (simp add: e)
    moreover have "toolsByID t2 i = Some k"
      using other_event_keeps_card(2) [of es t i k e] Cons.prems by (simp add: e)
    ultimately show ?case using Cons e by simp
  qed simp
  note res = tool_result_card [OF inv assms(4,5,3) this]
  let ?es = "es1[k := ToolEntry (te_name (es1 ! k)) (te_input (es1 ! k)) (ev_result ev) (ev_is_error ev)]"
  have k: "k < length es1" using inv \<open>toolsByID t1 i = Some k\<close> by (simp add: tools_inv_def)
  have "tools_inv (?es, t1)" using apply_tools_inv [OF inv, of ev] by (simp add: res)
  then have "fst (run_events after (?es, t1)) ! k = ?es ! k"
    using run_keeps_card [of "(?es, t1)" i k after] keep(2) \<open>toolsByID t1 i = Some k\<close> by simp
  moreover have "run_events (before @ ev # after) (es, t) = run_events after (?es, t1)"
    using b res by (simp add: run_events_def)
  ultimately show ?thesis using k card by simp
qed

definition sample_call :: AgentEvent where
  "sample_call = \<lparr>ev_type = EvToolCall, ev_text = None, ev_tool = Some [97], ev_tool_id = Some [49],
     ev_input = Some [123, 125], ev_result = None, ev_is_error = None\<rparr>"

definition sample_result :: AgentEvent where
  "sample_result = \<lparr>ev_type = EvToolResult, ev_text = None, ev_tool = Some [97], ev_tool_id = Some [49],
     ev_input = None, ev_result = Some [111, 107], ev_is_error = Some False\<rparr>"

theorem result_stays_on_card_witness:
  "fst (run_events ([text_event [104]] @ sample_result # [text_event [105]])
      (applyAgentEvent sample_call ([], init_turn))) ! 0 = ToolEntry [97] [123, 125] (Some [111, 107]) (Some False)"
proof -
  have st: "applyAgentEvent sample_call ([], init_turn) =
      ([ToolEntry [97] [123, 125] None None], init_turn\<lparr>toolsByID := [[49] \<mapsto> 0]\<rparr>)"
    by (simp add: applyAgentEvent_def apply_tool_call_def sample_call_def init_turn_def opt_or_def Let_def)
  have "tools_inv ([ToolEntry [97] [123, 125] None None], init_turn\<lparr>toolsByID := [[49] \<mapsto> 0]\<rparr>)"
    using apply_tools_inv [OF tools_inv_init [of "[]"], of sample_call] by (simp add: st)
  from result_stays_on_card [OF this, of "[49]" 0 sample_result "[text_event [104]]" "[text_event [105]]"]
  show ?thesis by (simp add: st sample_result_def text_event_def)
qed

end
