(* ===== verification/ExternalStore.thy ===== *)
theory ExternalStore
  imports JsPrelude
begin

text \<open>
  The contract of React's \<open>useSyncExternalStore\<close> that the modules route.ts, toast.ts,
  theme.ts and i18n/index.ts rely on: each keeps a value outside React, a set of
  listeners and operations that call the listeners. A component that reads the snapshot
  again whenever it is notified must always show the current snapshot; that holds when
  an operation that changes the snapshot always notifies. A \<open>quiet\<close> store moreover
  notifies only when the snapshot changed, so no component renders in vain.
\<close>

locale external_store =
  fixes step :: "'op \<Rightarrow> 's \<Rightarrow> 's"
    and notifies :: "'op \<Rightarrow> 's \<Rightarrow> bool"
    and snapshot :: "'s \<Rightarrow> 'v"
  assumes silent_unchanged: "\<not> notifies a s \<Longrightarrow> snapshot (step a s) = snapshot s"
begin

fun run :: "'op list \<Rightarrow> 's \<Rightarrow> 's" where
  "run [] s = s"
| "run (a # as) s = run as (step a s)"

text \<open>What a subscribed component shows: it reads the snapshot again on a notification.\<close>

fun observe :: "'op list \<Rightarrow> 's \<Rightarrow> 'v \<Rightarrow> 'v" where
  "observe [] s v = v"
| "observe (a # as) s v =
     observe as (step a s) (if notifies a s then snapshot (step a s) else v)"

lemma observe_current: "observe as s (snapshot s) = snapshot (run as s)"
proof (induction as arbitrary: s)
  case (Cons a as)
  from Cons [of "step a s"] silent_unchanged [of a s] show ?case
    by (cases "notifies a s") simp_all
qed simp

fun notifications :: "'op list \<Rightarrow> 's \<Rightarrow> nat" where
  "notifications [] s = 0"
| "notifications (a # as) s = (if notifies a s then 1 else 0) + notifications as (step a s)"

lemma no_notification_unchanged: "notifications as s = 0 \<Longrightarrow> snapshot (run as s) = snapshot s"
  by (induction as arbitrary: s) (auto simp: silent_unchanged split: if_splits)

end

locale quiet_store = external_store +
  assumes loud_changed: "notifies a s \<Longrightarrow> snapshot (step a s) \<noteq> snapshot s"
begin

lemma notifies_iff: "notifies a s \<longleftrightarrow> snapshot (step a s) \<noteq> snapshot s"
  using silent_unchanged loud_changed by blast

end

end
