(* ===== verification/RouteNav.thy ===== *)
theory RouteNav
  imports ExternalStore
begin

text \<open>
  web/src/lib/route.ts: the canonical URLs, parsing and printing them, and navigation
  over the tab's session history. A route id is the JavaScript number that \<open>Number\<close>
  makes of the digits in the path, so digits beyond 53 bits are rounded (a number of
  more than 308 digits, which would be Infinity, is outside the model).
\<close>

subsection \<open>Routes and paths\<close>

datatype Route =
  RHome | RWeek int | RNew | RPrint int | RSettings | RPreferences | RUsage | RSetup

text \<open>\<open>Number\<close> of a digit string: round to 53 significant bits, ties to even.\<close>

fun excess_bits :: "nat \<Rightarrow> nat" where
  "excess_bits n = (if n < 2 ^ 53 then 0 else Suc (excess_bits (n div 2)))"

declare excess_bits.simps [simp del]

definition round_double :: "nat \<Rightarrow> nat" where
  "round_double n =
     (let p = 2 ^ excess_bits n; q = n div p; r = n mod p in
      (if p < 2 * r \<or> (p = 2 * r \<and> odd q) then q + 1 else q) * p)"

definition js_number :: "jstr \<Rightarrow> int" where
  "js_number s = int (round_double (dec_value s))"

definition parseRoute :: "jstr \<Rightarrow> Route" where
  "parseRoute pathname =
     (if pathname = js ''/'' \<or> pathname = [] then RHome
      else if pathname = js ''/weeks/new'' then RNew
      else if pathname = js ''/settings'' then RSettings
      else if pathname = js ''/preferences'' then RPreferences
      else if pathname = js ''/usage'' then RUsage
      else if pathname = js ''/setup'' then RSetup
      else
        let parts = filter (\<lambda>p. truthy p) (split_on c_slash pathname) in
        if 2 \<le> length parts \<and> parts ! 0 = js ''weeks'' \<and> all_digits (parts ! 1) then
          let i = js_number (parts ! 1) in
          if length parts = 2 then RWeek i
          else if length parts = 3 \<and> parts ! 2 = js ''print'' then RPrint i
          else RHome
        else RHome)"

fun routeToPath :: "Route \<Rightarrow> jstr" where
  "routeToPath RHome = js ''/''"
| "routeToPath (RWeek i) = js ''/weeks/'' @ dec_int i"
| "routeToPath RNew = js ''/weeks/new''"
| "routeToPath (RPrint i) = js ''/weeks/'' @ dec_int i @ js ''/print''"
| "routeToPath RSettings = js ''/settings''"
| "routeToPath RPreferences = js ''/preferences''"
| "routeToPath RUsage = js ''/usage''"
| "routeToPath RSetup = js ''/setup''"

subsection \<open>Navigation\<close>

text \<open>
  The session history of the tab: the entries before and after the current one, nearest
  first. \<open>AppEntry\<close> is a path of this application, \<open>OtherSite\<close> a page of another one.
\<close>

datatype entry = AppEntry jstr | OtherSite

record history =
  back_entries :: "entry list"
  pathname :: jstr
  forward_entries :: "entry list"

definition history_length :: "history \<Rightarrow> nat" where
  "history_length h = length (back_entries h) + 1 + length (forward_entries h)"

definition replaceState :: "jstr \<Rightarrow> history \<Rightarrow> history" where
  "replaceState p h = h\<lparr>pathname := p\<rparr>"

definition pushState :: "jstr \<Rightarrow> history \<Rightarrow> history" where
  "pushState p h = \<lparr>back_entries = AppEntry (pathname h) # back_entries h, pathname = p,
                    forward_entries = []\<rparr>"

definition navigate_path :: "jstr \<Rightarrow> bool \<Rightarrow> history \<Rightarrow> history" where
  "navigate_path path replace_opt h =
     (if path = pathname h then h
      else if replace_opt then replaceState path h else pushState path h)"

definition navigate :: "Route \<Rightarrow> bool \<Rightarrow> history \<Rightarrow> history" where
  "navigate r replace_opt h = navigate_path (routeToPath r) replace_opt h"

text \<open>\<open>history.back()\<close>: nothing at the oldest entry; another site's page replaces the app.\<close>

datatype nav_result = InApp history | LeftApp

definition history_back :: "history \<Rightarrow> nav_result" where
  "history_back h =
     (case back_entries h of
        [] \<Rightarrow> InApp h
      | OtherSite # _ \<Rightarrow> LeftApp
      | AppEntry p # es \<Rightarrow>
          InApp \<lparr>back_entries = es, pathname = p,
                 forward_entries = AppEntry (pathname h) # forward_entries h\<rparr>)"

definition goBack :: "Route \<Rightarrow> history \<Rightarrow> nav_result" where
  "goBack fallback h =
     (if history_length h > 1 then history_back h else InApp (navigate fallback True h))"

definition useRoute :: "history \<Rightarrow> Route" where
  "useRoute h = parseRoute (pathname h)"

subsection \<open>Printing and parsing\<close>

lemma round_double_exact: "n \<le> 2 ^ 53 \<Longrightarrow> round_double n = n"
proof (cases "n < 2 ^ 53")
  case True
  then show ?thesis by (simp add: round_double_def excess_bits.simps [of n])
next
  case False
  moreover assume "n \<le> 2 ^ 53"
  ultimately have n: "n = 2 ^ 53" by simp
  have "excess_bits n = Suc 0"
    unfolding n by (subst excess_bits.simps) (simp add: excess_bits.simps)
  then show ?thesis unfolding n by (simp add: round_double_def)
qed

definition valid_route :: "Route \<Rightarrow> bool" where
  "valid_route r = (case r of RWeek i \<Rightarrow> 0 \<le> i \<and> i \<le> 2 ^ 53 | RPrint i \<Rightarrow> 0 \<le> i \<and> i \<le> 2 ^ 53
     | _ \<Rightarrow> True)"

lemma no_slash_dec: "c_slash \<notin> set (dec n)"
  by (auto simp: is_digit_def dest: digits_dec)

lemma no_slash_literals: "c_slash \<notin> set (js ''weeks'')" "c_slash \<notin> set (js ''print'')"
  by (simp_all add: js_def)

lemma weeks_prefix: "js ''/weeks/'' = c_slash # js ''weeks'' @ [c_slash]"
  by (simp add: js_Cons)

lemma split_week: "split_on c_slash (js ''/weeks/'' @ dec n) = [[], js ''weeks'', dec n]"
  unfolding weeks_prefix using no_slash_literals(1) no_slash_dec
  by (simp add: split_on_append_sep split_on_no_sep)

lemma print_suffix: "js ''/print'' = c_slash # js ''print''"
  by (simp add: js_Cons)

lemma split_print:
  "split_on c_slash (js ''/weeks/'' @ dec n @ js ''/print'') = [[], js ''weeks'', dec n, js ''print'']"
  unfolding weeks_prefix print_suffix using no_slash_literals no_slash_dec
  by (simp add: split_on_append_sep split_on_no_sep)

text \<open>The fixed paths are no week paths: their eighth code unit is no digit.\<close>

lemma dec_hd: "dec n = c # s \<Longrightarrow> 48 \<le> c \<and> c \<le> 57"
  using digits_dec [of c n] by (auto simp: is_digit_def)

lemma week_not_fixed:
  "js ''/weeks/'' @ dec n @ t \<noteq> js ''/''" "js ''/weeks/'' @ dec n @ t \<noteq> js ''/weeks/new''"
  "js ''/weeks/'' @ dec n @ t \<noteq> js ''/settings''" "js ''/weeks/'' @ dec n @ t \<noteq> js ''/preferences''"
  "js ''/weeks/'' @ dec n @ t \<noteq> js ''/usage''" "js ''/weeks/'' @ dec n @ t \<noteq> js ''/setup''"
  "js ''/weeks/'' @ dec n @ t \<noteq> []"
  using dec_hd [of n] by (cases "dec n"; force simp: js_def)+

lemma parse_week: "int n \<le> 2 ^ 53 \<Longrightarrow> parseRoute (js ''/weeks/'' @ dec n) = RWeek (int n)"
  using week_not_fixed [of n "[]"]
  by (simp add: parseRoute_def split_week js_number_def round_double_exact)

lemma parse_print: "int n \<le> 2 ^ 53 \<Longrightarrow> parseRoute (js ''/weeks/'' @ dec n @ js ''/print'') = RPrint (int n)"
  using week_not_fixed [of n "js ''/print''"]
  by (simp add: parseRoute_def split_print js_number_def round_double_exact)

lemma parse_routeToPath: "valid_route r \<Longrightarrow> parseRoute (routeToPath r) = r"
proof (cases r)
  case (RWeek i)
  moreover assume "valid_route r"
  ultimately obtain n where "i = int n" "int n \<le> 2 ^ 53"
    using zero_le_imp_eq_int [of i] by (auto simp: valid_route_def)
  then show ?thesis using parse_week [of n] RWeek by (simp add: dec_int_def)
next
  case (RPrint i)
  moreover assume "valid_route r"
  ultimately obtain n where "i = int n" "int n \<le> 2 ^ 53"
    using zero_le_imp_eq_int [of i] by (auto simp: valid_route_def)
  then show ?thesis using parse_print [of n] RPrint by (simp add: dec_int_def)
qed (simp_all add: parseRoute_def)

subsection \<open>The location as a store\<close>

datatype nav_op = Navigate jstr bool

fun nav_step :: "nav_op \<Rightarrow> history \<Rightarrow> history" where
  "nav_step (Navigate p rep) h = navigate_path p rep h"

fun nav_notifies :: "nav_op \<Rightarrow> history \<Rightarrow> bool" where
  "nav_notifies (Navigate p rep) h = (p \<noteq> pathname h)"

lemma navigate_pathname [simp]: "pathname (navigate_path p rep h) = p"
  by (simp add: navigate_path_def replaceState_def pushState_def)

interpretation location_store: quiet_store nav_step nav_notifies pathname
proof unfold_locales
  fix a h
  show "\<not> nav_notifies a h \<Longrightarrow> pathname (nav_step a h) = pathname h"
    "nav_notifies a h \<Longrightarrow> pathname (nav_step a h) \<noteq> pathname h"
    by (cases a; simp)+
qed

lemma back_after_push:
  assumes "p \<noteq> pathname h"
  shows "goBack fb (navigate_path p False h) =
    InApp (h\<lparr>forward_entries := [AppEntry p]\<rparr>)"
  using assms by (simp add: goBack_def history_length_def navigate_path_def pushState_def history_back_def)

subsection \<open>Properties\<close>

text \<open>
  C27: Every address that the application makes of a route is read back as that route (ids up to
  2 to the 53, which a JavaScript number holds exactly), and navigating to a route shows it.
\<close>

theorem route_round_trip:
  assumes "valid_route r"
  shows "parseRoute (routeToPath r) = r \<and> useRoute (navigate r rep h) = r"
  using parse_routeToPath [OF assms] by (simp add: useRoute_def navigate_def)

theorem route_round_trip_witness: "parseRoute (routeToPath (RPrint 42)) = RPrint 42"
  using route_round_trip [of "RPrint 42" True "\<lparr>back_entries = [], pathname = [], forward_entries = []\<rparr>"]
  by (simp add: valid_route_def)

text \<open>
  Going back after a navigation returns to where it started; without any history it goes to
  the fallback. A navigation to the current address adds no history entry.
\<close>

theorem go_back_returns:
  assumes "p \<noteq> pathname h"
  shows "goBack fb (navigate_path p False h) = InApp (h\<lparr>forward_entries := [AppEntry p]\<rparr>) \<and>
    goBack fb \<lparr>back_entries = [], pathname = p, forward_entries = []\<rparr> =
      InApp (navigate fb True \<lparr>back_entries = [], pathname = p, forward_entries = []\<rparr>) \<and>
    navigate_path (pathname h) rep h = h"
  using back_after_push [OF assms]
  by (simp add: goBack_def history_length_def navigate_path_def)

theorem go_back_returns_witness:
  "goBack RHome (navigate_path [47, 97] False \<lparr>back_entries = [], pathname = [47], forward_entries = []\<rparr>)
    = InApp \<lparr>back_entries = [], pathname = [47], forward_entries = [AppEntry [47, 97]]\<rparr>"
  using go_back_returns [of "[47, 97]" "\<lparr>back_entries = [], pathname = [47], forward_entries = []\<rparr>" RHome True]
  by simp

end
