(* ===== verification/Toast.thy ===== *)
theory Toast
  imports ExternalStore "HOL-Library.Sublist"
begin

text \<open>
  web/src/lib/toast.ts: the queue of toasts. State: the list \<open>toasts\<close> (oldest first) and
  the counter \<open>nextID\<close> of generated ids. Operations: \<open>add\<close> (behind success, error and
  info), \<open>dismiss\<close> and \<open>clear\<close>, and the eviction policy \<open>capQueue\<close>. What a toast's
  button runs (\<open>onClick\<close>) is of the type parameter \<open>'a\<close>. The set of listeners is not
  part of the state: which operations call \<open>emit\<close> is \<open>toast_emits\<close>.
\<close>

subsection \<open>Data\<close>

datatype ToastVariant = Success | Error | Info

record 'a ToastAction =
  label :: jstr
  onClick :: 'a

record 'a Toast =
  toast_id :: jstr
  variant :: ToastVariant
  message :: jstr
  action :: "'a ToastAction option"
  duration :: int

record 'a ToastOptions =
  opt_action :: "'a ToastAction option"
  opt_duration :: "int option"
  opt_id :: "jstr option"

record 'a toast_state =
  toasts :: "'a Toast list"
  nextID :: nat

definition MAX_VISIBLE :: nat where
  "MAX_VISIBLE = 3"

fun DEFAULTS :: "ToastVariant \<Rightarrow> int" where
  "DEFAULTS Success = 3000"
| "DEFAULTS Info = 3000"
| "DEFAULTS Error = 0"

definition init_toasts :: "'a toast_state" where
  "init_toasts = \<lparr>toasts = [], nextID = 1\<rparr>"

subsection \<open>Operations\<close>

text \<open>
  The loop of \<open>capQueue\<close>: walk from the oldest toast, removing those that are not
  errors until \<open>toDrop\<close> have gone or the end is reached.
\<close>

fun evict :: "nat \<Rightarrow> 'a Toast list \<Rightarrow> 'a Toast list" where
  "evict 0 ts = ts"
| "evict (Suc toDrop) [] = []"
| "evict (Suc toDrop) (t # ts) =
     (if variant t \<noteq> Error then evict toDrop ts else t # evict (Suc toDrop) ts)"

text \<open>
  The loop as the code has it, on an index into an array from which \<open>splice\<close> removes the
  element at the index; \<open>None\<close> would be a loop that does not end.
\<close>

partial_function (option) splice_loop :: "nat \<Rightarrow> nat \<Rightarrow> 'a Toast list \<Rightarrow> 'a Toast list option" where
  "splice_loop i toDrop result =
     (if i < length result \<and> toDrop > 0 then
        (if variant (result ! i) \<noteq> Error
         then splice_loop i (toDrop - 1) (take i result @ drop (Suc i) result)
         else splice_loop (i + 1) toDrop result)
      else Some result)"

definition capQueue :: "'a Toast list \<Rightarrow> 'a Toast list" where
  "capQueue nxt =
     (if length nxt \<le> MAX_VISIBLE then nxt
      else let result = evict (length nxt - MAX_VISIBLE) nxt in
        if length result > MAX_VISIBLE then drop (length result - MAX_VISIBLE) result else result)"

fun find_index :: "('b \<Rightarrow> bool) \<Rightarrow> 'b list \<Rightarrow> nat option" where
  "find_index P [] = None"
| "find_index P (x # xs) = (if P x then Some 0 else map_option Suc (find_index P xs))"

definition no_opts :: "'a ToastOptions" where
  "no_opts = \<lparr>opt_action = None, opt_duration = None, opt_id = None\<rparr>"

definition add :: "ToastVariant \<Rightarrow> jstr \<Rightarrow> 'a ToastOptions \<Rightarrow> 'a toast_state \<Rightarrow> jstr \<times> 'a toast_state" where
  "add v msg opts s =
     (let i = nullish (opt_id opts) (js ''t'' @ dec (nextID s));
          n = (if opt_id opts = None then Suc (nextID s) else nextID s);
          item = \<lparr>toast_id = i, variant = v, message = msg, action = opt_action opts,
                  duration = nullish (opt_duration opts) (DEFAULTS v)\<rparr>
      in case find_index (\<lambda>t. toast_id t = i) (toasts s) of
           Some existing \<Rightarrow> (i, \<lparr>toasts = (toasts s)[existing := item], nextID = n\<rparr>)
         | None \<Rightarrow> (i, \<lparr>toasts = capQueue (toasts s @ [item]), nextID = n\<rparr>))"

definition dismiss :: "jstr \<Rightarrow> 'a toast_state \<Rightarrow> 'a toast_state" where
  "dismiss i s =
     (let nxt = filter (\<lambda>t. toast_id t \<noteq> i) (toasts s) in
      if length nxt = length (toasts s) then s else s\<lparr>toasts := nxt\<rparr>)"

definition clear :: "'a toast_state \<Rightarrow> 'a toast_state" where
  "clear s = (if toasts s = [] then s else s\<lparr>toasts := []\<rparr>)"

datatype 'a toast_op =
    Add ToastVariant jstr "'a ToastOptions"
  | Dismiss jstr
  | Clear

fun toast_step :: "'a toast_op \<Rightarrow> 'a toast_state \<Rightarrow> 'a toast_state" where
  "toast_step (Add v msg opts) s = snd (add v msg opts s)"
| "toast_step (Dismiss i) s = dismiss i s"
| "toast_step Clear s = clear s"

text \<open>Which operations call \<open>emit\<close>.\<close>

fun toast_emits :: "'a toast_op \<Rightarrow> 'a toast_state \<Rightarrow> bool" where
  "toast_emits (Add v msg opts) s = True"
| "toast_emits (Dismiss i) s =
     (length (filter (\<lambda>t. toast_id t \<noteq> i) (toasts s)) \<noteq> length (toasts s))"
| "toast_emits Clear s = (toasts s \<noteq> [])"

subsection \<open>The eviction policy\<close>

abbreviation is_error :: "'a Toast \<Rightarrow> bool" where "is_error t \<equiv> variant t = Error"

abbreviation errors :: "'a Toast list \<Rightarrow> 'a Toast list" where "errors ts \<equiv> filter is_error ts"

abbreviation others :: "'a Toast list \<Rightarrow> 'a Toast list" where
  "others ts \<equiv> filter (\<lambda>t. \<not> is_error t) ts"

lemma errors_others_length: "length (errors ts) + length (others ts) = length ts"
  by (induction ts) auto

lemma splice_loop_evict: "splice_loop (length xs) k (xs @ ts) = Some (xs @ evict k ts)"
proof (induction k ts arbitrary: xs rule: evict.induct)
  case (3 k t ts)
  show ?case
  proof (cases "variant t = Error")
    case True
    with 3(2) [of "xs @ [t]"] show ?thesis by (subst splice_loop.simps) simp
  next
    case False
    with 3(1) [of xs] show ?thesis by (subst splice_loop.simps) simp
  qed
qed (simp_all add: splice_loop.simps)

lemma evict_errors: "errors (evict k ts) = errors ts"
  by (induction k ts rule: evict.induct) auto

lemma evict_others: "others (evict k ts) = drop k (others ts)"
  by (induction k ts rule: evict.induct) auto

lemma evict_subseq: "subseq (evict k ts) ts"
  by (induction k ts rule: evict.induct) auto

lemma evict_length: "length (evict k ts) = length (errors ts) + (length (others ts) - k)"
  using errors_others_length [of "evict k ts"] by (simp add: evict_errors evict_others)

lemma capQueue_length: "length (capQueue ts) \<le> MAX_VISIBLE"
  by (auto simp: capQueue_def Let_def)

lemma capQueue_full: "MAX_VISIBLE \<le> length ts \<Longrightarrow> length (capQueue ts) = MAX_VISIBLE"
  using errors_others_length [of ts] by (auto simp: capQueue_def Let_def evict_length)

lemma capQueue_subseq: "subseq (capQueue ts) ts"
proof -
  have "subseq (drop n (evict k ts)) ts" for n k
    using evict_subseq [of k ts] by (meson subseq_order.trans suffix_drop suffix_imp_subseq)
  then show ?thesis using evict_subseq by (auto simp: capQueue_def Let_def)
qed

lemma filter_all_errors: "others ts = [] \<Longrightarrow> errors ts = ts"
  by (induction ts) (auto split: if_splits)

lemma capQueue_errors: "errors (capQueue ts) = drop (length (errors ts) - MAX_VISIBLE) (errors ts)"
proof (cases "length ts \<le> MAX_VISIBLE")
  case True
  then show ?thesis
    using errors_others_length [of ts] by (simp add: capQueue_def)
next
  case False
  let ?r = "evict (length ts - MAX_VISIBLE) ts"
  show ?thesis
  proof (cases "length ?r > MAX_VISIBLE")
    case True
    then have "others ?r = []"
      using errors_others_length [of ts] False by (simp add: evict_length evict_others)
    then have "?r = errors ts" using filter_all_errors [of ?r] evict_errors [of _ ts] by metis
    moreover have "filter is_error (drop n (errors ts)) = drop n (errors ts)" for n
      by (intro filter_True) (auto dest: in_set_dropD)
    ultimately show ?thesis using True False by (simp add: capQueue_def Let_def)
  next
    case l: False
    then have "length (errors ts) \<le> MAX_VISIBLE" by (simp add: evict_length)
    then show ?thesis using l False by (simp add: capQueue_def Let_def evict_errors)
  qed
qed

lemma capQueue_others: "others (capQueue ts) = drop (length ts - MAX_VISIBLE) (others ts)"
proof (cases "length ts \<le> MAX_VISIBLE")
  case False
  let ?r = "evict (length ts - MAX_VISIBLE) ts"
  show ?thesis
  proof (cases "length ?r > MAX_VISIBLE")
    case True
    then have le: "length (others ts) \<le> length ts - MAX_VISIBLE"
      using errors_others_length [of ts] False by (simp add: evict_length)
    then have "others ?r = []" by (simp add: evict_others)
    then have "others (drop n ?r) = []" for n by (auto simp: filter_empty_conv dest: in_set_dropD)
    then show ?thesis using True False le by (simp add: capQueue_def Let_def)
  next
    case l: False
    then show ?thesis using False by (simp add: capQueue_def Let_def evict_others)
  qed
qed (simp add: capQueue_def)

subsection \<open>The invariant of the queue\<close>

definition toast_inv :: "'a toast_state \<Rightarrow> bool" where
  "toast_inv s \<longleftrightarrow> length (toasts s) \<le> MAX_VISIBLE \<and> distinct (map toast_id (toasts s))"

definition ids :: "'a toast_state \<Rightarrow> jstr set" where
  "ids s = set (map toast_id (toasts s))"

lemma find_index_Some:
  "find_index P xs = Some i \<Longrightarrow> i < length xs \<and> P (xs ! i) \<and> (\<forall>j < i. \<not> P (xs ! j))"
proof (induction xs arbitrary: i)
  case (Cons x xs)
  show ?case
  proof (cases "P x")
    case False
    with Cons.prems obtain j where "i = Suc j" "find_index P xs = Some j" by auto
    with Cons.IH [of j] False show ?thesis by (auto simp: less_Suc_eq_0_disj)
  qed (use Cons.prems in auto)
qed simp

lemma find_index_None: "find_index P xs = None \<longleftrightarrow> (\<forall>x \<in> set xs. \<not> P x)"
  by (induction xs) auto

lemma update_same_key: "i < length xs \<Longrightarrow> f x = f (xs ! i) \<Longrightarrow> map f (xs[i := x]) = map f xs"
  by (simp add: map_update) (metis list_update_id nth_map)

lemma subseq_distinct_map: "subseq xs ys \<Longrightarrow> distinct (map f ys) \<Longrightarrow> distinct (map f xs)"
  by (metis subseq_conv_nths subseq_map distinct_nthsI)

lemma init_toast_inv: "toast_inv init_toasts"
  by (simp add: toast_inv_def init_toasts_def)

lemma add_toast_inv:
  assumes "toast_inv s"
  shows "toast_inv (snd (add v msg opts s))"
proof -
  let ?i = "nullish (opt_id opts) (js ''t'' @ dec (nextID s))"
  let ?f = "find_index (\<lambda>t. toast_id t = ?i) (toasts s)"
  show ?thesis
  proof (cases ?f)
    case None
    let ?item = "\<lparr>toast_id = ?i, variant = v, message = msg, action = opt_action opts,
                  duration = nullish (opt_duration opts) (DEFAULTS v)\<rparr>"
    have "distinct (map toast_id (toasts s @ [?item]))"
      using None assms by (auto simp: find_index_None toast_inv_def)
    then have "distinct (map toast_id (capQueue (toasts s @ [?item])))"
      by (rule subseq_distinct_map [OF capQueue_subseq])
    with None show ?thesis by (simp add: add_def Let_def toast_inv_def capQueue_length)
  next
    case (Some k)
    with find_index_Some [OF Some] assms show ?thesis
      by (simp add: add_def Let_def toast_inv_def update_same_key)
  qed
qed

lemma dismiss_toasts [simp]: "toasts (dismiss i s) = filter (\<lambda>t. toast_id t \<noteq> i) (toasts s)"
  by (simp add: dismiss_def Let_def) (metis filter_cong length_filter_less less_irrefl filter_True)

lemma dismiss_toast_inv: "toast_inv s \<Longrightarrow> toast_inv (dismiss i s)"
  by (auto simp: toast_inv_def distinct_map_filter intro: le_trans [OF length_filter_le])

lemma step_toast_inv: "toast_inv s \<Longrightarrow> toast_inv (toast_step a s)"
proof (cases a)
  case Clear
  then show "toast_inv s \<Longrightarrow> ?thesis" by (simp add: clear_def toast_inv_def)
qed (simp_all add: add_toast_inv dismiss_toast_inv)

lemma dismiss_ids: "ids (dismiss i s) = ids s - {i}"
  by (auto simp: ids_def)

lemma error_in_capQueue:
  assumes "is_error t"
  shows "t \<in> set (capQueue (ts @ [t]))"
proof -
  have "errors (capQueue (ts @ [t])) = drop (Suc (length (errors ts)) - MAX_VISIBLE) (errors ts @ [t])"
    using assms by (simp add: capQueue_errors)
  moreover have "Suc (length (errors ts)) - MAX_VISIBLE \<le> length (errors ts)"
    by (simp add: MAX_VISIBLE_def)
  ultimately have "t \<in> set (errors (capQueue (ts @ [t])))" by simp
  then show ?thesis by simp
qed

lemma added_error_shown:
  "\<exists>x\<in>set (toasts (snd (add Error msg opts s))).
     is_error x \<and> message x = msg \<and> toast_id x = fst (add Error msg opts s)"
proof -
  let ?i = "nullish (opt_id opts) (js ''t'' @ dec (nextID s))"
  let ?item = "\<lparr>toast_id = ?i, variant = Error, message = msg, action = opt_action opts,
                duration = nullish (opt_duration opts) (DEFAULTS Error)\<rparr>"
  have "?item \<in> set (toasts (snd (add Error msg opts s))) \<and> fst (add Error msg opts s) = ?i"
  proof (cases "find_index (\<lambda>t. toast_id t = ?i) (toasts s)")
    case None
    then show ?thesis by (simp add: add_def Let_def error_in_capQueue)
  next
    case (Some k)
    have "?item \<in> set ((toasts s)[k := ?item])"
      using find_index_Some [OF Some] by (intro set_update_memI) simp
    with Some show ?thesis by (simp add: add_def Let_def)
  qed
  then show ?thesis by (intro bexI [of _ ?item]) simp_all
qed

lemma add_error_shown: "fst (add Error msg opts s) \<in> ids (snd (add Error msg opts s))"
  using added_error_shown [of msg opts s] by (auto simp: ids_def intro: rev_image_eqI)

subsection \<open>The toast store satisfies the store contract\<close>

interpretation toast_store: external_store toast_step toast_emits toasts
proof unfold_locales
  fix a :: "'a toast_op" and s :: "'a toast_state"
  assume "\<not> toast_emits a s"
  then show "toasts (toast_step a s) = toasts s"
    by (cases a) (auto simp: dismiss_def clear_def)
qed

lemma run_toast_inv: "toast_inv s \<Longrightarrow> toast_inv (toast_store.run as s)"
  by (induction as arbitrary: s) (auto simp: step_toast_inv)

subsection \<open>The interface for messages with a key\<close>

text \<open>
  What a component that reports failures under a fixed id relies on: the error is shown
  after it was raised and gone after it was dismissed, and a dismissal touches no other.
\<close>

locale error_board =
  fixes raise_error :: "jstr \<Rightarrow> 'm \<Rightarrow> 's \<Rightarrow> 's" and drop_error :: "jstr \<Rightarrow> 's \<Rightarrow> 's"
    and shown :: "'s \<Rightarrow> jstr set"
  assumes raise_shown: "i \<in> shown (raise_error i m s)"
    and drop_shown: "shown (drop_error i s) = shown s - {i}"
begin

lemma drop_not_shown: "i \<notin> shown (drop_error i s)"
  by (simp add: drop_shown)

lemma raise_drop: "i \<notin> shown (drop_error i (raise_error i m s))"
  by (simp add: drop_shown)

lemma drop_other: "j \<noteq> i \<Longrightarrow> j \<in> shown (drop_error i s) \<longleftrightarrow> j \<in> shown s"
  by (simp add: drop_shown)

end

definition toast_error_at ::
    "jstr \<Rightarrow> jstr \<times> 'a ToastAction option \<Rightarrow> 'a toast_state \<Rightarrow> 'a toast_state" where
  "toast_error_at i m s =
     snd (add Error (fst m) \<lparr>opt_action = snd m, opt_duration = None, opt_id = Some i\<rparr> s)"

lemma fst_add: "fst (add v msg opts s) = nullish (opt_id opts) (js ''t'' @ dec (nextID s))"
  by (simp add: add_def Let_def split: option.splits)

interpretation board: error_board toast_error_at dismiss ids
proof unfold_locales
  fix i and m :: "jstr \<times> 'a ToastAction option" and s :: "'a toast_state"
  let ?o = "\<lparr>opt_action = snd m, opt_duration = None, opt_id = Some i\<rparr>"
  show "i \<in> ids (toast_error_at i m s)"
    using add_error_shown [of "fst m" ?o s] fst_add [of Error "fst m" ?o s]
    by (simp add: toast_error_at_def)
qed (rule dismiss_ids)

subsection \<open>Properties\<close>

text \<open>
  C24: After any sequence of operations at most three toasts are in the queue, their ids are
  distinct, and a subscribed component shows exactly the queue.
\<close>

theorem toast_queue_bounded:
  "length (toasts (toast_store.run ops init_toasts)) \<le> 3 \<and>
   distinct (map toast_id (toasts (toast_store.run ops init_toasts))) \<and>
   toast_store.observe ops init_toasts (toasts init_toasts) = toasts (toast_store.run ops init_toasts)"
proof -
  have "toast_inv (toast_store.run ops s)" if "toast_inv s" for s :: "'a toast_state"
    using that by (induction ops arbitrary: s) (simp_all add: step_toast_inv)
  from this [OF init_toast_inv] show ?thesis
    using toast_store.observe_current [of ops init_toasts]
    by (simp add: toast_inv_def MAX_VISIBLE_def)
qed

text \<open>
  C25: The queue evicts others before errors, the oldest first: among more than three toasts the
  errors lose only those beyond the newest three, the others as many as are too much, and the
  rest keeps its order.
\<close>

theorem eviction_policy:
  "errors (capQueue ts) = drop (length (errors ts) - 3) (errors ts) \<and>
   others (capQueue ts) = drop (length ts - 3) (others ts) \<and>
   subseq (capQueue ts) ts \<and> length (capQueue ts) = min 3 (length ts)"
  using capQueue_errors [of ts] capQueue_others [of ts] capQueue_subseq [of ts] capQueue_full [of ts]
  by (auto simp: MAX_VISIBLE_def capQueue_def min_def)

text \<open>
  The loop of \<open>capQueue\<close> ends on every queue, although it moves its index only past errors
  and shortens the array while it walks over it; what it leaves is \<open>evict\<close>.
\<close>

theorem splice_loop_ends: "splice_loop 0 toDrop ts = Some (evict toDrop ts)"
  using splice_loop_evict [of "[]" toDrop ts] by simp

text \<open>
  An error raised under a fixed id is on screen right after, replaces the earlier one of that
  id, and dismissing the id removes it and nothing else.
\<close>

theorem keyed_errors:
  "i \<in> ids (toast_error_at i m s) \<and> i \<notin> ids (dismiss i (toast_error_at i m s)) \<and>
   (j = i \<or> (j \<in> ids (dismiss i s) \<longleftrightarrow> j \<in> ids s))"
  using board.raise_shown [of i m s] board.raise_drop [of i m s] board.drop_other [of j i s] by blast

end
