(* ===== verification/Api.thy ===== *)
theory Api
  imports ApiTypes
begin

text \<open>
  The client functions of web/src/lib/api.ts: for each the request it sends and how it
  reads the reply. The server is a parameter, a function on its own state \<open>'s\<close> that
  answers a request or makes \<open>fetch\<close> reject. A call returns \<open>Inl\<close> of the error message
  it throws or \<open>Inr\<close> of its result. Replies are JSON values, which the code casts to the
  types of ApiTypes without a check.
\<close>

subsection \<open>Requests and replies\<close>

datatype json =
  JNull | JBool bool | JNum rat | JStr jstr | JArr "json list" | JObj "(jstr \<times> json) list"

datatype http_method = GET | POST | PUT | PATCH | DELETE

record request =
  rq_method :: http_method
  rq_path :: jstr
  rq_json_header :: bool      \<comment> \<open>Content-Type: application/json\<close>
  rq_body :: "json option"

record response =
  rs_status :: int
  rs_text :: jstr
  rs_json :: "json option"    \<comment> \<open>None: the body is not JSON and json() rejects\<close>

type_synonym 's server = "request \<Rightarrow> 's \<Rightarrow> (jstr + response) \<times> 's"

definition rs_ok :: "response \<Rightarrow> bool" where
  "rs_ok r \<longleftrightarrow> 200 \<le> rs_status r \<and> rs_status r \<le> 299"

definition not_json :: jstr where
  "not_json = js ''invalid JSON''"

definition plain :: "http_method \<Rightarrow> jstr \<Rightarrow> request" where
  "plain m p = \<lparr>rq_method = m, rq_path = p, rq_json_header = False, rq_body = None\<rparr>"

definition with_json :: "http_method \<Rightarrow> jstr \<Rightarrow> json \<Rightarrow> request" where
  "with_json m p b = \<lparr>rq_method = m, rq_path = p, rq_json_header = True, rq_body = Some b\<rparr>"

definition call :: "'s server \<Rightarrow> request \<Rightarrow> (response \<Rightarrow> jstr + 'a) \<Rightarrow> 's \<Rightarrow> (jstr + 'a) \<times> 's" where
  "call srv rq f s = (case srv rq s of (Inl e, s') \<Rightarrow> (Inl e, s') | (Inr r, s') \<Rightarrow> (f r, s'))"

text \<open>The messages \<open>label: status\<close> and \<open>label: status text\<close>.\<close>

definition status_error :: "string \<Rightarrow> response \<Rightarrow> jstr" where
  "status_error lbl r = js lbl @ js '': '' @ dec_int (rs_status r)"

definition status_text_error :: "string \<Rightarrow> response \<Rightarrow> jstr" where
  "status_text_error lbl r = status_error lbl r @ [c_space] @ rs_text r"

definition read_json :: "response \<Rightarrow> jstr + json" where
  "read_json r = (case rs_json r of None \<Rightarrow> Inl not_json | Some j \<Rightarrow> Inr j)"

text \<open>Reading a property: undefined (None) when absent, a TypeError on null.\<close>

definition read_member :: "string \<Rightarrow> json \<Rightarrow> jstr + json option" where
  "read_member k j =
     (case j of
        JNull \<Rightarrow> Inl (js ''TypeError'')
      | JObj kvs \<Rightarrow> Inr (map_of kvs (js k))
      | _ \<Rightarrow> Inr None)"

definition ok_json :: "(response \<Rightarrow> jstr) \<Rightarrow> response \<Rightarrow> jstr + json" where
  "ok_json err r = (if \<not> rs_ok r then Inl (err r) else read_json r)"

definition ok_member :: "(response \<Rightarrow> jstr) \<Rightarrow> string \<Rightarrow> response \<Rightarrow> jstr + json option" where
  "ok_member err k r =
     (case ok_json err r of Inl e \<Rightarrow> Inl e | Inr j \<Rightarrow> read_member k j)"

definition ok_unit :: "(response \<Rightarrow> jstr) \<Rightarrow> response \<Rightarrow> jstr + unit" where
  "ok_unit err r = (if \<not> rs_ok r then Inl (err r) else Inr ())"

text \<open>A reply of status 204 stands for "there is none".\<close>

definition json_or_none :: "(response \<Rightarrow> jstr) \<Rightarrow> response \<Rightarrow> jstr + json option" where
  "json_or_none err r =
     (if rs_status r = 204 then Inr None
      else case ok_json err r of Inl e \<Rightarrow> Inl e | Inr j \<Rightarrow> Inr (Some j))"

subsection \<open>encodeURIComponent\<close>

text \<open>
  The unreserved code units stay; the others become the percent-encoded octets of the
  code point's UTF-8 form; a lone surrogate makes it throw.
\<close>

definition unreserved :: "nat \<Rightarrow> bool" where
  "unreserved c \<longleftrightarrow> (48 \<le> c \<and> c \<le> 57) \<or> (65 \<le> c \<and> c \<le> 90) \<or> (97 \<le> c \<and> c \<le> 122)
     \<or> c = 45 \<or> c = 95 \<or> c = 46 \<or> c = 33 \<or> c = 126 \<or> c = 42 \<or> c = 39 \<or> c = 40 \<or> c = 41"

definition hex_digit :: "nat \<Rightarrow> nat" where
  "hex_digit d = (if d < 10 then 48 + d else 55 + d)"

definition percent :: "nat \<Rightarrow> jstr" where
  "percent b = [37, hex_digit (b div 16), hex_digit (b mod 16)]"

definition utf8 :: "nat \<Rightarrow> nat list" where
  "utf8 c =
     (if c < 128 then [c]
      else if c < 2048 then [192 + c div 64, 128 + c mod 64]
      else if c < 65536 then [224 + c div 4096, 128 + c div 64 mod 64, 128 + c mod 64]
      else [240 + c div 262144, 128 + c div 4096 mod 64, 128 + c div 64 mod 64, 128 + c mod 64])"

definition encode_point :: "nat \<Rightarrow> jstr" where
  "encode_point c = (if unreserved c then [c] else concat (map percent (utf8 c)))"

definition is_high :: "nat \<Rightarrow> bool" where "is_high c \<longleftrightarrow> 55296 \<le> c \<and> c \<le> 56319"
definition is_low :: "nat \<Rightarrow> bool" where "is_low c \<longleftrightarrow> 56320 \<le> c \<and> c \<le> 57343"

fun encodeURIComponent :: "jstr \<Rightarrow> jstr option" where
  "encodeURIComponent [] = Some []"
| "encodeURIComponent [c] = (if is_high c \<or> is_low c then None else Some (encode_point c))"
| "encodeURIComponent (c # d # s) =
     (if is_low c then None
      else if is_high c then
        (if is_low d then
           map_option ((@) (encode_point ((c - 55296) * 1024 + (d - 56320) + 65536))) (encodeURIComponent s)
         else None)
      else map_option ((@) (encode_point c)) (encodeURIComponent (d # s)))"

text \<open>A call whose path contains an encoded argument throws before it sends anything.\<close>

definition with_segment ::
    "jstr \<Rightarrow> (jstr \<Rightarrow> 's \<Rightarrow> (jstr + 'a) \<times> 's) \<Rightarrow> 's \<Rightarrow> (jstr + 'a) \<times> 's" where
  "with_segment arg f s =
     (case encodeURIComponent arg of None \<Rightarrow> (Inl (js ''URI malformed''), s) | Some seg \<Rightarrow> f seg s)"

subsection \<open>Weeks and dinners\<close>

definition setDinnerRating :: "'s server \<Rightarrow> int \<Rightarrow> DinnerRating \<Rightarrow> jstr \<Rightarrow> 's \<Rightarrow> (jstr + unit) \<times> 's" where
  "setDinnerRating srv dinnerID r notes =
     call srv (with_json PUT (js ''/api/dinners/id/'' @ dec_int dinnerID @ js ''/rating'')
         (JObj [(js ''rating'', JStr (rating_str r)), (js ''notes'', JStr notes)]))
       (ok_unit (status_text_error ''set rating''))"

definition clearDinnerRating :: "'s server \<Rightarrow> int \<Rightarrow> 's \<Rightarrow> (jstr + unit) \<times> 's" where
  "clearDinnerRating srv dinnerID =
     call srv (plain DELETE (js ''/api/dinners/id/'' @ dec_int dinnerID @ js ''/rating''))
       (ok_unit (status_error ''clear rating''))"

definition setWeekRetrospective :: "'s server \<Rightarrow> int \<Rightarrow> jstr \<Rightarrow> 's \<Rightarrow> (jstr + unit) \<times> 's" where
  "setWeekRetrospective srv weekID notesMD =
     call srv (with_json PUT (js ''/api/weeks/id/'' @ dec_int weekID @ js ''/retrospective'')
         (JObj [(js ''notes_md'', JStr notesMD)]))
       (ok_unit (status_text_error ''set retrospective''))"

definition listWeeks :: "'s server \<Rightarrow> 's \<Rightarrow> (jstr + json option) \<times> 's" where
  "listWeeks srv = call srv (plain GET (js ''/api/weeks'')) (ok_member (status_error ''list weeks'') ''weeks'')"

definition getCurrentWeek :: "'s server \<Rightarrow> 's \<Rightarrow> (jstr + json option) \<times> 's" where
  "getCurrentWeek srv =
     call srv (plain GET (js ''/api/weeks/current'')) (json_or_none (status_error ''current week''))"

definition createWeek :: "'s server \<Rightarrow> WeekCreate \<Rightarrow> 's \<Rightarrow> (jstr + json) \<times> 's" where
  "createWeek srv input =
     call srv (with_json POST (js ''/api/weeks'')
         (JObj [(js ''start_date'', JStr (wc_start_date input)), (js ''end_date'', JStr (wc_end_date input)),
                (js ''notes_md'', JStr (wc_notes_md input))]))
       (ok_json (status_text_error ''create week''))"

definition getWeek :: "'s server \<Rightarrow> jstr \<Rightarrow> 's \<Rightarrow> (jstr + json) \<times> 's" where
  "getWeek srv week =
     with_segment week (\<lambda>seg. call srv (plain GET (js ''/api/weeks/'' @ seg))
       (ok_json (status_error ''get week'')))"

definition getWeekById :: "'s server \<Rightarrow> int \<Rightarrow> 's \<Rightarrow> (jstr + json) \<times> 's" where
  "getWeekById srv i =
     call srv (plain GET (js ''/api/weeks/id/'' @ dec_int i)) (ok_json (status_error ''get week''))"

definition MUTATING_TOOLS :: "jstr list" where
  "MUTATING_TOOLS =
     [js ''create_week'', js ''update_week'', js ''add_dinner'', js ''update_dinner'',
      js ''delete_dinner'', js ''add_exception'', js ''record_retrospective'',
      js ''update_preference'', js ''update_household_settings'']"

definition cloneWeek :: "'s server \<Rightarrow> int \<Rightarrow> jstr option \<Rightarrow> 's \<Rightarrow> (jstr + json) \<times> 's" where
  "cloneWeek srv sourceID start =
     (let path = js ''/api/weeks/id/'' @ dec_int sourceID @ js ''/clone'';
          rq = (case start of
                  Some d \<Rightarrow> if truthy d then with_json POST path (JObj [(js ''start_date'', JStr d)])
                            else plain POST path
                | None \<Rightarrow> plain POST path)
      in call srv rq (ok_json (status_text_error ''clone week'')))"

definition deleteWeek :: "'s server \<Rightarrow> int \<Rightarrow> 's \<Rightarrow> (jstr + unit) \<times> 's" where
  "deleteWeek srv i =
     call srv (plain DELETE (js ''/api/weeks/id/'' @ dec_int i))
       (\<lambda>r. if \<not> rs_ok r \<and> rs_status r \<noteq> 404 then Inl (status_text_error ''delete week'' r) else Inr ())"

text \<open>The JSON of a patch has the keys that are present, in the order given.\<close>

definition patch_field :: "string \<Rightarrow> ('a \<Rightarrow> json) \<Rightarrow> 'a option \<Rightarrow> (jstr \<times> json) list" where
  "patch_field k f v = (case v of None \<Rightarrow> [] | Some x \<Rightarrow> [(js k, f x)])"

definition json_nullable :: "jstr option \<Rightarrow> json" where
  "json_nullable v = (case v of None \<Rightarrow> JNull | Some s \<Rightarrow> JStr s)"

definition week_patch_json :: "WeekPatch \<Rightarrow> json" where
  "week_patch_json p = JObj
     (patch_field ''iso_week'' JStr (p_iso_week p) @ patch_field ''start_date'' JStr (p_start_date p)
      @ patch_field ''end_date'' JStr (p_end_date p)
      @ patch_field ''delivery_date'' json_nullable (p_delivery_date p)
      @ patch_field ''order_date'' json_nullable (p_order_date p)
      @ patch_field ''status'' (\<lambda>st. JStr (status_str st)) (p_status p)
      @ patch_field ''notes_md'' JStr (p_notes_md p))"

definition patchWeek :: "'s server \<Rightarrow> int \<Rightarrow> WeekPatch \<Rightarrow> 's \<Rightarrow> (jstr + json) \<times> 's" where
  "patchWeek srv i p =
     call srv (with_json PATCH (js ''/api/weeks/id/'' @ dec_int i) (week_patch_json p))
       (ok_json (status_text_error ''patch week''))"

subsection \<open>Settings, providers, preferences\<close>

definition json_int :: "int \<Rightarrow> json" where
  "json_int i = JNum (of_int i)"

record SettingsPatch =
  sp_default_dinners :: "int option"
  sp_default_servings :: "int option"
  sp_language :: "Lang option"
  sp_llm_provider :: "jstr option"
  sp_notes_md :: "jstr option"

definition settings_patch_json :: "SettingsPatch \<Rightarrow> json" where
  "settings_patch_json p = JObj
     (patch_field ''default_dinners'' json_int (sp_default_dinners p)
      @ patch_field ''default_servings'' json_int (sp_default_servings p)
      @ patch_field ''language'' (\<lambda>l. JStr (lang_str l)) (sp_language p)
      @ patch_field ''llm_provider'' JStr (sp_llm_provider p)
      @ patch_field ''notes_md'' JStr (sp_notes_md p))"

definition getSettings :: "'s server \<Rightarrow> 's \<Rightarrow> (jstr + json) \<times> 's" where
  "getSettings srv = call srv (plain GET (js ''/api/settings'')) (ok_json (status_error ''get settings''))"

definition patchSettings :: "'s server \<Rightarrow> SettingsPatch \<Rightarrow> 's \<Rightarrow> (jstr + json) \<times> 's" where
  "patchSettings srv p =
     call srv (with_json PATCH (js ''/api/settings'') (settings_patch_json p))
       (ok_json (status_text_error ''patch settings''))"

definition listProviders :: "'s server \<Rightarrow> 's \<Rightarrow> (jstr + json) \<times> 's" where
  "listProviders srv = call srv (plain GET (js ''/api/providers'')) (ok_json (status_error ''list providers''))"

definition json_strings :: "(jstr \<times> jstr) list \<Rightarrow> json" where
  "json_strings c = JObj (map (\<lambda>(k, v). (k, JStr v)) c)"

definition patchProvider ::
    "'s server \<Rightarrow> jstr \<Rightarrow> bool option \<Rightarrow> (jstr \<times> jstr) list option \<Rightarrow> 's \<Rightarrow> (jstr + json) \<times> 's" where
  "patchProvider srv kind enabled config =
     with_segment kind (\<lambda>seg. call srv (with_json PATCH (js ''/api/providers/'' @ seg)
         (JObj (patch_field ''enabled'' JBool enabled @ patch_field ''config'' json_strings config)))
       (ok_json (status_text_error ''patch provider'')))"

definition testProvider :: "'s server \<Rightarrow> 's \<Rightarrow> (jstr + json) \<times> 's" where
  "testProvider srv =
     call srv (plain POST (js ''/api/providers/test'')) (ok_json (status_error ''test provider''))"

definition listPreferences :: "'s server \<Rightarrow> 's \<Rightarrow> (jstr + json option) \<times> 's" where
  "listPreferences srv =
     call srv (plain GET (js ''/api/preferences'')) (ok_member (status_error ''list preferences'') ''preferences'')"

definition savePreference :: "'s server \<Rightarrow> jstr \<Rightarrow> jstr \<Rightarrow> 's \<Rightarrow> (jstr + json) \<times> 's" where
  "savePreference srv cat bodyMD =
     with_segment cat (\<lambda>seg. call srv (with_json PUT (js ''/api/preferences/'' @ seg)
         (JObj [(js ''body_md'', JStr bodyMD)]))
       (ok_json (status_text_error ''save preference'')))"

definition deletePreference :: "'s server \<Rightarrow> jstr \<Rightarrow> 's \<Rightarrow> (jstr + unit) \<times> 's" where
  "deletePreference srv cat =
     with_segment cat (\<lambda>seg. call srv (plain DELETE (js ''/api/preferences/'' @ seg))
       (ok_unit (status_error ''delete preference'')))"

subsection \<open>Conversations, usage, version\<close>

definition listConversations :: "'s server \<Rightarrow> 's \<Rightarrow> (jstr + json option) \<times> 's" where
  "listConversations srv =
     call srv (plain GET (js ''/api/conversations''))
       (ok_member (status_error ''list conversations'') ''conversations'')"

definition getConversation :: "'s server \<Rightarrow> int \<Rightarrow> 's \<Rightarrow> (jstr + json) \<times> 's" where
  "getConversation srv i =
     call srv (plain GET (js ''/api/conversations/'' @ dec_int i))
       (ok_json (status_error ''get conversation''))"

definition getWeekConversation :: "'s server \<Rightarrow> int \<Rightarrow> 's \<Rightarrow> (jstr + json option) \<times> 's" where
  "getWeekConversation srv weekID =
     call srv (plain GET (js ''/api/weeks/id/'' @ dec_int weekID @ js ''/conversation''))
       (json_or_none (status_error ''get week conversation''))"

definition deleteWeekConversations :: "'s server \<Rightarrow> int \<Rightarrow> 's \<Rightarrow> (jstr + unit) \<times> 's" where
  "deleteWeekConversations srv weekID =
     call srv (plain DELETE (js ''/api/weeks/id/'' @ dec_int weekID @ js ''/conversations''))
       (ok_unit (status_error ''delete week conversations''))"

definition getUsageSummary :: "'s server \<Rightarrow> 's \<Rightarrow> (jstr + json) \<times> 's" where
  "getUsageSummary srv =
     call srv (plain GET (js ''/api/usage/summary'')) (ok_json (status_error ''usage summary''))"

definition getVersion :: "'s server \<Rightarrow> 's \<Rightarrow> (jstr + json) \<times> 's" where
  "getVersion srv = call srv (plain GET (js ''/api/version'')) (ok_json (status_error ''version''))"

subsection \<open>Updates, set-up, backups\<close>

definition getUpdates :: "'s server \<Rightarrow> 's \<Rightarrow> (jstr + json) \<times> 's" where
  "getUpdates srv = call srv (plain GET (js ''/api/updates'')) (ok_json (status_error ''updates''))"

definition checkUpdates :: "'s server \<Rightarrow> 's \<Rightarrow> (jstr + json) \<times> 's" where
  "checkUpdates srv =
     call srv (plain POST (js ''/api/updates/check'')) (ok_json (status_error ''updates/check''))"

definition applyUpdate :: "'s server \<Rightarrow> 's \<Rightarrow> (jstr + unit) \<times> 's" where
  "applyUpdate srv =
     call srv (plain POST (js ''/api/updates/apply''))
       (\<lambda>r. if \<not> rs_ok r \<and> rs_status r \<noteq> 202 then Inl (rs_text r) else Inr ())"

definition getUpdateConfig :: "'s server \<Rightarrow> 's \<Rightarrow> (jstr + json) \<times> 's" where
  "getUpdateConfig srv =
     call srv (plain GET (js ''/api/update-config'')) (ok_json (status_error ''update-config''))"

definition patchUpdateConfig :: "'s server \<Rightarrow> bool \<Rightarrow> 's \<Rightarrow> (jstr + json) \<times> 's" where
  "patchUpdateConfig srv enabled =
     call srv (with_json PATCH (js ''/api/update-config'')
         (JObj [(js ''auto_update_enabled'', JBool enabled)]))
       (ok_json rs_text)"

definition getSetupStatus :: "'s server \<Rightarrow> 's \<Rightarrow> (jstr + json) \<times> 's" where
  "getSetupStatus srv =
     call srv (plain GET (js ''/api/setup-status'')) (ok_json (status_error ''setup-status''))"

definition seedPreferences :: "'s server \<Rightarrow> 's \<Rightarrow> (jstr + json) \<times> 's" where
  "seedPreferences srv = call srv (plain POST (js ''/api/preferences/seed'')) (ok_json rs_text)"

definition listBackups :: "'s server \<Rightarrow> 's \<Rightarrow> (jstr + json option) \<times> 's" where
  "listBackups srv =
     call srv (plain GET (js ''/api/backups'')) (ok_member (status_error ''backups'') ''backups'')"

definition takeBackup :: "'s server \<Rightarrow> 's \<Rightarrow> (jstr + json) \<times> 's" where
  "takeBackup srv = call srv (plain POST (js ''/api/backups'')) (ok_json rs_text)"

definition deleteBackup :: "'s server \<Rightarrow> jstr \<Rightarrow> 's \<Rightarrow> (jstr + unit) \<times> 's" where
  "deleteBackup srv file =
     with_segment file (\<lambda>seg. call srv (plain DELETE (js ''/api/backups/'' @ seg)) (ok_unit rs_text))"

definition backupDownloadURL :: "jstr \<Rightarrow> jstr option" where
  "backupDownloadURL file =
     map_option (\<lambda>seg. js ''/api/backups/'' @ seg @ js ''/download'') (encodeURIComponent file)"

definition getBackupConfig :: "'s server \<Rightarrow> 's \<Rightarrow> (jstr + json) \<times> 's" where
  "getBackupConfig srv =
     call srv (plain GET (js ''/api/backup-config'')) (ok_json (status_error ''backup-config''))"

definition patchBackupConfig :: "'s server \<Rightarrow> bool option \<Rightarrow> int option \<Rightarrow> 's \<Rightarrow> (jstr + json) \<times> 's" where
  "patchBackupConfig srv nightly keep =
     call srv (with_json PATCH (js ''/api/backup-config'')
         (JObj (patch_field ''nightly_enabled'' JBool nightly @ patch_field ''nightly_keep'' json_int keep)))
       (ok_json rs_text)"

subsection \<open>An encoded argument is one path segment\<close>

definition segment_char :: "nat \<Rightarrow> bool" where
  "segment_char c \<longleftrightarrow> unreserved c \<or> c = 37"

lemma hex_unreserved: "d < 16 \<Longrightarrow> unreserved (hex_digit d)"
  by (auto simp: unreserved_def hex_digit_def)

lemma percent_segment: "b < 256 \<Longrightarrow> list_all segment_char (percent b)"
  by (simp add: percent_def segment_char_def hex_unreserved)

lemma utf8_octets: "c < 1114112 \<Longrightarrow> list_all (\<lambda>b. b < 256) (utf8 c)"
proof -
  assume "c < 1114112"
  then have "c div 262144 \<le> 4" by simp
  moreover have "c < 65536 \<Longrightarrow> c div 4096 < 16" "c < 2048 \<Longrightarrow> c div 64 < 32" by simp_all
  moreover have "x mod 64 < 64" for x :: nat by simp
  ultimately show ?thesis
    by (auto simp: utf8_def intro: less_le_trans [of _ "64::nat"] add_less_mono)
qed

lemma encode_point_segment: "c < 1114112 \<Longrightarrow> list_all segment_char (encode_point c)"
  using utf8_octets [of c] percent_segment
  by (auto simp: encode_point_def segment_char_def [of c] list_all_iff)

definition code_units :: "jstr \<Rightarrow> bool" where
  "code_units s \<longleftrightarrow> list_all (\<lambda>c. c < 65536) s"

lemma encode_segment:
  "encodeURIComponent s = Some r \<Longrightarrow> code_units s \<Longrightarrow> list_all segment_char r"
proof (induction s arbitrary: r rule: encodeURIComponent.induct)
  case (3 c d s)
  show ?case
  proof (cases "is_high c")
    case True
    then have "(c - 55296) * 1024 + (d - 56320) + 65536 < 1114112" if "is_low d"
      using that by (auto simp: is_high_def is_low_def)
    with True 3 show ?thesis
      by (auto simp: code_units_def encode_point_segment split: if_splits)
  next
    case False
    with 3 show ?thesis by (auto simp: code_units_def encode_point_segment split: if_splits)
  qed
qed (auto simp: code_units_def encode_point_segment split: if_splits)

text \<open>Decoding gives the argument back, so two arguments never share a URL.\<close>

definition unhex :: "nat \<Rightarrow> nat" where
  "unhex c = (if c < 58 then c - 48 else c - 55)"

fun decode_ascii :: "jstr \<Rightarrow> jstr" where
  "decode_ascii (p # a # b # s) =
     (if p = 37 then (16 * unhex a + unhex b) # decode_ascii s else p # decode_ascii (a # b # s))"
| "decode_ascii (p # s) = p # decode_ascii s"
| "decode_ascii [] = []"

lemma decode_unreserved: "unreserved c \<Longrightarrow> decode_ascii (c # s) = c # decode_ascii s"
  by (cases s rule: list.exhaust; cases "tl s") (auto simp: unreserved_def)

lemma unhex_hex: "d < 16 \<Longrightarrow> unhex (hex_digit d) = d"
  by (simp add: unhex_def hex_digit_def)

lemma decode_point: "c < 128 \<Longrightarrow> decode_ascii (encode_point c @ s) = c # decode_ascii s"
  by (simp add: encode_point_def utf8_def percent_def decode_unreserved unhex_hex)

lemma decode_encode:
  "encodeURIComponent s = Some r \<Longrightarrow> list_all (\<lambda>c. c < 128) s \<Longrightarrow> decode_ascii r = s"
proof (induction s arbitrary: r rule: encodeURIComponent.induct)
  case (2 c)
  then show ?case using decode_point [of c "[]"] by (auto split: if_splits)
next
  case (3 c d s)
  then have "\<not> is_high c" "\<not> is_low c" by (auto simp: is_high_def is_low_def)
  with 3 show ?case by (auto simp: decode_point)
qed simp

lemma encode_ascii_total: "list_all (\<lambda>c. c < 128) s \<Longrightarrow> \<exists>r. encodeURIComponent s = Some r"
  by (induction s rule: encodeURIComponent.induct) (auto simp: is_high_def is_low_def)

subsection \<open>Properties\<close>

text \<open>
  A file name in the download link of a backup stays one segment of the path: whatever its
  code units, the link is the fixed path with one segment that has no slash, question mark or
  other delimiter, and decoding the segment of an ASCII name gives the name back.
\<close>

theorem download_link:
  assumes "backupDownloadURL file = Some u" and "code_units file"
  shows "\<exists>seg. split_on c_slash u = [[], js ''api'', js ''backups'', seg, js ''download''] \<and>
    list_all segment_char seg \<and> (list_all (\<lambda>c. c < 128) file \<longrightarrow> decode_ascii seg = file)"
proof -
  from assms(1) obtain seg where seg: "encodeURIComponent file = Some seg"
    and u: "u = [] @ c_slash # js ''api'' @ c_slash # js ''backups'' @ c_slash # seg @ c_slash # js ''download''"
    by (auto simp: backupDownloadURL_def js_Cons)
  have sc: "list_all segment_char seg" by (rule encode_segment [OF seg assms(2)])
  then have "c_slash \<notin> set seg" by (auto simp: list_all_iff segment_char_def unreserved_def)
  moreover have "c_slash \<notin> set (js ''api'')" "c_slash \<notin> set (js ''backups'')" "c_slash \<notin> set (js ''download'')"
    by (simp_all add: js_Cons)
  ultimately have "split_on c_slash u = [[], js ''api'', js ''backups'', seg, js ''download'']"
    unfolding u by (simp add: split_on_append_sep split_on_no_sep)
  with sc decode_encode [OF seg] show ?thesis by blast
qed

theorem download_link_witness:
  "\<exists>u. backupDownloadURL [97, 47, 98] = Some u \<and> length (split_on c_slash u) = 5"
proof -
  have "encodeURIComponent [97, 47, 98] = Some [97, 37, 50, 70, 98]"
    by (simp add: is_high_def is_low_def encode_point_def unreserved_def utf8_def percent_def hex_digit_def)
  then have "\<exists>u. backupDownloadURL [97, 47, 98] = Some u" by (simp add: backupDownloadURL_def)
  moreover have "code_units [97, 47, 98]" by (simp add: code_units_def)
  ultimately show ?thesis using download_link by fastforce
qed

text \<open>A server that answers every request alike, and one that cannot be reached.\<close>

definition replying :: "response \<Rightarrow> 's server" where
  "replying r rq s = (Inr r, s)"

definition unreachable :: "jstr \<Rightarrow> 's server" where
  "unreachable e rq s = (Inl e, s)"

text \<open>
  A refused request is never taken for data: for every status outside of 200 to 299 the calls
  of the week pages throw an error that names the call and the status (and the reply's text
  where the code adds it), with the one exception that deleting a week that is gone succeeds.
  A server that cannot be reached makes them throw the error of \<open>fetch\<close>.
\<close>

theorem refused_calls_throw:
  assumes "\<not> rs_ok r"
  shows "fst (listWeeks (replying r) s) = Inl (status_error ''list weeks'' r) \<and>
    fst (getCurrentWeek (replying r) s) = Inl (status_error ''current week'' r) \<and>
    fst (getWeekById (replying r) i s) = Inl (status_error ''get week'' r) \<and>
    fst (createWeek (replying r) wc s) = Inl (status_text_error ''create week'' r) \<and>
    fst (cloneWeek (replying r) i start s) = Inl (status_text_error ''clone week'' r) \<and>
    fst (patchWeek (replying r) i patch s) = Inl (status_text_error ''patch week'' r) \<and>
    fst (deleteWeek (replying r) i s) =
      (if rs_status r = 404 then Inr () else Inl (status_text_error ''delete week'' r)) \<and>
    fst (setDinnerRating (replying r) i rt notes s) = Inl (status_text_error ''set rating'' r) \<and>
    fst (clearDinnerRating (replying r) i s) = Inl (status_error ''clear rating'' r) \<and>
    fst (setWeekRetrospective (replying r) i notes s) = Inl (status_text_error ''set retrospective'' r) \<and>
    fst (getWeekConversation (replying r) i s) = Inl (status_error ''get week conversation'' r) \<and>
    fst (deleteWeekConversations (replying r) i s) = Inl (status_error ''delete week conversations'' r) \<and>
    fst (patchWeek (unreachable e) i patch s) = Inl e \<and> fst (getCurrentWeek (unreachable e) s) = Inl e"
proof -
  have "rs_status r \<noteq> 204" using assms by (auto simp: rs_ok_def)
  then show ?thesis using assms
    by (simp add: listWeeks_def getCurrentWeek_def getWeekById_def createWeek_def cloneWeek_def patchWeek_def
        deleteWeek_def setDinnerRating_def clearDinnerRating_def setWeekRetrospective_def
        getWeekConversation_def deleteWeekConversations_def call_def replying_def unreachable_def
        json_or_none_def ok_member_def ok_json_def ok_unit_def Let_def)
qed

theorem refused_calls_throw_witness:
  "fst (patchWeek (replying \<lparr>rs_status = 409, rs_text = js ''locked'', rs_json = None\<rparr>) 7 empty_patch ()) =
     Inl (js ''patch week: 409 locked'')"
proof -
  let ?r = "\<lparr>rs_status = 409, rs_text = js ''locked'', rs_json = None\<rparr>"
  have "\<not> rs_ok ?r" by (simp add: rs_ok_def)
  then have "fst (patchWeek (replying ?r) 7 empty_patch ()) = Inl (status_text_error ''patch week'' ?r)"
    by (rule refused_calls_throw [THEN conjunct2, THEN conjunct2, THEN conjunct2, THEN conjunct2,
        THEN conjunct2, THEN conjunct1])
  then show ?thesis by (simp add: status_text_error_def status_error_def dec_int_def dec.simps js_Cons)
qed

end
