(* ===== verification/DictEn.thy ===== *)
theory DictEn
  imports JsPrelude
begin

text \<open>
  The English dictionary, web/src/i18n/en.ts, one definition per group of keys in the
  order of the file. Characters outside printable ASCII, quotes and backslashes are
  written as code units.
\<close>

type_synonym dictionary = "(jstr \<times> jstr) list"

definition en_home :: "(jstr \<times> jstr) list" where
  "en_home =
    [(js ''home.title'', js ''Veckomenyn''),
     (js ''home.subtitle'', js ''Plan a week, build the cart, order, retrospect.''),
     (js ''home.plan_new'', js ''Plan a new week''),
     (js ''home.plan_first'', js ''Plan your first week''),
     (js ''home.your_weeks'', js ''Your weeks''),
     (js ''home.empty_title'', js ''Welcome.''),
     (js ''home.empty_body'', js ''This is where the family'' @ [39] @ js ''s weeks live. The agent helps you plan dinners, builds the grocery cart, and learns from each week'' @ [39] @ js ''s feedback.''),
     (js ''home.loop_step_plan'', js ''Plan dinners for the week.''),
     (js ''home.loop_step_cart'', js ''Let the agent build the Willys cart.''),
     (js ''home.loop_step_order'', js ''Place the order on willys.se.''),
     (js ''home.loop_step_retro'', js ''Record a retrospective so next week is better.'')]"

definition en_top_bar :: "(jstr \<times> jstr) list" where
  "en_top_bar =
    [(js ''topbar.brand_home'', js ''Home''),
     (js ''topbar.working'', js ''agent working''),
     (js ''topbar.stop'', js ''Stop''),
     (js ''topbar.refresh'', js ''Refresh''),
     (js ''topbar.settings'', js ''Settings''),
     (js ''topbar.open_chat'', js ''Ask agent''),
     (js ''topbar.close_chat'', js ''Close chat'')]"

definition en_plan_new_form :: "(jstr \<times> jstr) list" where
  "en_plan_new_form =
    [(js ''plan.title'', js ''Plan a week''),
     (js ''plan.subtitle'', js ''Pick the first day of the menu and how many dinners you want.''),
     (js ''plan.start_date'', js ''Start date''),
     (js ''plan.menu_runs_through'', js ''Menu runs through '' @ hole ''end''),
     (js ''plan.num_dinners'', js ''Number of dinners''),
     (js ''plan.notes'', js ''Notes (optional)''),
     (js ''plan.notes_hint'', js ''Kids away, fika bake, anything we should know.''),
     (js ''plan.notes_placeholder'', js ''Noah away Thu'' @ [8211] @ js ''Sun. Extra bake for work fika Friday.''),
     (js ''plan.submit'', js ''Plan the week''),
     (js ''plan.submitting'', js ''Planning'' @ [8230]),
     (js ''plan.cancel'', js ''Cancel'')]"

definition en_week_view :: "(jstr \<times> jstr) list" where
  "en_week_view =
    [(js ''week.add_dinner'', js ''Add dinner''),
     (js ''week.regenerate'', js ''Suggest new menu''),
     (js ''week.print'', js ''Print''),
     (js ''week.notes_label'', js ''notes''),
     (js ''week.notes_placeholder'', js ''Week notes (kids away, extra bake'' @ [8230] @ js '')''),
     (js ''print.preview_hint'', js ''Preview. Use the button or Cmd/Ctrl+P to print.''),
     (js ''print.print_button'', js ''Print''),
     (js ''print.overview'', js ''Overview''),
     (js ''print.day'', js ''Day''),
     (js ''print.dinner'', js ''Dinner''),
     (js ''print.pers'', js ''Pers''),
     (js ''print.source'', js ''Source''),
     (js ''week.no_dinners'', js ''No dinners planned yet.''),
     (js ''week.plan_dinners'', js ''Plan dinners''),
     (js ''week.this_week'', js ''This week''),
     (js ''week.retrospective'', js ''Retrospective''),
     (js ''week.set_label'', js ''set '' @ hole ''label''),
     (js ''week.edit_label'', js ''Edit '' @ hole ''label''),
     (js ''week.clone_next'', js ''Plan next week from this one''),
     (js ''week.truncate_confirm'', js ''Shortening the plan will drop '' @ hole ''count'' @ js '' dinner(s) past the new end date. Continue?''),
     (js ''week.unlock_confirm'', js ''This will move the week back to '' @ [39] @ hole ''target'' @ [39] @ js '' so the menu becomes editable again. Cart contents and ratings stay. Continue?''),
     (js ''week.locked_hint'', js ''Menu locked while '' @ hole ''status'' @ js ''. Change status below to reopen editing.''),
     (js ''week.add_dinner_prompt'', js ''Add another dinner to the week running '' @ hole ''start'' @ js '' through '' @ hole ''end'' @ js ''.''),
     (js ''week.regenerate_prompt'', js ''Regenerate the meal plan for the week running '' @ hole ''start'' @ js '' through '' @ hole ''end'' @ js ''. Replace each dinner with a fresh option, keeping the same constraints.''),
     (js ''week.plan_dinners_prompt'', js ''Plan dinners for the week running '' @ hole ''start'' @ js '' through '' @ hole ''end'' @ js ''.'')]"

definition en_dinner_card :: "(jstr \<times> jstr) list" where
  "en_dinner_card =
    [(js ''dinner.adjust'', js ''Adjust''),
     (js ''dinner.adjust_placeholder'', js ''Swap for something different, less spicy, use pork instead, add potatoes as a side'' @ [8230]),
     (js ''dinner.adjust_hint'', [8984] @ js ''/Ctrl+Enter to send''),
     (js ''dinner.adjust_send'', js ''Send''),
     (js ''dinner.adjust_cancel'', js ''Cancel''),
     (js ''dinner.adjust_prompt'', js ''For the dinner on '' @ hole ''date'' @ js '' (dinner_id '' @ hole ''id'' @ js '', '' @ [39] @ hole ''name'' @ [39] @ js ''): '' @ hole ''request'' @ js ''. Use update_dinner to apply the change. A small tweak should preserve the dish; a swap means a new dish entirely.''),
     (js ''dinner.recipe'', js ''Recipe''),
     (js ''dinner.servings'', js ''pers''),
     (js ''dinner.untitled'', js ''(untitled)'')]"

definition en_editable_placeholders :: "(jstr \<times> jstr) list" where
  "en_editable_placeholders =
    [(js ''editable.add_label'', js ''Add '' @ hole ''label'')]"

definition en_status_labels :: "(jstr \<times> jstr) list" where
  "en_status_labels =
    [(js ''status.draft'', js ''draft''),
     (js ''status.cart_built'', js ''ready to order''),
     (js ''status.ordered'', js ''ordered'')]"

definition en_settings_modal :: "(jstr \<times> jstr) list" where
  "en_settings_modal =
    [(js ''settings.title'', js ''Household defaults''),
     (js ''settings.language'', js ''Language''),
     (js ''settings.language_sv'', js ''Svenska''),
     (js ''settings.language_en'', js ''English''),
     (js ''settings.delivery_weekday'', js ''Delivery weekday''),
     (js ''settings.delivery_weekday_hint'', js ''Which day groceries usually arrive.''),
     (js ''settings.order_offset'', js ''Order offset (days)''),
     (js ''settings.order_offset_hint'', js ''Negative means you order before delivery. -1 = day before, 0 = same day.''),
     (js ''settings.num_dinners'', js ''Number of dinners''),
     (js ''settings.num_dinners_hint'', js ''Default length of a menu.''),
     (js ''settings.default_servings'', js ''Default servings''),
     (js ''settings.default_servings_hint'', js ''People eating per dinner.''),
     (js ''settings.notes'', js ''Notes''),
     (js ''settings.save'', js ''Save''),
     (js ''settings.saving'', js ''Saving'' @ [8230]),
     (js ''settings.loading'', js ''Loading'' @ [8230]),
     (js ''settings.close'', js ''Close''),
     (js ''settings.theme'', js ''Theme''),
     (js ''settings.theme_system'', js ''System''),
     (js ''settings.theme_light'', js ''Light''),
     (js ''settings.theme_dark'', js ''Dark''),
     (js ''topbar.theme'', js ''Theme'')]"

definition en_weekdays :: "(jstr \<times> jstr) list" where
  "en_weekdays =
    [(js ''weekday.monday'', js ''Monday''),
     (js ''weekday.tuesday'', js ''Tuesday''),
     (js ''weekday.wednesday'', js ''Wednesday''),
     (js ''weekday.thursday'', js ''Thursday''),
     (js ''weekday.friday'', js ''Friday''),
     (js ''weekday.saturday'', js ''Saturday''),
     (js ''weekday.sunday'', js ''Sunday'')]"

definition en_chat :: "(jstr \<times> jstr) list" where
  "en_chat =
    [(js ''chat.title'', js ''Chat''),
     (js ''chat.placeholder'', js ''Tweak anything'' @ [8230]),
     (js ''chat.send'', js ''Send''),
     (js ''chat.thinking'', js ''thinking'' @ [8230]),
     (js ''chat.deliberating.pondering'', js ''pondering''),
     (js ''chat.deliberating.simmering'', js ''simmering ideas''),
     (js ''chat.deliberating.tasting'', js ''tasting options''),
     (js ''chat.deliberating.chopping'', js ''chopping possibilities''),
     (js ''chat.deliberating.plating'', js ''plating a response''),
     (js ''chat.deliberating.cookbook'', js ''consulting the cookbook''),
     (js ''chat.deliberating.marinating'', js ''marinating thoughts''),
     (js ''chat.deliberating.whisking'', js ''whisking up an answer''),
     (js ''chat.deliberating.browning'', js ''browning the butter''),
     (js ''chat.deliberating.pantry'', js ''raiding the pantry''),
     (js ''chat.deliberating.kneading'', js ''kneading the dough''),
     (js ''chat.deliberating.garnishing'', js ''garnishing the plate''),
     (js ''chat.deliberating.watched_pot'', js ''watching the pot''),
     (js ''chat.cancelled'', js ''Cancelled.''),
     (js ''chat.clear'', js ''Clear''),
     (js ''chat.clear_confirm'', js ''Clear this week'' @ [39] @ js ''s chat history? This can'' @ [39] @ js ''t be undone.''),
     (js ''chat.empty'', js ''Ask anything, e.g. '' @ [34] @ js ''make Tuesday vegetarian'' @ [34] @ js '', '' @ [34] @ js ''Noah didn'' @ [39] @ js ''t like the cilantro'' @ [34] @ js '', '' @ [34] @ js ''regenerate the week'' @ [34] @ js ''. Actions on the menu also run through chat.'')]"

definition en_calendar_popup :: "(jstr \<times> jstr) list" where
  "en_calendar_popup =
    [(js ''calendar.today'', js ''Today''),
     (js ''calendar.clear'', js ''Clear''),
     (js ''calendar.prev_month'', js ''Previous month''),
     (js ''calendar.next_month'', js ''Next month''),
     (js ''topbar.preferences'', js ''Preferences'')]"

definition en_sidebar :: "(jstr \<times> jstr) list" where
  "en_sidebar =
    [(js ''sidebar.history'', js ''Weeks''),
     (js ''sidebar.current'', js ''Current week''),
     (js ''sidebar.empty'', js ''No weeks yet.''),
     (js ''sidebar.dinners_short'', js ''dinners''),
     (js ''sidebar.new_week'', js ''New week''),
     (js ''sidebar.new_week_title'', js ''Plan a new week''),
     (js ''sidebar.duplicate'', js ''Duplicate''),
     (js ''sidebar.delete'', js ''Delete''),
     (js ''sidebar.delete_confirm'', js ''Delete this plan, including its dinners and cart? This can'' @ [39] @ js ''t be undone.'')]"

definition en_duplicate_plan_dialog :: "(jstr \<times> jstr) list" where
  "en_duplicate_plan_dialog =
    [(js ''duplicate.title'', js ''Duplicate plan''),
     (js ''duplicate.source_prefix'', js ''Source:''),
     (js ''duplicate.start_date'', js ''Start date''),
     (js ''duplicate.new_period_prefix'', js ''New period:''),
     (js ''duplicate.confirm'', js ''Duplicate''),
     (js ''duplicate.cancel'', js ''Cancel''),
     (js ''duplicate.close'', js ''Close''),
     (js ''duplicate.submitting'', js ''Duplicating'' @ [8230])]"

definition en_lifecycle :: "(jstr \<times> jstr) list" where
  "en_lifecycle =
    [(js ''lifecycle.current'', js ''Current status''),
     (js ''lifecycle.build_cart'', js ''Build cart''),
     (js ''lifecycle.build_cart_prompt'', js ''Build the Willys cart for the plan running '' @ hole ''start'' @ js '' through '' @ hole ''end'' @ js ''. Follow the cart-building method in the system prompt: start with willys_cart_get and list what'' @ [39] @ js ''s already in the cart so I can confirm; incorporate those items into the plan (don'' @ [39] @ js ''t clear unless I say '' @ [39] @ js ''reset'' @ [39] @ js ''). Aggregate ingredients across ALL dinners (show the list), subtract what'' @ [39] @ js ''s already in the cart, pick one product per missing ingredient, then one willys_cart_add_many with the delta. Verify with willys_cart_get at the end. When you'' @ [39] @ js ''re done, summarise what you added and mark the plan as cart_built.''),
     (js ''lifecycle.mark_cart_built'', js ''Mark cart as built''),
     (js ''lifecycle.mark_ordered'', js ''Mark as ordered''),
     (js ''lifecycle.record_retrospective'', js ''Record retrospective''),
     (js ''lifecycle.open_willys'', js ''Open Willys.se''),
     (js ''lifecycle.set_status'', js ''Change status''),
     (js ''lifecycle.retrospective_prompt'', js ''Record a retrospective for the week running '' @ hole ''start'' @ js '' through '' @ hole ''end'' @ js ''. Per-dinner verdicts are already captured on each card. Ask me about what those don'' @ [39] @ js ''t show: pacing, portion sizes, overall balance, whether the week felt too heavy or lopsided, anything specific to carry into next week'' @ [39] @ js ''s plan. Save it as a week-level retrospective and update preferences when a lesson should stick.'')]"

definition en_cart_section :: "(jstr \<times> jstr) list" where
  "en_cart_section =
    [(js ''cart.title'', js ''Shopping cart''),
     (js ''cart.code'', js ''Code''),
     (js ''cart.product'', js ''Product''),
     (js ''cart.qty'', js ''Qty''),
     (js ''cart.price'', js ''Price''),
     (js ''cart.reason'', js ''Note'')]"

definition en_preferences_modal :: "(jstr \<times> jstr) list" where
  "en_preferences_modal =
    [(js ''prefs.title'', js ''Preferences''),
     (js ''prefs.subtitle'', js ''Cooking principles, family, sourcing, rules. Free-form markdown per category.''),
     (js ''prefs.pick_one'', js ''Pick a category on the left.''),
     (js ''prefs.new_category'', js ''New category''),
     (js ''prefs.delete'', js ''Delete''),
     (js ''prefs.confirm_delete'', js ''Delete the '' @ [39] @ hole ''category'' @ [39] @ js '' category? This cannot be undone.'')]"

definition en_integrations :: "(jstr \<times> jstr) list" where
  "en_integrations =
    [(js ''integrations.title'', js ''Integrations''),
     (js ''integrations.subtitle'', js ''API keys and shopping accounts. Secrets stored in the database; leave a masked field untouched to keep the existing value.''),
     (js ''integrations.enabled'', js ''Enabled''),
     (js ''integrations.category_llm'', js ''LLM provider''),
     (js ''integrations.category_shopping'', js ''Shopping provider''),
     (js ''integrations.secret_set_hint'', js ''Stored. Type a new value to replace it.'')]"

definition en_provider_fields :: "(jstr \<times> jstr) list" where
  "en_provider_fields =
    [(js ''provider.api_key'', js ''API key''),
     (js ''provider.model'', js ''Model''),
     (js ''provider.password'', js ''Password''),
     (js ''provider.anthropic.name'', js ''Anthropic''),
     (js ''provider.anthropic.model_hint'', js ''Sonnet 4.6 is the balanced default. Haiku is ~5x cheaper but weaker at creative meal planning. Opus is ~3-5x more expensive but better with complex preferences.''),
     (js ''provider.anthropic.haiku'', js ''Claude Haiku 4.5 ($1/$5, fastest)''),
     (js ''provider.anthropic.sonnet'', js ''Claude Sonnet 4.6 ($3/$15, balanced)''),
     (js ''provider.anthropic.opus'', js ''Claude Opus 4.7 ($15/$75, best quality)''),
     (js ''provider.openai.name'', js ''OpenAI''),
     (js ''provider.openai.model_hint'', js ''GPT-5.4 is the latest flagship. GPT-5.1 is cheaper with good quality. GPT-4.1 is fastest and cheapest.''),
     (js ''provider.openai_compat.name'', js ''OpenAI-compatible (local/other)''),
     (js ''provider.openai_compat.base_url'', js ''API base URL''),
     (js ''provider.openai_compat.base_url_hint'', js ''Base URL for an OpenAI-compatible API (llama.cpp, Ollama, etc.).''),
     (js ''provider.openai_compat.api_key_hint'', js ''Leave empty for local backends that don'' @ [39] @ js ''t require authentication.''),
     (js ''provider.openai_compat.model_hint'', js ''Model name as the backend expects it.''),
     (js ''provider.willys.username'', js ''Username (YYYYMMDDNNNN)''),
     (js ''provider.test'', js ''Test connection''),
     (js ''provider.testing'', js ''Testing...''),
     (js ''provider.test_unknown_error'', js ''Unknown error'')]"

definition en_preferences_modal_new_body_placeholder :: "(jstr \<times> jstr) list" where
  "en_preferences_modal_new_body_placeholder =
    [(js ''prefs.new_category_placeholder'', js ''e.g. allergies''),
     (js ''prefs.body_placeholder'', js ''# Heading'' @ [10, 10] @ js ''Markdown body'' @ [8230])]"

definition en_print_preview :: "(jstr \<times> jstr) list" where
  "en_print_preview =
    [(js ''print.loading'', js ''Loading'' @ [8230])]"

definition en_chat_drawer_aria_label :: "(jstr \<times> jstr) list" where
  "en_chat_drawer_aria_label =
    [(js ''chat.aria'', js ''Chat'')]"

definition en_toast_notifications :: "(jstr \<times> jstr) list" where
  "en_toast_notifications =
    [(js ''toast.dismiss'', js ''Dismiss''),
     (js ''toast.retry'', js ''Retry''),
     (js ''toast.save_failed'', js ''Save failed''),
     (js ''toast.save_failed_retrying'', js ''Save failed; retrying'' @ [8230]),
     (js ''toast.changes_saved'', js ''Changes saved''),
     (js ''toast.week_deleted'', js ''Week deleted''),
     (js ''toast.network_error'', js ''Network error''),
     (js ''toast.unsaved_changes'', js ''Retrospective hasn'' @ [39] @ js ''t saved yet. Leave anyway?'')]"

definition en_per_dinner_rating :: "(jstr \<times> jstr) list" where
  "en_per_dinner_rating =
    [(js ''rating.how_was_it'', js ''How was it?''),
     (js ''rating.your_verdict'', js ''Verdict:''),
     (js ''rating.loved'', js ''Loved''),
     (js ''rating.liked'', js ''Liked''),
     (js ''rating.meh'', js ''Meh''),
     (js ''rating.disliked'', js ''No''),
     (js ''rating.clear'', js ''Clear''),
     (js ''rating.notes_placeholder'', js ''What did you think? (too salty, kids wouldn'' @ [39] @ js ''t eat it, perfect for lunch next day'' @ [8230] @ js '')'')]"

definition en_week_level_retrospective :: "(jstr \<times> jstr) list" where
  "en_week_level_retrospective =
    [(js ''retro.hint'', js ''Pacing, portion sizes, overall balance. Whatever the per-dinner verdicts don'' @ [39] @ js ''t already capture.''),
     (js ''retro.placeholder'', js ''Heavy on red meat this week, mix in more fish next. The porchetta stretched to three days.'')]"

definition en_usage :: "(jstr \<times> jstr) list" where
  "en_usage =
    [(js ''usage.title'', js ''Usage & cost''),
     (js ''usage.subtitle'', js ''Last 30 days''),
     (js ''usage.close'', js ''Close''),
     (js ''usage.loading'', js ''Loading'' @ [8230]),
     (js ''usage.empty'', js ''No model calls recorded yet.''),
     (js ''usage.total_cost'', js ''Total cost''),
     (js ''usage.total_calls'', js ''Model calls''),
     (js ''usage.total_input'', js ''Input tokens''),
     (js ''usage.total_output'', js ''Output tokens''),
     (js ''usage.total_cache_write'', js ''Cache writes''),
     (js ''usage.total_cache_read'', js ''Cache reads''),
     (js ''usage.cache_hit_rate'', js ''Cache hit rate''),
     (js ''usage.cache_hit_hint'', js ''Share of input tokens served from cache.''),
     (js ''usage.by_model'', js ''By model''),
     (js ''usage.by_week'', js ''By plan''),
     (js ''usage.by_day'', js ''By day''),
     (js ''usage.recent_conversations'', js ''Top conversations''),
     (js ''usage.col.model'', js ''Model''),
     (js ''usage.col.calls'', js ''Calls''),
     (js ''usage.col.cost'', js ''Cost''),
     (js ''usage.col.input'', js ''Input''),
     (js ''usage.col.cache_write'', js ''Cache write''),
     (js ''usage.col.cache_read'', js ''Cache read''),
     (js ''usage.col.output'', js ''Output''),
     (js ''usage.col.plan'', js ''Plan''),
     (js ''usage.col.conversation'', js ''Conversation''),
     (js ''usage.col.date'', js ''Date''),
     (js ''usage.open'', js ''Open usage report'')]"

definition en_backups :: "(jstr \<times> jstr) list" where
  "en_backups =
    [(js ''backups.title'', js ''Backups''),
     (js ''backups.subtitle'', js ''Automatic snapshots before every upgrade, plus optional nightly dumps. Files live in ./backups on the host and survive '' @ [96] @ js ''docker compose down -v'' @ [96] @ js ''.''),
     (js ''backups.nightly'', js ''Nightly automatic backup''),
     (js ''backups.nightly_hint'', js ''Takes a pg_dump every 24h. Pre-migration snapshots run regardless.''),
     (js ''backups.nightly_disabled'', js ''pg_dump isn'' @ [39] @ js ''t available in this environment, so scheduled backups can'' @ [39] @ js ''t be enabled.''),
     (js ''backups.keep'', js ''Keep last''),
     (js ''backups.keep_unit'', js ''nightly snapshots''),
     (js ''backups.take_now'', js ''Take backup now''),
     (js ''backups.taking'', js ''Taking'' @ [8230]),
     (js ''backups.empty'', js ''No backups yet.''),
     (js ''backups.col.taken'', js ''Taken''),
     (js ''backups.col.reason'', js ''Reason''),
     (js ''backups.col.size'', js ''Size''),
     (js ''backups.reason.pre-migration'', js ''Pre-migration''),
     (js ''backups.reason.manual'', js ''Manual''),
     (js ''backups.reason.nightly'', js ''Nightly''),
     (js ''backups.download'', js ''Download''),
     (js ''backups.delete'', js ''Delete''),
     (js ''backups.delete_confirm'', js ''Delete this backup? This cannot be undone.''),
     (js ''backups.restore_hint'', js ''To restore: stream a downloaded file into pg_restore, e.g. '' @ [96] @ js ''podman compose exec -T db pg_restore --clean --if-exists -U veckomenyn -d veckomenyn < your.dump'' @ [96] @ js ''.'')]"

definition en_update :: "(jstr \<times> jstr) list" where
  "en_update =
    [(js ''update.available'', js ''Update available: v'' @ hole ''version''),
     (js ''update.notes'', js ''Release notes''),
     (js ''update.compare'', js ''What changed''),
     (js ''update.copy_command'', js ''Copy upgrade command''),
     (js ''update.copied'', js ''Copied''),
     (js ''update.dismiss'', js ''Dismiss''),
     (js ''update.apply'', js ''Update now''),
     (js ''update.applying'', js ''Updating'' @ [8230]),
     (js ''update.waiting'', js ''Waiting for new version'' @ [8230]),
     (js ''update.apply_timeout'', js ''Update did not finish in time. Check your container'' @ [39] @ js ''s logs.''),
     (js ''update.success'', js ''Updated from v'' @ hole ''from'' @ js '' to v'' @ hole ''to'' @ js ''.''),
     (js ''update.section_title'', js ''Updates''),
     (js ''update.section_subtitle'', js ''The Update now button in the banner is always available when an update is published. Toggle this on to also apply updates automatically once a day.''),
     (js ''update.auto_label'', js ''Apply updates automatically''),
     (js ''update.auto_hint'', js ''Hourly check; if a newer version is published, restart with the new image.''),
     (js ''update.auto_unavailable'', js ''Auto-update needs the Watchtower trigger sidecar. See deploy docs.''),
     (js ''update.check_now'', js ''Check for updates''),
     (js ''update.checking'', js ''Checking'' @ [8230]),
     (js ''update.up_to_date'', js ''You'' @ [39] @ js ''re on the latest version (v'' @ hole ''version'' @ js '').''),
     (js ''update.found'', js ''Update available: v'' @ hole ''version'' @ js ''.'')]"

definition en_setup :: "(jstr \<times> jstr) list" where
  "en_setup =
    [(js ''setup.welcome_title'', js ''Welcome to Veckomenyn''),
     (js ''setup.welcome_body'', js ''Veckomenyn plans your week of dinners and builds the grocery cart. Two short steps and you'' @ [39] @ js ''re in.''),
     (js ''setup.lan_warning_title'', js ''Keep this on your home network''),
     (js ''setup.lan_warning_body'', js ''There is no authentication. Anyone who can reach this URL can read your data and spend your Anthropic balance. Run on a trusted LAN or behind Tailscale / VPN.''),
     (js ''setup.next'', js ''Continue''),
     (js ''setup.back'', js ''Back''),
     (js ''setup.skip'', js ''Skip''),
     (js ''setup.finish'', js ''Open Veckomenyn''),
     (js ''setup.step'', js ''Step '' @ hole ''n'' @ js '' of '' @ hole ''total''),
     (js ''setup.api_key_title'', js ''Add your Anthropic API key''),
     (js ''setup.api_key_body'', js ''Veckomenyn uses Claude for menu planning and cart building. The key is encrypted at rest with a master key the app generates for you.''),
     (js ''setup.api_key_placeholder'', js ''sk-ant-'' @ [8230]),
     (js ''setup.api_key_help'', js ''Get a key at console.anthropic.com''),
     (js ''setup.api_key_save'', js ''Save and continue''),
     (js ''setup.api_key_saving'', js ''Saving'' @ [8230]),
     (js ''setup.seed_title'', js ''Seed starter preferences''),
     (js ''setup.seed_body'', js ''Optional. Loads anonymised templates for cooking style, family routines, sourcing, and shopping rules. Edit them later under Preferences. Skip if you'' @ [39] @ js ''d rather start blank.''),
     (js ''setup.seed_button'', js ''Seed preferences''),
     (js ''setup.seed_seeding'', js ''Seeding'' @ [8230]),
     (js ''setup.seed_done'', js ''Seeded '' @ hole ''n'' @ js '' files'')]"

definition en_dict :: "(jstr \<times> jstr) list" where
  "en_dict =
     en_home @ en_top_bar @ en_plan_new_form @ en_week_view @ en_dinner_card @ en_editable_placeholders @ en_status_labels @ en_settings_modal @ en_weekdays @ en_chat @ en_calendar_popup @ en_sidebar @ en_duplicate_plan_dialog @ en_lifecycle @ en_cart_section @ en_preferences_modal @ en_integrations @ en_provider_fields @ en_preferences_modal_new_body_placeholder @ en_print_preview @ en_chat_drawer_aria_label @ en_toast_notifications @ en_per_dinner_rating @ en_week_level_retrospective @ en_usage @ en_backups @ en_update @ en_setup"

end
