(* ===== verification/DictSv.thy ===== *)
theory DictSv
  imports JsPrelude
begin

text \<open>
  The Swedish dictionary, web/src/i18n/sv.ts, one definition per group of keys in the
  order of the file. Characters outside printable ASCII, quotes and backslashes are
  written as code units.
\<close>

type_synonym dictionary = "(jstr \<times> jstr) list"

definition sv_home :: "(jstr \<times> jstr) list" where
  "sv_home =
    [(js ''home.title'', js ''Veckomenyn''),
     (js ''home.subtitle'', js ''Planera en vecka, bygg kundvagnen, best'' @ [228] @ js ''ll, blicka tillbaka.''),
     (js ''home.plan_new'', js ''Planera en ny vecka''),
     (js ''home.plan_first'', js ''Planera din f'' @ [246] @ js ''rsta vecka''),
     (js ''home.your_weeks'', js ''Dina veckor''),
     (js ''home.empty_title'', js ''V'' @ [228] @ js ''lkommen.''),
     (js ''home.empty_body'', js ''H'' @ [228] @ js ''r bor familjens veckor. Agenten hj'' @ [228] @ js ''lper dig planera middagar, bygger kundvagnen och l'' @ [228] @ js ''r sig av varje veckas '' @ [229] @ js ''terblick.''),
     (js ''home.loop_step_plan'', js ''Planera middagar f'' @ [246] @ js ''r veckan.''),
     (js ''home.loop_step_cart'', js ''L'' @ [229] @ js ''t agenten bygga Willys-kundvagnen.''),
     (js ''home.loop_step_order'', js ''Best'' @ [228] @ js ''ll p'' @ [229] @ js '' willys.se.''),
     (js ''home.loop_step_retro'', js ''Skriv en '' @ [229] @ js ''terblick s'' @ [229] @ js '' n'' @ [228] @ js ''sta vecka blir b'' @ [228] @ js ''ttre.'')]"

definition sv_top_bar :: "(jstr \<times> jstr) list" where
  "sv_top_bar =
    [(js ''topbar.brand_home'', js ''Hem''),
     (js ''topbar.working'', js ''agenten arbetar''),
     (js ''topbar.stop'', js ''Stoppa''),
     (js ''topbar.refresh'', js ''Uppdatera''),
     (js ''topbar.settings'', js ''Inst'' @ [228] @ js ''llningar''),
     (js ''topbar.open_chat'', js ''Fr'' @ [229] @ js ''ga agenten''),
     (js ''topbar.close_chat'', js ''St'' @ [228] @ js ''ng chatt'')]"

definition sv_plan_new_form :: "(jstr \<times> jstr) list" where
  "sv_plan_new_form =
    [(js ''plan.title'', js ''Planera en vecka''),
     (js ''plan.subtitle'', js ''V'' @ [228] @ js ''lj menyns f'' @ [246] @ js ''rsta dag och antal middagar.''),
     (js ''plan.start_date'', js ''Startdatum''),
     (js ''plan.menu_runs_through'', js ''Menyn l'' @ [246] @ js ''per till '' @ hole ''end''),
     (js ''plan.num_dinners'', js ''Antal middagar''),
     (js ''plan.notes'', js ''Noteringar (valfritt)''),
     (js ''plan.notes_hint'', js ''Barn borta, fika, annat vi b'' @ [246] @ js ''r k'' @ [228] @ js ''nna till.''),
     (js ''plan.notes_placeholder'', js ''Noah borta tor'' @ [8211] @ js ''s'' @ [246] @ js ''n. Extra bak till fredagsfika p'' @ [229] @ js '' jobbet.''),
     (js ''plan.submit'', js ''Planera veckan''),
     (js ''plan.submitting'', js ''Planerar'' @ [8230]),
     (js ''plan.cancel'', js ''Avbryt'')]"

definition sv_week_view :: "(jstr \<times> jstr) list" where
  "sv_week_view =
    [(js ''week.add_dinner'', js ''L'' @ [228] @ js ''gg till middag''),
     (js ''week.regenerate'', js ''F'' @ [246] @ js ''resl'' @ [229] @ js '' ny meny''),
     (js ''week.print'', js ''Skriv ut''),
     (js ''week.notes_label'', js ''noteringar''),
     (js ''week.notes_placeholder'', js ''Vecknoteringar (barn borta, extra bak'' @ [8230] @ js '')''),
     (js ''print.preview_hint'', js ''F'' @ [246] @ js ''rhandsvisning. Klicka knappen eller tryck Cmd/Ctrl+P f'' @ [246] @ js ''r att skriva ut.''),
     (js ''print.print_button'', js ''Skriv ut''),
     (js ''print.overview'', [214] @ js ''versikt''),
     (js ''print.day'', js ''Dag''),
     (js ''print.dinner'', js ''Middag''),
     (js ''print.pers'', js ''Pers''),
     (js ''print.source'', js ''K'' @ [228] @ js ''lla''),
     (js ''week.no_dinners'', js ''Inga middagar planerade '' @ [228] @ js ''nnu.''),
     (js ''week.plan_dinners'', js ''Planera middagar''),
     (js ''week.this_week'', js ''Den h'' @ [228] @ js ''r veckan''),
     (js ''week.retrospective'', [197] @ js ''terblick''),
     (js ''week.set_label'', js ''s'' @ [228] @ js ''tt '' @ hole ''label''),
     (js ''week.edit_label'', js ''Redigera '' @ hole ''label''),
     (js ''week.clone_next'', js ''Planera n'' @ [228] @ js ''sta vecka utifr'' @ [229] @ js ''n denna''),
     (js ''week.truncate_confirm'', js ''Om du kortar ner planen tas '' @ hole ''count'' @ js '' middag(ar) bort som ligger efter det nya slutdatumet. Forts'' @ [228] @ js ''tt?''),
     (js ''week.unlock_confirm'', js ''Detta flyttar tillbaka veckan till '' @ [8221] @ hole ''target'' @ [8221] @ js '' s'' @ [229] @ js '' menyn g'' @ [229] @ js ''r att redigera igen. Inneh'' @ [229] @ js ''llet i kundvagnen och betyg beh'' @ [229] @ js ''lls. Forts'' @ [228] @ js ''tt?''),
     (js ''week.locked_hint'', js ''Menyn '' @ [228] @ js ''r l'' @ [229] @ js ''st n'' @ [228] @ js ''r status '' @ [228] @ js ''r '' @ hole ''status'' @ js ''. '' @ [196] @ js ''ndra status nedan f'' @ [246] @ js ''r att l'' @ [229] @ js ''sa upp redigering.''),
     (js ''week.add_dinner_prompt'', js ''L'' @ [228] @ js ''gg till ytterligare en middag till veckan som l'' @ [246] @ js ''per fr'' @ [229] @ js ''n '' @ hole ''start'' @ js '' till '' @ hole ''end'' @ js ''.''),
     (js ''week.regenerate_prompt'', js ''G'' @ [246] @ js ''r om menyn f'' @ [246] @ js ''r veckan som l'' @ [246] @ js ''per fr'' @ [229] @ js ''n '' @ hole ''start'' @ js '' till '' @ hole ''end'' @ js ''. Ers'' @ [228] @ js ''tt varje middag med ett nytt alternativ, med samma f'' @ [246] @ js ''ruts'' @ [228] @ js ''ttningar.''),
     (js ''week.plan_dinners_prompt'', js ''Planera middagar f'' @ [246] @ js ''r veckan som l'' @ [246] @ js ''per fr'' @ [229] @ js ''n '' @ hole ''start'' @ js '' till '' @ hole ''end'' @ js ''.'')]"

definition sv_dinner_card :: "(jstr \<times> jstr) list" where
  "sv_dinner_card =
    [(js ''dinner.adjust'', [196] @ js ''ndra''),
     (js ''dinner.adjust_placeholder'', js ''Byt till n'' @ [229] @ js ''got annat, g'' @ [246] @ js ''r mindre stark, anv'' @ [228] @ js ''nd fl'' @ [228] @ js ''sk ist'' @ [228] @ js ''llet, l'' @ [228] @ js ''gg till potatis som tillbeh'' @ [246] @ js ''r'' @ [8230]),
     (js ''dinner.adjust_hint'', [8984] @ js ''/Ctrl+Enter f'' @ [246] @ js ''r att skicka''),
     (js ''dinner.adjust_send'', js ''Skicka''),
     (js ''dinner.adjust_cancel'', js ''Avbryt''),
     (js ''dinner.adjust_prompt'', js ''F'' @ [246] @ js ''r middagen den '' @ hole ''date'' @ js '' (dinner_id '' @ hole ''id'' @ js '', '' @ [8221] @ hole ''name'' @ [8221] @ js ''): '' @ hole ''request'' @ js ''. Anv'' @ [228] @ js ''nd update_dinner f'' @ [246] @ js ''r att genomf'' @ [246] @ js ''ra '' @ [228] @ js ''ndringen. En mindre justering bevarar r'' @ [228] @ js ''tten, ett byte inneb'' @ [228] @ js ''r en helt ny r'' @ [228] @ js ''tt.''),
     (js ''dinner.recipe'', js ''Recept''),
     (js ''dinner.servings'', js ''pers''),
     (js ''dinner.untitled'', js ''(utan titel)'')]"

definition sv_editable_placeholders :: "(jstr \<times> jstr) list" where
  "sv_editable_placeholders =
    [(js ''editable.add_label'', js ''L'' @ [228] @ js ''gg till '' @ hole ''label'')]"

definition sv_status_labels :: "(jstr \<times> jstr) list" where
  "sv_status_labels =
    [(js ''status.draft'', js ''utkast''),
     (js ''status.cart_built'', js ''klar att best'' @ [228] @ js ''lla''),
     (js ''status.ordered'', js ''best'' @ [228] @ js ''lld'')]"

definition sv_settings_modal :: "(jstr \<times> jstr) list" where
  "sv_settings_modal =
    [(js ''settings.title'', js ''Hush'' @ [229] @ js ''llsinst'' @ [228] @ js ''llningar''),
     (js ''settings.language'', js ''Spr'' @ [229] @ js ''k''),
     (js ''settings.language_sv'', js ''Svenska''),
     (js ''settings.language_en'', js ''English''),
     (js ''settings.delivery_weekday'', js ''Leveransdag''),
     (js ''settings.delivery_weekday_hint'', js ''Vilken dag varorna brukar levereras.''),
     (js ''settings.order_offset'', js ''Best'' @ [228] @ js ''llningsf'' @ [246] @ js ''rskjutning (dagar)''),
     (js ''settings.order_offset_hint'', js ''Negativt inneb'' @ [228] @ js ''r att du best'' @ [228] @ js ''ller f'' @ [246] @ js ''re leverans. -1 = dagen innan, 0 = samma dag.''),
     (js ''settings.num_dinners'', js ''Antal middagar''),
     (js ''settings.num_dinners_hint'', js ''Standardl'' @ [228] @ js ''ngd f'' @ [246] @ js ''r en meny.''),
     (js ''settings.default_servings'', js ''Standardportioner''),
     (js ''settings.default_servings_hint'', js ''Antal personer per middag.''),
     (js ''settings.notes'', js ''Noteringar''),
     (js ''settings.save'', js ''Spara''),
     (js ''settings.saving'', js ''Sparar'' @ [8230]),
     (js ''settings.loading'', js ''Laddar'' @ [8230]),
     (js ''settings.close'', js ''St'' @ [228] @ js ''ng''),
     (js ''settings.theme'', js ''Tema''),
     (js ''settings.theme_system'', js ''System''),
     (js ''settings.theme_light'', js ''Ljust''),
     (js ''settings.theme_dark'', js ''M'' @ [246] @ js ''rkt''),
     (js ''topbar.theme'', js ''Tema'')]"

definition sv_weekdays :: "(jstr \<times> jstr) list" where
  "sv_weekdays =
    [(js ''weekday.monday'', js ''M'' @ [229] @ js ''ndag''),
     (js ''weekday.tuesday'', js ''Tisdag''),
     (js ''weekday.wednesday'', js ''Onsdag''),
     (js ''weekday.thursday'', js ''Torsdag''),
     (js ''weekday.friday'', js ''Fredag''),
     (js ''weekday.saturday'', js ''L'' @ [246] @ js ''rdag''),
     (js ''weekday.sunday'', js ''S'' @ [246] @ js ''ndag'')]"

definition sv_chat :: "(jstr \<times> jstr) list" where
  "sv_chat =
    [(js ''chat.title'', js ''Chatt''),
     (js ''chat.placeholder'', js ''Justera n'' @ [229] @ js ''got'' @ [8230]),
     (js ''chat.send'', js ''Skicka''),
     (js ''chat.thinking'', js ''t'' @ [228] @ js ''nker'' @ [8230]),
     (js ''chat.deliberating.pondering'', js ''funderar''),
     (js ''chat.deliberating.simmering'', js ''sjuder tankar''),
     (js ''chat.deliberating.tasting'', js ''smakar av''),
     (js ''chat.deliberating.chopping'', js ''hackar id'' @ [233] @ js ''er''),
     (js ''chat.deliberating.plating'', js ''l'' @ [228] @ js ''gger upp ett svar''),
     (js ''chat.deliberating.cookbook'', js ''sl'' @ [229] @ js ''r i kokboken''),
     (js ''chat.deliberating.marinating'', js ''marinerar tankarna''),
     (js ''chat.deliberating.whisking'', js ''vispar ihop ett svar''),
     (js ''chat.deliberating.browning'', js ''bryner sm'' @ [246] @ js ''ret''),
     (js ''chat.deliberating.pantry'', js ''rotar i skafferiet''),
     (js ''chat.deliberating.kneading'', js ''kn'' @ [229] @ js ''dar degen''),
     (js ''chat.deliberating.garnishing'', js ''garnerar tallriken''),
     (js ''chat.deliberating.watched_pot'', js ''v'' @ [228] @ js ''ntar p'' @ [229] @ js '' att vattnet kokar''),
     (js ''chat.cancelled'', js ''Avbruten.''),
     (js ''chat.clear'', js ''Rensa''),
     (js ''chat.clear_confirm'', js ''Rensa veckans chatthistorik? G'' @ [229] @ js ''r inte att '' @ [229] @ js ''ngra.''),
     (js ''chat.empty'', js ''Fr'' @ [229] @ js ''ga vad som helst, t.ex. '' @ [8221] @ js ''g'' @ [246] @ js ''r tisdag vegetarisk'' @ [8221] @ js '', '' @ [8221] @ js ''Noah tyckte inte om koriander'' @ [8221] @ js '', '' @ [8221] @ js ''g'' @ [246] @ js ''r om veckan'' @ [8221] @ js ''. Knapparna p'' @ [229] @ js '' menyn g'' @ [229] @ js ''r ocks'' @ [229] @ js '' via chatten.'')]"

definition sv_calendar_popup :: "(jstr \<times> jstr) list" where
  "sv_calendar_popup =
    [(js ''calendar.today'', js ''Idag''),
     (js ''calendar.clear'', js ''Rensa''),
     (js ''calendar.prev_month'', js ''F'' @ [246] @ js ''reg'' @ [229] @ js ''ende m'' @ [229] @ js ''nad''),
     (js ''calendar.next_month'', js ''N'' @ [228] @ js ''sta m'' @ [229] @ js ''nad''),
     (js ''topbar.preferences'', js ''Preferenser'')]"

definition sv_sidebar :: "(jstr \<times> jstr) list" where
  "sv_sidebar =
    [(js ''sidebar.history'', js ''Veckor''),
     (js ''sidebar.current'', js ''Aktuell vecka''),
     (js ''sidebar.empty'', js ''Inga veckor '' @ [228] @ js ''nnu.''),
     (js ''sidebar.dinners_short'', js ''middagar''),
     (js ''sidebar.new_week'', js ''Ny vecka''),
     (js ''sidebar.new_week_title'', js ''Planera en ny vecka''),
     (js ''sidebar.duplicate'', js ''Duplicera''),
     (js ''sidebar.delete'', js ''Ta bort''),
     (js ''sidebar.delete_confirm'', js ''Ta bort den h'' @ [228] @ js ''r planen, inklusive middagar och kundvagn? G'' @ [229] @ js ''r inte att '' @ [229] @ js ''ngra.'')]"

definition sv_duplicate_plan_dialog :: "(jstr \<times> jstr) list" where
  "sv_duplicate_plan_dialog =
    [(js ''duplicate.title'', js ''Duplicera plan''),
     (js ''duplicate.source_prefix'', js ''K'' @ [228] @ js ''lla:''),
     (js ''duplicate.start_date'', js ''Startdatum''),
     (js ''duplicate.new_period_prefix'', js ''Ny period:''),
     (js ''duplicate.confirm'', js ''Duplicera''),
     (js ''duplicate.cancel'', js ''Avbryt''),
     (js ''duplicate.close'', js ''St'' @ [228] @ js ''ng''),
     (js ''duplicate.submitting'', js ''Duplicerar'' @ [8230])]"

definition sv_lifecycle :: "(jstr \<times> jstr) list" where
  "sv_lifecycle =
    [(js ''lifecycle.current'', js ''Aktuell status''),
     (js ''lifecycle.build_cart'', js ''Bygg kundvagn''),
     (js ''lifecycle.build_cart_prompt'', js ''Bygg Willys-kundvagnen f'' @ [246] @ js ''r planen som l'' @ [246] @ js ''per fr'' @ [229] @ js ''n '' @ hole ''start'' @ js '' till '' @ hole ''end'' @ js ''. F'' @ [246] @ js ''lj metoden i systemprompten: b'' @ [246] @ js ''rja med willys_cart_get och lista vad som redan ligger i kundvagnen s'' @ [229] @ js '' jag kan bekr'' @ [228] @ js ''fta. Inkorporera befintliga varor i planen (rensa inte om jag inte s'' @ [228] @ js ''ger '' @ [39] @ js ''rensa'' @ [39] @ js '' eller '' @ [39] @ js ''reset'' @ [39] @ js ''). Aggregera ingredienser tv'' @ [228] @ js ''rs '' @ [246] @ js ''ver ALLA middagar (visa listan), dra ifr'' @ [229] @ js ''n det som redan finns i vagnen, v'' @ [228] @ js ''lj en produkt per saknad ingrediens och skicka sedan deltat i ett enda willys_cart_add_many-anrop. Verifiera med willys_cart_get p'' @ [229] @ js '' slutet. N'' @ [228] @ js ''r du '' @ [228] @ js ''r klar, sammanfatta vad du la till och markera planen som cart_built.''),
     (js ''lifecycle.mark_cart_built'', js ''Markera kundvagn klar''),
     (js ''lifecycle.mark_ordered'', js ''Markera som best'' @ [228] @ js ''lld''),
     (js ''lifecycle.record_retrospective'', js ''Dokumentera '' @ [229] @ js ''terblick''),
     (js ''lifecycle.open_willys'', [214] @ js ''ppna Willys.se''),
     (js ''lifecycle.set_status'', [196] @ js ''ndra status''),
     (js ''lifecycle.retrospective_prompt'', js ''Dokumentera en '' @ [229] @ js ''terblick f'' @ [246] @ js ''r veckan som l'' @ [246] @ js ''pte fr'' @ [229] @ js ''n '' @ hole ''start'' @ js '' till '' @ hole ''end'' @ js ''. Per-middags-betyg sparas redan direkt i kortet. Fr'' @ [229] @ js ''ga ist'' @ [228] @ js ''llet om det som inte syns d'' @ [228] @ js ''r: pacing, portionsstorlekar, m'' @ [228] @ js ''ngder, om veckan k'' @ [228] @ js ''ndes f'' @ [246] @ js ''r tung eller obalanserad, och n'' @ [229] @ js ''got specifikt att ta med till n'' @ [228] @ js ''sta vecka. Spara som vecko'' @ [229] @ js ''terblick och uppdatera preferenser n'' @ [228] @ js ''r en l'' @ [228] @ js ''rdom b'' @ [246] @ js ''r bli permanent.'')]"

definition sv_cart_section :: "(jstr \<times> jstr) list" where
  "sv_cart_section =
    [(js ''cart.title'', js ''Ink'' @ [246] @ js ''pslista''),
     (js ''cart.code'', js ''Kod''),
     (js ''cart.product'', js ''Vara''),
     (js ''cart.qty'', js ''Antal''),
     (js ''cart.price'', js ''Pris''),
     (js ''cart.reason'', js ''Notering'')]"

definition sv_preferences_modal :: "(jstr \<times> jstr) list" where
  "sv_preferences_modal =
    [(js ''prefs.title'', js ''Preferenser''),
     (js ''prefs.subtitle'', js ''Matlagningsprinciper, familj, ink'' @ [246] @ js ''psrutiner. Fri markdown per kategori.''),
     (js ''prefs.pick_one'', js ''V'' @ [228] @ js ''lj en kategori till v'' @ [228] @ js ''nster.''),
     (js ''prefs.new_category'', js ''Ny kategori''),
     (js ''prefs.delete'', js ''Ta bort''),
     (js ''prefs.confirm_delete'', js ''Ta bort kategorin '' @ [8221] @ hole ''category'' @ [8221] @ js ''? Detta g'' @ [229] @ js ''r inte att '' @ [229] @ js ''ngra.'')]"

definition sv_integrations :: "(jstr \<times> jstr) list" where
  "sv_integrations =
    [(js ''integrations.title'', js ''Integrationer''),
     (js ''integrations.subtitle'', js ''API-nycklar och butikskonton. Hemligheter lagras i databasen; l'' @ [228] @ js ''mna ett maskat f'' @ [228] @ js ''lt or'' @ [246] @ js ''rt f'' @ [246] @ js ''r att beh'' @ [229] @ js ''lla befintligt v'' @ [228] @ js ''rde.''),
     (js ''integrations.enabled'', js ''Aktiverad''),
     (js ''integrations.category_llm'', js ''LLM-leverant'' @ [246] @ js ''r''),
     (js ''integrations.category_shopping'', js ''Handelsleverant'' @ [246] @ js ''r''),
     (js ''integrations.secret_set_hint'', js ''Lagrat. Skriv ett nytt v'' @ [228] @ js ''rde f'' @ [246] @ js ''r att ers'' @ [228] @ js ''tta det.'')]"

definition sv_provider_fields :: "(jstr \<times> jstr) list" where
  "sv_provider_fields =
    [(js ''provider.api_key'', js ''API-nyckel''),
     (js ''provider.model'', js ''Modell''),
     (js ''provider.password'', js ''L'' @ [246] @ js ''senord''),
     (js ''provider.anthropic.name'', js ''Anthropic''),
     (js ''provider.anthropic.model_hint'', js ''Sonnet 4.6 '' @ [228] @ js ''r det balanserade standardvalet. Haiku '' @ [228] @ js ''r ~5x billigare men svagare p'' @ [229] @ js '' kreativ menyplanering. Opus '' @ [228] @ js ''r ~3-5x dyrare men b'' @ [228] @ js ''ttre vid komplexa preferenser.''),
     (js ''provider.anthropic.haiku'', js ''Claude Haiku 4.5 ($1/$5, snabbast)''),
     (js ''provider.anthropic.sonnet'', js ''Claude Sonnet 4.6 ($3/$15, balanserat)''),
     (js ''provider.anthropic.opus'', js ''Claude Opus 4.7 ($15/$75, b'' @ [228] @ js ''st kvalitet)''),
     (js ''provider.openai.name'', js ''OpenAI''),
     (js ''provider.openai.model_hint'', js ''GPT-5.4 '' @ [228] @ js ''r senaste flaggskeppsmodellen. GPT-5.1 '' @ [228] @ js ''r billigare med bra kvalitet. GPT-4.1 '' @ [228] @ js ''r snabbast och billigast.''),
     (js ''provider.openai_compat.name'', js ''OpenAI-kompatibel (lokal/annan)''),
     (js ''provider.openai_compat.base_url'', js ''API-bas-URL''),
     (js ''provider.openai_compat.base_url_hint'', js ''Bas-URL till en OpenAI-kompatibel API (llama.cpp, Ollama, etc.).''),
     (js ''provider.openai_compat.api_key_hint'', js ''L'' @ [228] @ js ''mna tomt f'' @ [246] @ js ''r lokala backends som inte kr'' @ [228] @ js ''ver autentisering.''),
     (js ''provider.openai_compat.model_hint'', js ''Modellnamn som backend f'' @ [246] @ js ''rv'' @ [228] @ js ''ntar sig.''),
     (js ''provider.willys.username'', js ''Anv'' @ [228] @ js ''ndarnamn (YYYYMMDDNNNN)''),
     (js ''provider.test'', js ''Testa anslutning''),
     (js ''provider.testing'', js ''Testar...''),
     (js ''provider.test_unknown_error'', js ''Ok'' @ [228] @ js ''nt fel'')]"

definition sv_preferences_modal_new_body_placeholder :: "(jstr \<times> jstr) list" where
  "sv_preferences_modal_new_body_placeholder =
    [(js ''prefs.new_category_placeholder'', js ''t.ex. allergier''),
     (js ''prefs.body_placeholder'', js ''# Rubrik'' @ [10, 10] @ js ''Markdown-inneh'' @ [229] @ js ''ll'' @ [8230])]"

definition sv_print_preview :: "(jstr \<times> jstr) list" where
  "sv_print_preview =
    [(js ''print.loading'', js ''Laddar'' @ [8230])]"

definition sv_chat_drawer_aria_label :: "(jstr \<times> jstr) list" where
  "sv_chat_drawer_aria_label =
    [(js ''chat.aria'', js ''Chatt'')]"

definition sv_toast_notifications :: "(jstr \<times> jstr) list" where
  "sv_toast_notifications =
    [(js ''toast.dismiss'', js ''St'' @ [228] @ js ''ng''),
     (js ''toast.retry'', js ''F'' @ [246] @ js ''rs'' @ [246] @ js ''k igen''),
     (js ''toast.save_failed'', js ''Kunde inte spara''),
     (js ''toast.save_failed_retrying'', js ''Kunde inte spara; f'' @ [246] @ js ''rs'' @ [246] @ js ''ker igen'' @ [8230]),
     (js ''toast.changes_saved'', js ''Sparat''),
     (js ''toast.week_deleted'', js ''Vecka borttagen''),
     (js ''toast.network_error'', js ''N'' @ [228] @ js ''tverksfel''),
     (js ''toast.unsaved_changes'', [197] @ js ''terblicken har inte sparats '' @ [228] @ js ''n. L'' @ [228] @ js ''mna '' @ [228] @ js ''nd'' @ [229] @ js ''?'')]"

definition sv_per_dinner_rating :: "(jstr \<times> jstr) list" where
  "sv_per_dinner_rating =
    [(js ''rating.how_was_it'', js ''Hur blev den?''),
     (js ''rating.your_verdict'', js ''Omd'' @ [246] @ js ''me:''),
     (js ''rating.loved'', [196] @ js ''lskade''),
     (js ''rating.liked'', js ''Gick bra''),
     (js ''rating.meh'', js ''S'' @ [229] @ js ''d'' @ [228] @ js ''r''),
     (js ''rating.disliked'', js ''Nej''),
     (js ''rating.clear'', js ''Rensa''),
     (js ''rating.notes_placeholder'', js ''Vad tyckte ni? (f'' @ [246] @ js ''r salt, barnen '' @ [229] @ js ''t inte, perfekt till lunch dagen efter'' @ [8230] @ js '')'')]"

definition sv_week_level_retrospective :: "(jstr \<times> jstr) list" where
  "sv_week_level_retrospective =
    [(js ''retro.hint'', js ''Pacing, portionsstorlekar, m'' @ [228] @ js ''ngder, allm'' @ [228] @ js ''n vibe. Allt som inte f'' @ [229] @ js ''ngas av per-middags-betygen.''),
     (js ''retro.placeholder'', js ''Tung vecka med mycket r'' @ [246] @ js ''d k'' @ [246] @ js ''ttf'' @ [228] @ js ''rs, blanda in mer fisk n'' @ [228] @ js ''sta. Porchettan r'' @ [228] @ js ''ckte till tre dagar.'')]"

definition sv_usage :: "(jstr \<times> jstr) list" where
  "sv_usage =
    [(js ''usage.title'', js ''Anv'' @ [228] @ js ''ndning & kostnad''),
     (js ''usage.subtitle'', js ''Senaste 30 dagarna''),
     (js ''usage.close'', js ''St'' @ [228] @ js ''ng''),
     (js ''usage.loading'', js ''Laddar'' @ [8230]),
     (js ''usage.empty'', js ''Inga anrop registrerade '' @ [228] @ js ''n.''),
     (js ''usage.total_cost'', js ''Total kostnad''),
     (js ''usage.total_calls'', js ''Modellanrop''),
     (js ''usage.total_input'', js ''Indata (tokens)''),
     (js ''usage.total_output'', js ''Utdata (tokens)''),
     (js ''usage.total_cache_write'', js ''Cache-skrivningar''),
     (js ''usage.total_cache_read'', js ''Cache-l'' @ [228] @ js ''sningar''),
     (js ''usage.cache_hit_rate'', js ''Cache-tr'' @ [228] @ js ''ffar''),
     (js ''usage.cache_hit_hint'', js ''Andel indata som l'' @ [228] @ js ''stes fr'' @ [229] @ js ''n cache.''),
     (js ''usage.by_model'', js ''Per modell''),
     (js ''usage.by_week'', js ''Per plan''),
     (js ''usage.by_day'', js ''Per dag''),
     (js ''usage.recent_conversations'', js ''Dyraste konversationer''),
     (js ''usage.col.model'', js ''Modell''),
     (js ''usage.col.calls'', js ''Anrop''),
     (js ''usage.col.cost'', js ''Kostnad''),
     (js ''usage.col.input'', js ''In''),
     (js ''usage.col.cache_write'', js ''Cache (skriv)''),
     (js ''usage.col.cache_read'', js ''Cache (l'' @ [228] @ js ''s)''),
     (js ''usage.col.output'', js ''Ut''),
     (js ''usage.col.plan'', js ''Plan''),
     (js ''usage.col.conversation'', js ''Konversation''),
     (js ''usage.col.date'', js ''Datum''),
     (js ''usage.open'', [214] @ js ''ppna anv'' @ [228] @ js ''ndningsrapport'')]"

definition sv_backups :: "(jstr \<times> jstr) list" where
  "sv_backups =
    [(js ''backups.title'', js ''S'' @ [228] @ js ''kerhetskopior''),
     (js ''backups.subtitle'', js ''Automatisk s'' @ [228] @ js ''kerhetskopia f'' @ [246] @ js ''re varje uppgradering, plus valfri nattlig dump. Filerna ligger i ./backups p'' @ [229] @ js '' hosten och '' @ [246] @ js ''verlever '' @ [96] @ js ''docker compose down -v'' @ [96] @ js ''.''),
     (js ''backups.nightly'', js ''Nattlig automatisk s'' @ [228] @ js ''kerhetskopia''),
     (js ''backups.nightly_hint'', js ''Tar en pg_dump var 24:e timme. F'' @ [246] @ js ''rmigreringskopior k'' @ [246] @ js ''rs alltid.''),
     (js ''backups.nightly_disabled'', js ''pg_dump finns inte i den h'' @ [228] @ js ''r milj'' @ [246] @ js ''n, s'' @ [229] @ js '' schemalagda s'' @ [228] @ js ''kerhetskopior kan inte aktiveras.''),
     (js ''backups.keep'', js ''Beh'' @ [229] @ js ''ll senaste''),
     (js ''backups.keep_unit'', js ''nattliga kopior''),
     (js ''backups.take_now'', js ''Ta s'' @ [228] @ js ''kerhetskopia nu''),
     (js ''backups.taking'', js ''Sparar'' @ [8230]),
     (js ''backups.empty'', js ''Inga s'' @ [228] @ js ''kerhetskopior '' @ [228] @ js ''n.''),
     (js ''backups.col.taken'', js ''Skapad''),
     (js ''backups.col.reason'', js ''Orsak''),
     (js ''backups.col.size'', js ''Storlek''),
     (js ''backups.reason.pre-migration'', js ''F'' @ [246] @ js ''rmigrering''),
     (js ''backups.reason.manual'', js ''Manuell''),
     (js ''backups.reason.nightly'', js ''Nattlig''),
     (js ''backups.download'', js ''Ladda ner''),
     (js ''backups.delete'', js ''Ta bort''),
     (js ''backups.delete_confirm'', js ''Ta bort den h'' @ [228] @ js ''r s'' @ [228] @ js ''kerhetskopian? Det g'' @ [229] @ js ''r inte att '' @ [229] @ js ''ngra.''),
     (js ''backups.restore_hint'', [197] @ js ''terst'' @ [228] @ js ''ll: streama den nedladdade filen till pg_restore, t.ex. '' @ [96] @ js ''podman compose exec -T db pg_restore --clean --if-exists -U veckomenyn -d veckomenyn < din.dump'' @ [96] @ js ''.'')]"

definition sv_update :: "(jstr \<times> jstr) list" where
  "sv_update =
    [(js ''update.available'', js ''Uppdatering tillg'' @ [228] @ js ''nglig: v'' @ hole ''version''),
     (js ''update.notes'', js ''Versionsanteckningar''),
     (js ''update.compare'', js ''Vad har '' @ [228] @ js ''ndrats''),
     (js ''update.copy_command'', js ''Kopiera uppgraderingskommando''),
     (js ''update.copied'', js ''Kopierat''),
     (js ''update.dismiss'', js ''St'' @ [228] @ js ''ng''),
     (js ''update.apply'', js ''Uppdatera nu''),
     (js ''update.applying'', js ''Uppdaterar'' @ [8230]),
     (js ''update.waiting'', js ''V'' @ [228] @ js ''ntar p'' @ [229] @ js '' ny version'' @ [8230]),
     (js ''update.apply_timeout'', js ''Uppdateringen blev inte klar i tid. Kolla loggarna f'' @ [246] @ js ''r containern.''),
     (js ''update.success'', js ''Uppdaterad fr'' @ [229] @ js ''n v'' @ hole ''from'' @ js '' till v'' @ hole ''to'' @ js ''.''),
     (js ''update.section_title'', js ''Uppdateringar''),
     (js ''update.section_subtitle'', js ''Knappen '' @ [34] @ js ''Uppdatera nu'' @ [34] @ js '' i bannern fungerar alltid n'' @ [228] @ js ''r en uppdatering finns. Sl'' @ [229] @ js '' p'' @ [229] @ js '' denna f'' @ [246] @ js ''r att '' @ [228] @ js ''ven k'' @ [246] @ js ''ra uppdateringar automatiskt en g'' @ [229] @ js ''ng per dygn.''),
     (js ''update.auto_label'', js ''Uppdatera automatiskt''),
     (js ''update.auto_hint'', js ''Kontrollerar varje timme; om en nyare version finns startas appen om med den nya imagen.''),
     (js ''update.auto_unavailable'', js ''Automatiska uppdateringar kr'' @ [228] @ js ''ver Watchtower-sidecar. Se distributionsdokumentationen.''),
     (js ''update.check_now'', js ''S'' @ [246] @ js ''k efter uppdateringar''),
     (js ''update.checking'', js ''Kollar'' @ [8230]),
     (js ''update.up_to_date'', js ''Du har senaste versionen (v'' @ hole ''version'' @ js '').''),
     (js ''update.found'', js ''Uppdatering tillg'' @ [228] @ js ''nglig: v'' @ hole ''version'' @ js ''.'')]"

definition sv_setup :: "(jstr \<times> jstr) list" where
  "sv_setup =
    [(js ''setup.welcome_title'', js ''V'' @ [228] @ js ''lkommen till Veckomenyn''),
     (js ''setup.welcome_body'', js ''Veckomenyn planerar veckans middagar och bygger ink'' @ [246] @ js ''pslistan. Tv'' @ [229] @ js '' snabba steg och du '' @ [228] @ js ''r ig'' @ [229] @ js ''ng.''),
     (js ''setup.lan_warning_title'', js ''K'' @ [246] @ js ''r p'' @ [229] @ js '' ditt hemn'' @ [228] @ js ''tverk''),
     (js ''setup.lan_warning_body'', js ''Det finns ingen inloggning. Alla som n'' @ [229] @ js ''r URL:en kan l'' @ [228] @ js ''sa dina data och f'' @ [246] @ js ''rbruka ditt Anthropic-saldo. K'' @ [246] @ js ''r p'' @ [229] @ js '' ett betrott LAN eller bakom Tailscale / VPN.''),
     (js ''setup.next'', js ''Forts'' @ [228] @ js ''tt''),
     (js ''setup.back'', js ''Tillbaka''),
     (js ''setup.skip'', js ''Hoppa '' @ [246] @ js ''ver''),
     (js ''setup.finish'', [214] @ js ''ppna Veckomenyn''),
     (js ''setup.step'', js ''Steg '' @ hole ''n'' @ js '' av '' @ hole ''total''),
     (js ''setup.api_key_title'', js ''L'' @ [228] @ js ''gg till din Anthropic-API-nyckel''),
     (js ''setup.api_key_body'', js ''Veckomenyn anv'' @ [228] @ js ''nder Claude f'' @ [246] @ js ''r menyplanering och kundvagn. Nyckeln krypteras i databasen med en huvudnyckel appen genererar '' @ [229] @ js ''t dig.''),
     (js ''setup.api_key_placeholder'', js ''sk-ant-'' @ [8230]),
     (js ''setup.api_key_help'', js ''H'' @ [228] @ js ''mta en nyckel p'' @ [229] @ js '' console.anthropic.com''),
     (js ''setup.api_key_save'', js ''Spara och forts'' @ [228] @ js ''tt''),
     (js ''setup.api_key_saving'', js ''Sparar'' @ [8230]),
     (js ''setup.seed_title'', js ''Importera mallpreferenser''),
     (js ''setup.seed_body'', js ''Valfritt. L'' @ [228] @ js ''ser in anonymiserade mallar f'' @ [246] @ js ''r matlagningsstil, familjerutiner, ink'' @ [246] @ js ''psk'' @ [228] @ js ''llor och ink'' @ [246] @ js ''psregler. Redigera senare under Preferenser. Hoppa '' @ [246] @ js ''ver om du hellre b'' @ [246] @ js ''rjar tomt.''),
     (js ''setup.seed_button'', js ''Importera preferenser''),
     (js ''setup.seed_seeding'', js ''Importerar'' @ [8230]),
     (js ''setup.seed_done'', js ''Importerade '' @ hole ''n'' @ js '' filer'')]"

definition sv_dict :: "(jstr \<times> jstr) list" where
  "sv_dict =
     sv_home @ sv_top_bar @ sv_plan_new_form @ sv_week_view @ sv_dinner_card @ sv_editable_placeholders @ sv_status_labels @ sv_settings_modal @ sv_weekdays @ sv_chat @ sv_calendar_popup @ sv_sidebar @ sv_duplicate_plan_dialog @ sv_lifecycle @ sv_cart_section @ sv_preferences_modal @ sv_integrations @ sv_provider_fields @ sv_preferences_modal_new_body_placeholder @ sv_print_preview @ sv_chat_drawer_aria_label @ sv_toast_notifications @ sv_per_dinner_rating @ sv_week_level_retrospective @ sv_usage @ sv_backups @ sv_update @ sv_setup"

end
