(* ===== verification/I18n.thy ===== *)
theory I18n
  imports ExternalStore ApiTypes DictEn DictSv
begin

text \<open>
  web/src/i18n/index.ts: translation. \<open>t\<close> looks a key up in the current language, falls
  back to English and then to the key, and fills the \<open>{name}\<close> tokens. Parameter values
  are given as the strings they print as. (A key or token that names a property of
  Object.prototype is outside the model.) The formatting of weekdays and months by the
  Intl API is a parameter of the functions that use it.
\<close>

definition dictionaries :: "Lang \<Rightarrow> jstr \<rightharpoonup> jstr" where
  "dictionaries l = (case l of Sv \<Rightarrow> map_of sv_dict | En \<Rightarrow> map_of en_dict)"

text \<open>The regular expression \<open>/\{(\w+)\}/g\<close>: a brace, word characters, a closing brace.\<close>

definition is_word :: "nat \<Rightarrow> bool" where
  "is_word c \<longleftrightarrow> (48 \<le> c \<and> c \<le> 57) \<or> (65 \<le> c \<and> c \<le> 90) \<or> c = 95 \<or> (97 \<le> c \<and> c \<le> 122)"

definition match_hole :: "jstr \<Rightarrow> (jstr \<times> jstr) option" where
  "match_hole s =
     (let name = takeWhile is_word s in
      case dropWhile is_word s of
        c # r \<Rightarrow> if name \<noteq> [] \<and> c = c_rbrace then Some (name, r) else None
      | [] \<Rightarrow> None)"

lemma match_hole_length: "match_hole s = Some (n, r) \<Longrightarrow> length r < length s"
proof -
  assume "match_hole s = Some (n, r)"
  then have "dropWhile is_word s = c_rbrace # r"
    by (auto simp: match_hole_def Let_def split: list.splits if_splits)
  then show ?thesis using length_dropWhile_le [of is_word s] by simp
qed

function replace_holes :: "(jstr \<Rightarrow> jstr) \<Rightarrow> jstr \<Rightarrow> jstr" where
  "replace_holes f [] = []"
| "replace_holes f (c # cs) =
     (if c = c_lbrace then
        (case match_hole cs of
           Some (name, r) \<Rightarrow> f name @ replace_holes f r
         | None \<Rightarrow> c # replace_holes f cs)
      else c # replace_holes f cs)"
  by pat_completeness auto
termination
  by (relation "measure (\<lambda>(f, s). length s)") (auto dest: match_hole_length)

function placeholders :: "jstr \<Rightarrow> jstr list" where
  "placeholders [] = []"
| "placeholders (c # cs) =
     (if c = c_lbrace then
        (case match_hole cs of
           Some (name, r) \<Rightarrow> name # placeholders r
         | None \<Rightarrow> placeholders cs)
      else placeholders cs)"
  by pat_completeness auto
termination
  by (relation "measure length") (auto dest: match_hole_length)

definition fill :: "(jstr \<rightharpoonup> jstr) \<Rightarrow> jstr \<Rightarrow> jstr" where
  "fill params name = (case params name of Some v \<Rightarrow> v | None \<Rightarrow> [c_lbrace] @ name @ [c_rbrace])"

definition t :: "Lang \<Rightarrow> jstr \<Rightarrow> (jstr \<rightharpoonup> jstr) option \<Rightarrow> jstr" where
  "t currentLang key params =
     (let raw = nullish (dictionaries currentLang key) (nullish (dictionaries En key) key) in
      case params of None \<Rightarrow> raw | Some p \<Rightarrow> replace_holes (fill p) raw)"

fun locale_tag :: "Lang \<Rightarrow> jstr" where
  "locale_tag Sv = js ''sv-SE''"
| "locale_tag En = js ''en-US''"

text \<open>\<open>formatPeriod\<close>; the argument is \<open>formatDayShort\<close> in the current locale.\<close>

definition formatPeriod :: "(jstr \<Rightarrow> jstr) \<Rightarrow> jstr \<Rightarrow> jstr \<Rightarrow> jstr" where
  "formatPeriod dayShort startISO endISO = dayShort startISO @ [32, 8594, 32] @ dayShort endISO"

subsection \<open>The current language as a store\<close>

definition setLang :: "Lang \<Rightarrow> Lang \<Rightarrow> Lang" where
  "setLang l currentLang = (if l = currentLang then currentLang else l)"

definition setLang_notifies :: "Lang \<Rightarrow> Lang \<Rightarrow> bool" where
  "setLang_notifies l currentLang \<longleftrightarrow> l \<noteq> currentLang"

interpretation lang_store: quiet_store setLang setLang_notifies "\<lambda>l. l"
  by unfold_locales (simp_all add: setLang_def setLang_notifies_def)

subsection \<open>Filling tokens\<close>

lemma match_hole_split: "match_hole s = Some (n, r) \<Longrightarrow> s = n @ c_rbrace # r"
proof -
  assume "match_hole s = Some (n, r)"
  then have "takeWhile is_word s = n" "dropWhile is_word s = c_rbrace # r"
    by (auto simp: match_hole_def Let_def split: list.splits if_splits)
  then show ?thesis by (metis takeWhile_dropWhile_id)
qed

lemma replace_holes_id: "replace_holes (\<lambda>n. [c_lbrace] @ n @ [c_rbrace]) s = s"
  by (induction "\<lambda>n::jstr. [c_lbrace] @ n @ [c_rbrace]" s rule: replace_holes.induct)
    (auto split: option.splits dest: match_hole_split)

lemma replace_holes_cong:
  "(\<And>n. n \<in> set (placeholders s) \<Longrightarrow> f n = g n) \<Longrightarrow> replace_holes f s = replace_holes g s"
  by (induction s rule: placeholders.induct) (auto split: option.splits)

lemma replace_holes_no_holes: "placeholders s = [] \<Longrightarrow> replace_holes f s = s"
  using replace_holes_cong [of s f "\<lambda>n. [c_lbrace] @ n @ [c_rbrace]"] replace_holes_id [of s] by simp

text \<open>The tokens of a text put together from literals.\<close>

named_theorems token_simps \<open>evaluation of the tokens of a dictionary text\<close>

lemma of_char_lbrace: "of_char c = (123::nat) \<longleftrightarrow> c = CHR 0x7B"
proof -
  have "(123::nat) = of_char CHR 0x7B" by simp
  then show ?thesis by (metis of_char_eq_iff)
qed

lemma placeholders_skip: "c_lbrace \<notin> set s \<Longrightarrow> placeholders (s @ r) = placeholders r"
  by (induction s) auto

lemma lbrace_js: "c_lbrace \<in> set (js s) \<longleftrightarrow> CHR 0x7B \<in> set s"
  by (simp add: js_def image_iff of_char_lbrace eq_commute [of "123::nat"])

lemma placeholders_js [token_simps]:
  "CHR 0x7B \<notin> set s \<Longrightarrow> placeholders (js s @ r) = placeholders r"
  "CHR 0x7B \<notin> set s \<Longrightarrow> placeholders (js s) = []"
  using placeholders_skip [of "js s" r] placeholders_skip [of "js s" "[]"] by (simp_all add: lbrace_js)

lemma placeholders_unit [token_simps]:
  "placeholders [] = []" "c \<noteq> 123 \<Longrightarrow> placeholders (c # r) = placeholders r"
  by simp_all

lemma word_js [token_simps]:
  "list_all is_word (js [])"
  "list_all is_word (js (c # cs)) \<longleftrightarrow> is_word (of_char c) \<and> list_all is_word (js cs)"
  by (simp_all add: js_Cons)

lemma placeholders_hole [token_simps]:
  "list_all is_word (js n) \<Longrightarrow> n \<noteq> [] \<Longrightarrow> placeholders (hole n @ r) = js n # placeholders r"
  "list_all is_word (js n) \<Longrightarrow> n \<noteq> [] \<Longrightarrow> placeholders (hole n) = [js n]"
proof -
  assume w: "list_all is_word (js n)" and ne: "n \<noteq> []"
  have nw: "\<not> is_word 125" by (simp add: is_word_def)
  have "match_hole (js n @ 125 # r) = Some (js n, r)" for r
    using w ne nw by (simp add: match_hole_def list_all_iff)
  from this [of r] this [of "[]"]
  show "placeholders (hole n @ r) = js n # placeholders r" "placeholders (hole n) = [js n]"
    by (simp_all add: hole_def)
qed

subsection \<open>The two dictionaries agree\<close>

definition holes_of :: "(jstr \<times> jstr) list \<Rightarrow> jstr list list" where
  "holes_of d = map (\<lambda>p. placeholders (snd p)) d"

lemma holes_of_simps [token_simps]:
  "holes_of [] = []" "holes_of ((k, v) # d) = placeholders v # holes_of d"
  by (simp_all add: holes_of_def)


lemma keys_home: "map fst en_home = map fst sv_home"
  by (simp add: en_home_def sv_home_def)

lemma keys_top_bar: "map fst en_top_bar = map fst sv_top_bar"
  by (simp add: en_top_bar_def sv_top_bar_def)

lemma keys_plan_new_form: "map fst en_plan_new_form = map fst sv_plan_new_form"
  by (simp add: en_plan_new_form_def sv_plan_new_form_def)

lemma keys_week_view: "map fst en_week_view = map fst sv_week_view"
  by (simp add: en_week_view_def sv_week_view_def)

lemma keys_dinner_card: "map fst en_dinner_card = map fst sv_dinner_card"
  by (simp add: en_dinner_card_def sv_dinner_card_def)

lemma keys_editable_placeholders: "map fst en_editable_placeholders = map fst sv_editable_placeholders"
  by (simp add: en_editable_placeholders_def sv_editable_placeholders_def)

lemma keys_status_labels: "map fst en_status_labels = map fst sv_status_labels"
  by (simp add: en_status_labels_def sv_status_labels_def)

lemma keys_settings_modal: "map fst en_settings_modal = map fst sv_settings_modal"
  by (simp add: en_settings_modal_def sv_settings_modal_def)

lemma keys_weekdays: "map fst en_weekdays = map fst sv_weekdays"
  by (simp add: en_weekdays_def sv_weekdays_def)

lemma keys_chat: "map fst en_chat = map fst sv_chat"
  by (simp add: en_chat_def sv_chat_def)

lemma keys_calendar_popup: "map fst en_calendar_popup = map fst sv_calendar_popup"
  by (simp add: en_calendar_popup_def sv_calendar_popup_def)

lemma keys_sidebar: "map fst en_sidebar = map fst sv_sidebar"
  by (simp add: en_sidebar_def sv_sidebar_def)

lemma keys_duplicate_plan_dialog: "map fst en_duplicate_plan_dialog = map fst sv_duplicate_plan_dialog"
  by (simp add: en_duplicate_plan_dialog_def sv_duplicate_plan_dialog_def)

lemma keys_lifecycle: "map fst en_lifecycle = map fst sv_lifecycle"
  by (simp add: en_lifecycle_def sv_lifecycle_def)

lemma keys_cart_section: "map fst en_cart_section = map fst sv_cart_section"
  by (simp add: en_cart_section_def sv_cart_section_def)

lemma keys_preferences_modal: "map fst en_preferences_modal = map fst sv_preferences_modal"
  by (simp add: en_preferences_modal_def sv_preferences_modal_def)

lemma keys_integrations: "map fst en_integrations = map fst sv_integrations"
  by (simp add: en_integrations_def sv_integrations_def)

lemma keys_provider_fields: "map fst en_provider_fields = map fst sv_provider_fields"
  by (simp add: en_provider_fields_def sv_provider_fields_def)

lemma keys_preferences_modal_new_body_placeholder: "map fst en_preferences_modal_new_body_placeholder = map fst sv_preferences_modal_new_body_placeholder"
  by (simp add: en_preferences_modal_new_body_placeholder_def sv_preferences_modal_new_body_placeholder_def)

lemma keys_print_preview: "map fst en_print_preview = map fst sv_print_preview"
  by (simp add: en_print_preview_def sv_print_preview_def)

lemma keys_chat_drawer_aria_label: "map fst en_chat_drawer_aria_label = map fst sv_chat_drawer_aria_label"
  by (simp add: en_chat_drawer_aria_label_def sv_chat_drawer_aria_label_def)

lemma keys_toast_notifications: "map fst en_toast_notifications = map fst sv_toast_notifications"
  by (simp add: en_toast_notifications_def sv_toast_notifications_def)

lemma keys_per_dinner_rating: "map fst en_per_dinner_rating = map fst sv_per_dinner_rating"
  by (simp add: en_per_dinner_rating_def sv_per_dinner_rating_def)

lemma keys_week_level_retrospective: "map fst en_week_level_retrospective = map fst sv_week_level_retrospective"
  by (simp add: en_week_level_retrospective_def sv_week_level_retrospective_def)

lemma keys_usage: "map fst en_usage = map fst sv_usage"
  by (simp add: en_usage_def sv_usage_def)

lemma keys_backups: "map fst en_backups = map fst sv_backups"
  by (simp add: en_backups_def sv_backups_def)

lemma keys_update: "map fst en_update = map fst sv_update"
  by (simp add: en_update_def sv_update_def)

lemma keys_setup: "map fst en_setup = map fst sv_setup"
  by (simp add: en_setup_def sv_setup_def)

lemma holes_home: "holes_of en_home = holes_of sv_home"
  by (simp add: en_home_def sv_home_def token_simps is_word_def del: placeholders.simps)

lemma holes_top_bar: "holes_of en_top_bar = holes_of sv_top_bar"
  by (simp add: en_top_bar_def sv_top_bar_def token_simps is_word_def del: placeholders.simps)

lemma holes_plan_new_form: "holes_of en_plan_new_form = holes_of sv_plan_new_form"
  by (simp add: en_plan_new_form_def sv_plan_new_form_def token_simps is_word_def del: placeholders.simps)

lemma holes_week_view: "holes_of en_week_view = holes_of sv_week_view"
  by (simp add: en_week_view_def sv_week_view_def token_simps is_word_def del: placeholders.simps)

lemma holes_dinner_card: "holes_of en_dinner_card = holes_of sv_dinner_card"
  by (simp add: en_dinner_card_def sv_dinner_card_def token_simps is_word_def del: placeholders.simps)

lemma holes_editable_placeholders: "holes_of en_editable_placeholders = holes_of sv_editable_placeholders"
  by (simp add: en_editable_placeholders_def sv_editable_placeholders_def token_simps is_word_def del: placeholders.simps)

lemma holes_status_labels: "holes_of en_status_labels = holes_of sv_status_labels"
  by (simp add: en_status_labels_def sv_status_labels_def token_simps is_word_def del: placeholders.simps)

lemma holes_settings_modal: "holes_of en_settings_modal = holes_of sv_settings_modal"
  by (simp add: en_settings_modal_def sv_settings_modal_def token_simps is_word_def del: placeholders.simps)

lemma holes_weekdays: "holes_of en_weekdays = holes_of sv_weekdays"
  by (simp add: en_weekdays_def sv_weekdays_def token_simps is_word_def del: placeholders.simps)

lemma holes_chat: "holes_of en_chat = holes_of sv_chat"
  by (simp add: en_chat_def sv_chat_def token_simps is_word_def del: placeholders.simps)

lemma holes_calendar_popup: "holes_of en_calendar_popup = holes_of sv_calendar_popup"
  by (simp add: en_calendar_popup_def sv_calendar_popup_def token_simps is_word_def del: placeholders.simps)

lemma holes_sidebar: "holes_of en_sidebar = holes_of sv_sidebar"
  by (simp add: en_sidebar_def sv_sidebar_def token_simps is_word_def del: placeholders.simps)

lemma holes_duplicate_plan_dialog: "holes_of en_duplicate_plan_dialog = holes_of sv_duplicate_plan_dialog"
  by (simp add: en_duplicate_plan_dialog_def sv_duplicate_plan_dialog_def token_simps is_word_def del: placeholders.simps)

lemma holes_lifecycle: "holes_of en_lifecycle = holes_of sv_lifecycle"
  by (simp add: en_lifecycle_def sv_lifecycle_def token_simps is_word_def del: placeholders.simps)

lemma holes_cart_section: "holes_of en_cart_section = holes_of sv_cart_section"
  by (simp add: en_cart_section_def sv_cart_section_def token_simps is_word_def del: placeholders.simps)

lemma holes_preferences_modal: "holes_of en_preferences_modal = holes_of sv_preferences_modal"
  by (simp add: en_preferences_modal_def sv_preferences_modal_def token_simps is_word_def del: placeholders.simps)

lemma holes_integrations: "holes_of en_integrations = holes_of sv_integrations"
  by (simp add: en_integrations_def sv_integrations_def token_simps is_word_def del: placeholders.simps)

lemma holes_provider_fields: "holes_of en_provider_fields = holes_of sv_provider_fields"
  by (simp add: en_provider_fields_def sv_provider_fields_def token_simps is_word_def del: placeholders.simps)

lemma holes_preferences_modal_new_body_placeholder: "holes_of en_preferences_modal_new_body_placeholder = holes_of sv_preferences_modal_new_body_placeholder"
  by (simp add: en_preferences_modal_new_body_placeholder_def sv_preferences_modal_new_body_placeholder_def token_simps is_word_def del: placeholders.simps)

lemma holes_print_preview: "holes_of en_print_preview = holes_of sv_print_preview"
  by (simp add: en_print_preview_def sv_print_preview_def token_simps is_word_def del: placeholders.simps)

lemma holes_chat_drawer_aria_label: "holes_of en_chat_drawer_aria_label = holes_of sv_chat_drawer_aria_label"
  by (simp add: en_chat_drawer_aria_label_def sv_chat_drawer_aria_label_def token_simps is_word_def del: placeholders.simps)

lemma holes_toast_notifications: "holes_of en_toast_notifications = holes_of sv_toast_notifications"
  by (simp add: en_toast_notifications_def sv_toast_notifications_def token_simps is_word_def del: placeholders.simps)

lemma holes_per_dinner_rating: "holes_of en_per_dinner_rating = holes_of sv_per_dinner_rating"
  by (simp add: en_per_dinner_rating_def sv_per_dinner_rating_def token_simps is_word_def del: placeholders.simps)

lemma holes_week_level_retrospective: "holes_of en_week_level_retrospective = holes_of sv_week_level_retrospective"
  by (simp add: en_week_level_retrospective_def sv_week_level_retrospective_def token_simps is_word_def del: placeholders.simps)

lemma holes_usage: "holes_of en_usage = holes_of sv_usage"
  by (simp add: en_usage_def sv_usage_def token_simps is_word_def del: placeholders.simps)

lemma holes_backups: "holes_of en_backups = holes_of sv_backups"
  by (simp add: en_backups_def sv_backups_def token_simps is_word_def del: placeholders.simps)

lemma holes_update: "holes_of en_update = holes_of sv_update"
  by (simp add: en_update_def sv_update_def token_simps is_word_def del: placeholders.simps)

lemma holes_setup: "holes_of en_setup = holes_of sv_setup"
  by (simp add: en_setup_def sv_setup_def token_simps is_word_def del: placeholders.simps)

lemmas keys_agree =
  keys_home keys_top_bar keys_plan_new_form keys_week_view keys_dinner_card
  keys_editable_placeholders keys_status_labels keys_settings_modal keys_weekdays keys_chat
  keys_calendar_popup keys_sidebar keys_duplicate_plan_dialog keys_lifecycle
  keys_cart_section keys_preferences_modal keys_integrations keys_provider_fields
  keys_preferences_modal_new_body_placeholder keys_print_preview keys_chat_drawer_aria_label
  keys_toast_notifications keys_per_dinner_rating keys_week_level_retrospective keys_usage
  keys_backups keys_update keys_setup

lemmas holes_agree =
  holes_home holes_top_bar holes_plan_new_form holes_week_view holes_dinner_card
  holes_editable_placeholders holes_status_labels holes_settings_modal holes_weekdays
  holes_chat holes_calendar_popup holes_sidebar holes_duplicate_plan_dialog holes_lifecycle
  holes_cart_section holes_preferences_modal holes_integrations holes_provider_fields
  holes_preferences_modal_new_body_placeholder holes_print_preview
  holes_chat_drawer_aria_label holes_toast_notifications holes_per_dinner_rating
  holes_week_level_retrospective holes_usage holes_backups holes_update holes_setup

lemma dict_keys: "map fst en_dict = map fst sv_dict"
  by (simp add: en_dict_def sv_dict_def keys_agree)

lemma holes_of_append: "holes_of (a @ b) = holes_of a @ holes_of b"
  by (simp add: holes_of_def)

lemma dict_holes: "holes_of en_dict = holes_of sv_dict"
  by (simp add: en_dict_def sv_dict_def holes_agree holes_of_append)

lemma map_of_same_keys:
  "map fst xs = map fst ys \<Longrightarrow> map (\<lambda>p. h (snd p)) xs = map (\<lambda>p. h (snd p)) ys \<Longrightarrow>
    map_option h (map_of xs k) = map_option h (map_of ys k)"
proof (induction xs arbitrary: ys)
  case (Cons x xs)
  then obtain y ys' where "ys = y # ys'" by (cases ys) auto
  with Cons show ?case by (cases x; cases y) auto
qed simp

lemma same_placeholders:
  "map_option placeholders (dictionaries En k) = map_option placeholders (dictionaries Sv k)"
  using map_of_same_keys [OF dict_keys, of placeholders k] dict_holes
  by (simp add: dictionaries_def holes_of_def)

lemma dictionaries_dom: "dom (dictionaries l) = dom (dictionaries En)"
proof -
  have "fst ` set en_dict = fst ` set sv_dict" using arg_cong [OF dict_keys, of set] by simp
  then show ?thesis by (cases l) (simp_all add: dictionaries_def dom_map_of_conv_image_fst)
qed

subsection \<open>Properties\<close>

text \<open>
  The two dictionaries agree: they have the same keys, and a key's texts have the same
  placeholders in both languages, so no text falls back to the other language or shows an
  unfilled token in one language only.
\<close>

theorem dictionaries_agree:
  "dom (dictionaries l) = dom (dictionaries l') \<and>
   map_option placeholders (dictionaries l k) = map_option placeholders (dictionaries l' k)"
  using dictionaries_dom [of l] dictionaries_dom [of l'] same_placeholders [of k]
  by (cases l; cases l') simp_all

text \<open>
  A translation depends on the parameters only through the placeholders of its text: values
  for other names are ignored, and a text without placeholders is shown as it stands.
\<close>

theorem translation_parameters:
  assumes "\<And>n. n \<in> set (placeholders (t l k None)) \<Longrightarrow> p n = q n"
  shows "t l k (Some p) = t l k (Some q) \<and> (placeholders (t l k None) = [] \<longrightarrow> t l k (Some p) = t l k None)"
proof -
  let ?raw = "t l k None"
  have raw: "t l k (Some f) = replace_holes (fill f) ?raw" for f by (simp add: t_def Let_def)
  have "replace_holes (fill p) ?raw = replace_holes (fill q) ?raw"
    by (rule replace_holes_cong) (simp add: fill_def assms)
  then show ?thesis by (simp add: raw replace_holes_no_holes)
qed

lemma placeholder_words: "n \<in> set (placeholders s) \<Longrightarrow> list_all is_word n"
proof (induction s rule: placeholders.induct)
  case (2 c cs)
  have "list_all is_word m" if "match_hole cs = Some (m, r)" for m r
    using that by (auto simp: match_hole_def Let_def list_all_iff dest: set_takeWhileD split: list.splits if_splits)
  with 2 show ?case by (auto split: if_splits option.splits)
qed simp

theorem translation_parameters_witness:
  "t Sv (js ''week.locked_hint'') (Some [[45] \<mapsto> [122]]) = t Sv (js ''week.locked_hint'') (Some Map.empty)"
proof (rule conjunct1 [OF translation_parameters])
  fix n
  assume "n \<in> set (placeholders (t Sv (js ''week.locked_hint'') None))"
  then have "list_all is_word n" by (rule placeholder_words)
  then show "[[45] \<mapsto> [122]] n = Map.empty n" by (auto simp: is_word_def)
qed

end
