(* ===== verification/AppShell.thy ===== *)
theory AppShell
  imports Chat RouteNav Toast Api I18n
begin

text \<open>
  web/src/App.tsx: the root component and \<open>Main\<close>. The record \<open>app\<close> holds the React state
  of \<open>Main\<close>, the modules' stores it uses (location, toasts, language) and what is in
  flight: the requests of the two effects, each with the token of the effect run that
  sent it, the requests of the handlers with the values their closures captured, and the
  chat stream. The cleanup of an effect sets its \<open>cancelled\<close> flag: a reply is dropped when
  the token is not that of the latest run. One step of \<open>app_step\<close> is one handler or one
  reply, followed by the effects whose dependencies changed (\<open>commit\<close>).
\<close>

subsection \<open>State\<close>

datatype Status = StLoading | StEmpty | StReady | StError

text \<open>What the loader may ask for, and a request of it: token, background flag, request.\<close>

datatype load = ById int | Current

type_synonym pending_load = "nat \<times> bool \<times> load"

record stream =
  st_conversation :: "int option"   \<comment> \<open>conversationID when the message was sent\<close>
  st_week :: "int option"
  st_message :: jstr
  aborted :: bool

text \<open>A request of a handler, with what its closure captured.\<close>

datatype app_request =
    ReqCreate WeekCreate
  | ReqClone int jstr
  | ReqDelete int "int option"      \<comment> \<open>target, id of the week shown when asked\<close>
  | ReqPatch int WeekPatch
  | ReqClear int

record app =
  hist :: history
  app_toasts :: "unit toast_state"
  lang :: Lang
  status :: Status
  week :: "WeekDetail option"
  errorText :: "jstr option"
  chatOpen :: bool
  sidebarOpen :: bool
  chatEntries :: "ChatEntry list"
  refs :: turn
  busy :: bool
  conversationID :: "int option"
  activeDay :: "jstr option"
  sidebarRefresh :: nat
  loadKey :: nat
  duplicateSource :: "WeekSummary option"
  loader_deps :: "(jstr \<times> nat \<times> int option) option"
  loader_token :: nat
  loads :: "pending_load list"
  chat_deps :: "int option option"
  chat_token :: nat
  chat_loads :: "(nat \<times> int) list"
  streaming :: "stream option"
  requests :: "app_request list"

abbreviation route :: "app \<Rightarrow> Route" where
  "route s \<equiv> useRoute (hist s)"

definition week_key :: "app \<Rightarrow> int option" where
  "week_key s = map_option week_id (week s)"

fun routeLoadKey :: "Route \<Rightarrow> jstr" where
  "routeLoadKey (RWeek i) = js ''week:'' @ dec_int i"
| "routeLoadKey (RPrint i) = js ''print:'' @ dec_int i"
| "routeLoadKey RHome = js ''home''"
| "routeLoadKey RNew = js ''new''"
| "routeLoadKey RSettings = js ''settings''"
| "routeLoadKey RPreferences = js ''preferences''"
| "routeLoadKey RUsage = js ''usage''"
| "routeLoadKey RSetup = js ''setup''"

definition toast_error :: "jstr \<Rightarrow> app \<Rightarrow> app" where
  "toast_error msg s = s\<lparr>app_toasts := snd (add Error msg no_opts (app_toasts s))\<rparr>"

definition toast_success :: "jstr \<Rightarrow> app \<Rightarrow> app" where
  "toast_success msg s = s\<lparr>app_toasts := snd (add Success msg no_opts (app_toasts s))\<rparr>"

definition go :: "Route \<Rightarrow> bool \<Rightarrow> app \<Rightarrow> app" where
  "go r rep s = s\<lparr>hist := navigate r rep (hist s)\<rparr>"

subsection \<open>The loader\<close>

text \<open>The request of a run of the loader, with the background flag of the plan form.\<close>

definition load_request :: "Route \<Rightarrow> int option \<Rightarrow> (bool \<times> load) option" where
  "load_request r wk =
     (case r of
        RHome \<Rightarrow> None
      | RNew \<Rightarrow> (if wk = None then Some (True, Current) else None)
      | RWeek i \<Rightarrow> Some (False, ById i)
      | _ \<Rightarrow> (case wk of
                Some j \<Rightarrow> if j \<noteq> 0 then Some (False, ById j) else Some (False, Current)
              | None \<Rightarrow> Some (False, Current)))"

definition run_loader :: "app \<Rightarrow> app" where
  "run_loader s =
     (let s' = (if route s = RHome then s\<lparr>status := StReady, sidebarRefresh := sidebarRefresh s + 1\<rparr>
                else s)
      in case load_request (route s) (week_key s) of
           None \<Rightarrow> s'
         | Some (bg, rq) \<Rightarrow> s'\<lparr>loads := loads s @ [(loader_token s, bg, rq)]\<rparr>)"

definition deps_of :: "app \<Rightarrow> jstr \<times> nat \<times> int option" where
  "deps_of s = (routeLoadKey (route s), loadKey s, week_key s)"

definition loader_effect :: "app \<Rightarrow> app" where
  "loader_effect s =
     (if loader_deps s = Some (deps_of s) then s
      else run_loader (s\<lparr>loader_deps := Some (deps_of s), loader_token := loader_token s + 1\<rparr>))"

text \<open>A reply: the week found, \<open>None\<close> for "no week", or a failure.\<close>

definition load_reply :: "pending_load \<Rightarrow> jstr + WeekDetail option \<Rightarrow> app \<Rightarrow> app" where
  "load_reply p reply s =
     (let (tok, bg, rq) = p; s0 = s\<lparr>loads := remove1 p (loads s)\<rparr> in
      if tok \<noteq> loader_token s then s0
      else case reply of
          Inl e \<Rightarrow> s0\<lparr>errorText := Some e, status := StError\<rparr>
        | Inr (Some w) \<Rightarrow>
            s0\<lparr>week := Some w, status := StReady,
               sidebarRefresh := (if bg then sidebarRefresh s else sidebarRefresh s + 1)\<rparr>
        | Inr None \<Rightarrow>
            (if bg then s0 else s0\<lparr>status := StEmpty, sidebarRefresh := sidebarRefresh s + 1\<rparr>))"

subsection \<open>The stored conversation of the week\<close>

definition forget_chat :: "app \<Rightarrow> app" where
  "forget_chat s = s\<lparr>chatEntries := [], conversationID := None\<rparr>"

definition chat_effect :: "app \<Rightarrow> app" where
  "chat_effect s =
     (if chat_deps s = Some (week_key s) then s
      else let s' = s\<lparr>chat_deps := Some (week_key s), chat_token := chat_token s + 1\<rparr> in
        case week_key s of
          None \<Rightarrow> forget_chat s'
        | Some i \<Rightarrow> s'\<lparr>chat_loads := chat_loads s @ [(chat_token s + 1, i)]\<rparr>)"

definition stored_entry :: "Message \<Rightarrow> ChatEntry" where
  "stored_entry m =
     (if msg_role m = RoleUser then UserEntry (msg_text m) else AssistantEntry (msg_text m))"

definition chat_reply ::
    "nat \<times> int \<Rightarrow> jstr + (Conversation \<times> Message list) option \<Rightarrow> app \<Rightarrow> app" where
  "chat_reply p reply s =
     (let s0 = s\<lparr>chat_loads := remove1 p (chat_loads s)\<rparr> in
      if fst p \<noteq> chat_token s then s0
      else case reply of
          Inr (Some (c, ms)) \<Rightarrow>
            s0\<lparr>conversationID := Some (conv_id c), chatEntries := map stored_entry ms\<rparr>
        | _ \<Rightarrow> forget_chat s0)"

text \<open>The effects that run after a handler: the loader's, then the conversation's.\<close>

definition commit :: "app \<Rightarrow> app" where
  "commit s = chat_effect (loader_effect s)"

subsection \<open>The chat turn\<close>

definition bumpLoad :: "app \<Rightarrow> app" where
  "bumpLoad s = s\<lparr>loadKey := loadKey s + 1\<rparr>"

text \<open>
  The day in the input of an \<open>add_dinner\<close> call; a text that is not JSON, or null, throws
  and is ignored. A \<open>day_date\<close> is a string, as the cast in the source says.
\<close>

definition parsed_day :: "(jstr \<Rightarrow> json option) \<Rightarrow> jstr \<Rightarrow> jstr option" where
  "parsed_day pj input =
     (case pj input of
        Some (JObj kvs) \<Rightarrow>
          (case map_of kvs (js ''day_date'') of
             Some (JStr d) \<Rightarrow> if truthy d then Some d else None
           | _ \<Rightarrow> None)
      | _ \<Rightarrow> None)"

definition mark_day :: "(jstr \<Rightarrow> json option) \<Rightarrow> AgentEvent \<Rightarrow> app \<Rightarrow> app" where
  "mark_day pj ev s =
     (if ev_type ev = EvToolCall \<and> ev_tool ev = Some (js ''add_dinner'') then
        (case ev_input ev of
           Some i \<Rightarrow>
             (if truthy i then
                (case parsed_day pj i of Some d \<Rightarrow> s\<lparr>activeDay := Some d\<rparr> | None \<Rightarrow> s)
              else s)
         | None \<Rightarrow> s)
      else s)"

definition is_mutation :: "AgentEvent \<Rightarrow> bool" where
  "is_mutation ev \<longleftrightarrow>
     ev_type ev = EvToolResult \<and>
     (case ev_tool ev of Some tool \<Rightarrow> truthy tool \<and> tool \<in> set MUTATING_TOOLS | None \<Rightarrow> False)"

definition handleAgentEvent :: "(jstr \<Rightarrow> json option) \<Rightarrow> AgentEvent \<Rightarrow> app \<Rightarrow> app" where
  "handleAgentEvent pj ev s =
     (let (es, r) = applyAgentEvent ev (chatEntries s, refs s);
          s1 = mark_day pj ev (s\<lparr>chatEntries := es, refs := r\<rparr>)
      in if is_mutation ev then bumpLoad s1 else s1)"

definition send :: "jstr \<Rightarrow> app \<Rightarrow> app" where
  "send msg s =
     (if busy s then s
      else s\<lparr>busy := True, chatOpen := True, refs := init_turn,
             chatEntries := chatEntries s @ [UserEntry msg],
             streaming := Some \<lparr>st_conversation = conversationID s, st_week = week_key s,
                                st_message = msg, aborted = False\<rparr>\<rparr>)"

definition on_meta :: "int \<Rightarrow> stream \<Rightarrow> app \<Rightarrow> app" where
  "on_meta cid st s =
     (if st_conversation st = None then s\<lparr>conversationID := Some cid\<rparr> else s)"

text \<open>The stream's promise settles: the catch branch, then the finally block.\<close>

definition end_turn :: "jstr option \<Rightarrow> stream \<Rightarrow> app \<Rightarrow> app" where
  "end_turn failure st s =
     (let s1 = (case failure of
                  None \<Rightarrow> s
                | Some e \<Rightarrow>
                    (if aborted st then s\<lparr>chatEntries := chatEntries s @ [CancelledEntry]\<rparr>
                     else s\<lparr>chatEntries := chatEntries s @ [ErrorEntry e]\<rparr>))
      in bumpLoad (s1\<lparr>streaming := None, busy := False, activeDay := None\<rparr>))"

definition cancel :: "app \<Rightarrow> app" where
  "cancel s = s\<lparr>streaming := map_option (\<lambda>st. st\<lparr>aborted := True\<rparr>) (streaming s)\<rparr>"

subsection \<open>The other handlers\<close>

definition ask :: "app_request \<Rightarrow> app \<Rightarrow> app" where
  "ask q s = s\<lparr>requests := requests s @ [q]\<rparr>"

definition answered :: "app_request \<Rightarrow> app \<Rightarrow> app" where
  "answered q s = s\<lparr>requests := remove1 q (requests s)\<rparr>"

text \<open>
  \<open>createNewPlan\<close> after the reply; a failure is thrown on to the form, which drops it.
\<close>

definition created_plan :: "jstr + WeekDetail \<Rightarrow> app \<Rightarrow> app" where
  "created_plan reply s =
     (case reply of
        Inl e \<Rightarrow> s
      | Inr w \<Rightarrow>
          go (RWeek (week_id w)) True
            (forget_chat (s\<lparr>week := Some w, status := StReady, sidebarRefresh := sidebarRefresh s + 1\<rparr>)))"

definition requestDuplicate :: "WeekSummary \<Rightarrow> app \<Rightarrow> app" where
  "requestDuplicate source s = s\<lparr>duplicateSource := Some source\<rparr>"

definition confirmDuplicate :: "jstr \<Rightarrow> app \<Rightarrow> app" where
  "confirmDuplicate startDate s =
     (case duplicateSource s of None \<Rightarrow> s | Some src \<Rightarrow> ask (ReqClone (week_id src) startDate) s)"

definition cloned_plan :: "jstr + WeekDetail \<Rightarrow> app \<Rightarrow> app" where
  "cloned_plan reply s =
     (case reply of
        Inl e \<Rightarrow> toast_error e s
      | Inr w \<Rightarrow>
          go (RWeek (week_id w)) False
            (s\<lparr>sidebarRefresh := sidebarRefresh s + 1, duplicateSource := None\<rparr>))"

text \<open>\<open>confirmed\<close> is the user's answer to \<open>window.confirm\<close>.\<close>

definition deletePlan :: "WeekSummary \<Rightarrow> bool \<Rightarrow> app \<Rightarrow> app" where
  "deletePlan target confirmed s =
     (if \<not> confirmed then s else ask (ReqDelete (week_id target) (week_key s)) s)"

definition deleted_plan :: "int \<Rightarrow> int option \<Rightarrow> jstr + unit \<Rightarrow> app \<Rightarrow> app" where
  "deleted_plan target viewed reply s =
     (case reply of
        Inl e \<Rightarrow> toast_error e s
      | Inr _ \<Rightarrow>
          (let s1 = toast_success (I18n.t (lang s) (js ''toast.week_deleted'') None)
                      (s\<lparr>sidebarRefresh := sidebarRefresh s + 1\<rparr>)
           in if viewed = Some target then go RHome True (s1\<lparr>week := None, status := StReady\<rparr>)
              else s1))"

definition clearChat :: "app \<Rightarrow> app" where
  "clearChat s = (case week_key s of None \<Rightarrow> s | Some i \<Rightarrow> ask (ReqClear i) (cancel s))"

definition cleared_chat :: "jstr + unit \<Rightarrow> app \<Rightarrow> app" where
  "cleared_chat reply s =
     forget_chat (case reply of Inl e \<Rightarrow> toast_error e s | Inr _ \<Rightarrow> s)"

definition patchCurrentWeek :: "WeekPatch \<Rightarrow> app \<Rightarrow> app" where
  "patchCurrentWeek p s = (case week_key s of None \<Rightarrow> s | Some i \<Rightarrow> ask (ReqPatch i p) s)"

text \<open>The reply to a patch; a failure is shown and rethrown, so the editor stays open.\<close>

definition patched_week :: "jstr + WeekDetail \<Rightarrow> app \<Rightarrow> (jstr option) \<times> app" where
  "patched_week reply s =
     (case reply of
        Inl e \<Rightarrow> (Some e, toast_error e s)
      | Inr w \<Rightarrow> (None, s\<lparr>week := Some w\<rparr>))"

text \<open>The language, loaded once when the component mounts.\<close>

definition settings_reply :: "jstr + Lang \<Rightarrow> app \<Rightarrow> app" where
  "settings_reply reply s =
     (case reply of
        Inr l \<Rightarrow> s\<lparr>lang := setLang l (lang s)\<rparr>
      | Inl e \<Rightarrow>
          toast_error (I18n.t (lang s) (js ''toast.network_error'') None @ js '': '' @ e) s)"

text \<open>Cancelling the plan form goes back, or to the week that is loaded, or home.\<close>

definition cancel_plan :: "app \<Rightarrow> nav_result" where
  "cancel_plan s =
     goBack (case week_key s of Some i \<Rightarrow> RWeek i | None \<Rightarrow> RHome) (hist s)"

subsection \<open>What the page shows\<close>

datatype MainView =
    ViewPlanForm bool          \<comment> \<open>has a cancel button\<close>
  | ViewHome | ViewLoading | ViewError "jstr option" | ViewWeek WeekDetail | ViewNothing

definition main_view :: "app \<Rightarrow> MainView" where
  "main_view s =
     (if route s = RNew then ViewPlanForm True
      else if route s = RHome then ViewHome
      else case status s of
          StLoading \<Rightarrow> ViewLoading
        | StError \<Rightarrow> ViewError (errorText s)
        | StEmpty \<Rightarrow> ViewPlanForm False
        | StReady \<Rightarrow> (case week s of Some w \<Rightarrow> ViewWeek w | None \<Rightarrow> ViewNothing))"

definition selectedID :: "app \<Rightarrow> int option" where
  "selectedID s =
     (case route s of RWeek i \<Rightarrow> Some i | RHome \<Rightarrow> None | _ \<Rightarrow> week_key s)"

definition plan_new_disabled :: "app \<Rightarrow> bool" where
  "plan_new_disabled s \<longleftrightarrow> busy s \<or> route s = RNew"

definition init_app :: "history \<Rightarrow> app" where
  "init_app h =
     \<lparr>hist = h, app_toasts = init_toasts, lang = Sv, status = StLoading, week = None,
      errorText = None, chatOpen = False, sidebarOpen = False, chatEntries = [], refs = init_turn,
      busy = False, conversationID = None, activeDay = None, sidebarRefresh = 0, loadKey = 0,
      duplicateSource = None, loader_deps = None, loader_token = 0, loads = [],
      chat_deps = None, chat_token = 0, chat_loads = [], streaming = None, requests = []\<rparr>"

subsection \<open>The step relation\<close>

text \<open>
  What the replies rely on: the server answers a request for (or a patch of) the week of
  an id with the week of that id, and gives a new week an id that a path can carry.
\<close>

fun load_reply_ok :: "load \<Rightarrow> jstr + WeekDetail option \<Rightarrow> bool" where
  "load_reply_ok (ById i) (Inr (Some w)) = (week_id w = i)"
| "load_reply_ok (ById i) (Inr None) = False"
| "load_reply_ok _ _ = True"

fun patch_reply_ok :: "int \<Rightarrow> jstr + WeekDetail \<Rightarrow> bool" where
  "patch_reply_ok i (Inr w) = (week_id w = i)"
| "patch_reply_ok i (Inl e) = True"

fun new_reply_ok :: "jstr + WeekDetail \<Rightarrow> bool" where
  "new_reply_ok (Inr w) = valid_route (RWeek (week_id w))"
| "new_reply_ok (Inl e) = True"

text \<open>\<open>Main\<close> is mounted on every route but those of the print view.\<close>

definition in_main :: "history \<Rightarrow> bool" where
  "in_main h \<longleftrightarrow> (case useRoute h of RPrint _ \<Rightarrow> False | _ \<Rightarrow> True)"

inductive app_step :: "(jstr \<Rightarrow> json option) \<Rightarrow> app \<Rightarrow> app \<Rightarrow> bool" for pj where
  load_arrives: "p \<in> set (loads s) \<Longrightarrow> load_reply_ok (snd (snd p)) reply \<Longrightarrow>
    app_step pj s (commit (load_reply p reply s))"
| chat_arrives: "q \<in> set (chat_loads s) \<Longrightarrow> app_step pj s (commit (chat_reply q creply s))"
| user_sends: "app_step pj s (commit (send msg s))"
| meta_arrives: "streaming s = Some st \<Longrightarrow> app_step pj s (commit (on_meta cid st s))"
| event_arrives: "streaming s = Some st \<Longrightarrow> app_step pj s (commit (handleAgentEvent pj ev s))"
| turn_ends: "streaming s = Some st \<Longrightarrow> app_step pj s (commit (end_turn failure st s))"
| user_cancels: "app_step pj s (commit (cancel s))"
| plan_submitted: "app_step pj s (commit (ask (ReqCreate wc) s))"
| plan_created: "ReqCreate wc \<in> set (requests s) \<Longrightarrow> new_reply_ok wreply \<Longrightarrow>
    app_step pj s (commit (created_plan wreply (answered (ReqCreate wc) s)))"
| duplicate_asked: "app_step pj s (commit (requestDuplicate src s))"
| duplicate_dropped: "app_step pj s (commit (s\<lparr>duplicateSource := None\<rparr>))"
| duplicate_confirmed: "app_step pj s (commit (confirmDuplicate d s))"
| plan_cloned: "ReqClone i d \<in> set (requests s) \<Longrightarrow> new_reply_ok wreply \<Longrightarrow>
    app_step pj s (commit (cloned_plan wreply (answered (ReqClone i d) s)))"
| delete_asked: "app_step pj s (commit (deletePlan target confirmed s))"
| plan_deleted: "ReqDelete i viewed \<in> set (requests s) \<Longrightarrow>
    app_step pj s (commit (deleted_plan i viewed ureply (answered (ReqDelete i viewed) s)))"
| clear_asked: "app_step pj s (commit (clearChat s))"
| chat_cleared: "ReqClear i \<in> set (requests s) \<Longrightarrow>
    app_step pj s (commit (cleared_chat ureply (answered (ReqClear i) s)))"
| patch_asked: "app_step pj s (commit (patchCurrentWeek patch s))"
| week_patched: "ReqPatch i patch \<in> set (requests s) \<Longrightarrow> patch_reply_ok i wreply \<Longrightarrow>
    app_step pj s (commit (snd (patched_week wreply (answered (ReqPatch i patch) s))))"
| user_refreshes: "app_step pj s (commit (bumpLoad s))"
| settings_arrive: "app_step pj s (commit (settings_reply lreply s))"
| user_navigates: "in_main (navigate r rep (hist s)) \<Longrightarrow> app_step pj s (commit (go r rep s))"
| history_moves: "in_main h \<Longrightarrow> app_step pj s (commit (s\<lparr>hist := h\<rparr>))"
| panels_toggle: "app_step pj s (commit (s\<lparr>chatOpen := a, sidebarOpen := b\<rparr>))"

inductive app_reachable :: "(jstr \<Rightarrow> json option) \<Rightarrow> app \<Rightarrow> bool" for pj where
  mounted: "in_main h \<Longrightarrow> app_reachable pj (commit (init_app h))"
| stepped: "app_reachable pj s \<Longrightarrow> app_step pj s s' \<Longrightarrow> app_reachable pj s'"

inductive_cases app_stepE: "app_step pj s s'"

subsection \<open>The invariant of the loader\<close>

lemma dec_int_inject: "dec_int i = dec_int j \<longleftrightarrow> i = j"
proof -
  have ne: "dec n \<noteq> c_dash # dec m" for n m
  proof
    assume "dec n = c_dash # dec m"
    then have "is_digit c_dash" using digits_dec [of c_dash n] by simp
    then show False by (simp add: is_digit_def)
  qed
  show ?thesis using ne ne [symmetric] by (auto simp: dec_int_def)
qed

lemma routeLoadKey_inject: "routeLoadKey r = routeLoadKey r' \<Longrightarrow> r = r'"
  by (cases r; cases r') (simp_all add: js_def dec_int_inject)

lemma home_key: "routeLoadKey r = js ''home'' \<Longrightarrow> r = RHome"
  using routeLoadKey_inject [of r RHome] by simp

definition live :: "app \<Rightarrow> bool" where
  "live s \<longleftrightarrow> (\<exists>p \<in> set (loads s). fst p = loader_token s)"

text \<open>No reply is awaited: the page has settled on what the URL names, or on an error.\<close>

definition settled_at :: "Route \<Rightarrow> Status \<Rightarrow> int option \<Rightarrow> bool" where
  "settled_at r st wk \<longleftrightarrow>
     (case r of
        RWeek i \<Rightarrow> st = StError \<or> (st = StReady \<and> wk = Some i)
      | RNew \<Rightarrow> True
      | _ \<Rightarrow> st \<noteq> StLoading)"

definition settled :: "app \<Rightarrow> bool" where
  "settled s \<longleftrightarrow> settled_at (route s) (status s) (week_key s)"

definition synced :: "app \<Rightarrow> bool" where
  "synced s \<longleftrightarrow> loader_deps s = Some (deps_of s)"

definition loads_ok :: "app \<Rightarrow> bool" where
  "loads_ok s \<longleftrightarrow>
     (\<forall>p \<in> set (loads s). fst p \<le> loader_token s \<and>
        (synced s \<and> fst p = loader_token s \<longrightarrow> load_request (route s) (week_key s) = Some (snd p)))"

definition pre_inv :: "app \<Rightarrow> bool" where
  "pre_inv s \<longleftrightarrow> loads_ok s \<and> (synced s \<longrightarrow> live s \<or> settled s)"

definition loader_inv :: "app \<Rightarrow> bool" where
  "loader_inv s \<longleftrightarrow> synced s \<and> loads_ok s \<and> (live s \<or> settled s)"

lemmas inv_defs = loader_inv_def pre_inv_def loads_ok_def synced_def live_def settled_def
  deps_of_def week_key_def

lemma run_loader_frame [simp]:
  "hist (run_loader s) = hist s" "week (run_loader s) = week s" "loadKey (run_loader s) = loadKey s"
  "loader_deps (run_loader s) = loader_deps s" "loader_token (run_loader s) = loader_token s"
  by (simp_all add: run_loader_def Let_def split: option.splits prod.splits)

lemma run_loader_loads:
  "loads (run_loader s) = loads s @
     (case load_request (route s) (week_key s) of None \<Rightarrow> [] | Some (bg, rq) \<Rightarrow> [(loader_token s, bg, rq)])"
  by (simp add: run_loader_def Let_def split: option.splits prod.splits)

lemma run_loader_home: "route s = RHome \<Longrightarrow> status (run_loader s) = StReady"
  by (simp add: run_loader_def load_request_def)

lemma no_request: "load_request r wk = None \<Longrightarrow> r = RHome \<or> r = RNew"
  by (auto simp: load_request_def split: Route.splits option.splits if_splits)

lemma loader_effect_inv:
  assumes "pre_inv s"
  shows "loader_inv (loader_effect s)"
proof (cases "synced s")
  case True
  with assms show ?thesis by (simp add: loader_effect_def inv_defs)
next
  case False
  let ?u = "s\<lparr>loader_deps := Some (deps_of s), loader_token := loader_token s + 1\<rparr>"
  have eq: "loader_effect s = run_loader ?u"
    using False by (simp add: loader_effect_def synced_def)
  have wk: "week_key (run_loader ?u) = week_key s" by (simp add: week_key_def)
  have sy: "synced (run_loader ?u)" by (simp add: synced_def deps_of_def week_key_def)
  have old: "fst p \<le> loader_token s" if "p \<in> set (loads s)" for p
    using assms that by (simp add: pre_inv_def loads_ok_def)
  have ok: "loads_ok (run_loader ?u)"
    unfolding loads_ok_def run_loader_loads wk
    by (auto simp: week_key_def dest: old split: option.splits prod.splits)
  have "live (run_loader ?u) \<or> settled (run_loader ?u)"
  proof (cases "load_request (route s) (week_key s)")
    case None
    with no_request [OF None] show ?thesis
      using run_loader_home [of ?u] by (auto simp: settled_def settled_at_def)
  next
    case (Some a)
    then show ?thesis
      by (auto simp: live_def run_loader_loads week_key_def split: prod.splits)
  qed
  with sy ok show ?thesis by (simp add: eq loader_inv_def)
qed

text \<open>What the invariant looks at.\<close>

definition core ::
    "app \<Rightarrow> history \<times> int option \<times> nat \<times> (jstr \<times> nat \<times> int option) option \<times> nat
       \<times> pending_load list \<times> Status" where
  "core s = (hist s, week_key s, loadKey s, loader_deps s, loader_token s, loads s, status s)"

lemma core_inv: "core s' = core s \<Longrightarrow> loader_inv s \<Longrightarrow> loader_inv s'"
  by (simp add: core_def loader_inv_def loads_ok_def synced_def live_def settled_def deps_of_def)

lemma pre_inv_of: "loader_inv s \<Longrightarrow> pre_inv s"
  by (simp add: loader_inv_def pre_inv_def)

lemma core_chat_effect: "core (chat_effect s) = core s"
  by (simp add: core_def chat_effect_def forget_chat_def Let_def week_key_def split: option.splits)

lemma commit_inv: "pre_inv s \<Longrightarrow> loader_inv (commit s)"
  unfolding commit_def by (rule core_inv [OF core_chat_effect]) (rule loader_effect_inv)

text \<open>A handler that leaves the core alone, and one that changes the loader's dependencies.\<close>

lemma commit_core: "core s' = core s \<Longrightarrow> loader_inv s \<Longrightarrow> loader_inv (commit s')"
  by (rule commit_inv) (rule pre_inv_of, rule core_inv)

lemma commit_unsynced:
  assumes "loads s' = loads s" "loader_token s' = loader_token s" "\<not> synced s'" "loader_inv s"
  shows "loader_inv (commit s')"
  using assms by (intro commit_inv) (auto simp: pre_inv_def loader_inv_def loads_ok_def)

lemma commit_nav:
  assumes inv: "loader_inv s"
    and frame: "week_key s' = week_key s" "loadKey s' = loadKey s" "loader_deps s' = loader_deps s"
      "loader_token s' = loader_token s" "loads s' = loads s" "status s' = status s"
  shows "loader_inv (commit s')"
proof (cases "synced s'")
  case True
  with inv have "route s' = route s"
    by (intro routeLoadKey_inject) (simp add: synced_def loader_inv_def deps_of_def frame)
  with inv have "pre_inv s'"
    by (simp add: frame loader_inv_def pre_inv_def loads_ok_def synced_def live_def settled_def deps_of_def)
  then show ?thesis by (rule commit_inv)
next
  case False
  with inv frame show ?thesis by (intro commit_unsynced [of s' s])
qed

text \<open>The handlers that leave the core alone.\<close>

lemma core_handlers:
  "core (send msg s) = core s" "core (on_meta cid st s) = core s" "core (cancel s) = core s"
  "core (ask q s) = core s" "core (answered q s) = core s" "core (requestDuplicate src s) = core s"
  "core (confirmDuplicate d s) = core s" "core (deletePlan tgt c s) = core s"
  "core (clearChat s) = core s" "core (patchCurrentWeek pa s) = core s"
  "core (toast_error e s) = core s" "core (toast_success e s) = core s"
  "core (forget_chat s) = core s" "core (chat_reply cq creply s) = core s"
  "core (settings_reply lreply s) = core s" "core (cleared_chat ureply s) = core s"
  "core (mark_day pj ev s) = core s"
  by (simp_all add: core_def week_key_def send_def on_meta_def cancel_def ask_def answered_def
      requestDuplicate_def confirmDuplicate_def deletePlan_def clearChat_def patchCurrentWeek_def
      toast_error_def toast_success_def forget_chat_def chat_reply_def settings_reply_def
      cleared_chat_def mark_day_def Let_def split: option.splits sum.splits prod.splits)

lemma bump_unsynced: "loader_inv s \<Longrightarrow> core s' = core s \<Longrightarrow> loader_inv (commit (bumpLoad s'))"
proof (rule commit_unsynced [of _ s])
  assume inv: "loader_inv s" and c: "core s' = core s"
  show "loads (bumpLoad s') = loads s" "loader_token (bumpLoad s') = loader_token s"
    using c by (simp_all add: bumpLoad_def core_def)
  have "loader_deps s = Some (deps_of s)" using inv by (simp add: loader_inv_def synced_def)
  then show "\<not> synced (bumpLoad s')"
    using c by (simp add: synced_def deps_of_def bumpLoad_def core_def)
qed

lemma handle_event_inv: "loader_inv s \<Longrightarrow> loader_inv (commit (handleAgentEvent pj ev s))"
proof -
  assume inv: "loader_inv s"
  obtain es r where er: "applyAgentEvent ev (chatEntries s, refs s) = (es, r)" by fastforce
  define s1 where "s1 = mark_day pj ev (s\<lparr>chatEntries := es, refs := r\<rparr>)"
  have "core s1 = core s"
    unfolding s1_def core_handlers by (simp add: core_def week_key_def)
  then show ?thesis
    using bump_unsynced [OF inv, of s1] commit_core [OF _ inv, of s1]
    by (simp add: handleAgentEvent_def er Let_def s1_def [symmetric])
qed

lemma end_turn_inv: "loader_inv s \<Longrightarrow> loader_inv (commit (end_turn failure st s))"
  unfolding end_turn_def Let_def
  by (erule bump_unsynced) (auto simp: core_def week_key_def split: option.splits)

lemma load_reply_inv:
  assumes inv: "loader_inv s" and p: "p \<in> set (loads s)" and ok: "load_reply_ok (snd (snd p)) reply"
  shows "loader_inv (commit (load_reply p reply s))"
proof -
  obtain tok bg rq where p3: "p = (tok, bg, rq)" by (cases p)
  have sy: "synced s" and lo: "loads_ok s" and ls: "live s \<or> settled s"
    using inv by (auto simp: loader_inv_def)
  have sub: "set (remove1 p (loads s)) \<subseteq> set (loads s)" by (rule set_remove1_subset)
  show ?thesis
  proof (cases "tok = loader_token s")
    case False
    then have eq: "load_reply p reply s = s\<lparr>loads := remove1 p (loads s)\<rparr>" (is "_ = ?r")
      by (simp add: load_reply_def p3)
    have "live s \<Longrightarrow> live ?r"
      using False by (auto simp: live_def p3 in_set_remove1)
    moreover have "loads_ok ?r"
      using lo sub by (auto simp: loads_ok_def synced_def deps_of_def week_key_def)
    ultimately show ?thesis
      unfolding eq using sy ls
      by (intro commit_inv) (auto simp: pre_inv_def settled_def week_key_def)
  next
    case True
    let ?r = "load_reply p reply s"
    have rq: "load_request (route s) (week_key s) = Some (bg, rq)"
      using lo p sy True by (auto simp: loads_ok_def p3)
    have frame: "route ?r = route s" "loadKey ?r = loadKey s" "loader_deps ?r = loader_deps s"
      "loader_token ?r = loader_token s" "loads ?r = remove1 p (loads s)"
      by (simp_all add: load_reply_def p3 Let_def split: sum.splits option.splits)
    have wk: "week_key ?r = week_key s" if "synced ?r"
      using that sy by (simp add: synced_def deps_of_def frame)
    have "loads_ok ?r"
      using lo sub wk sy by (auto simp: loads_ok_def frame)
    moreover have "settled ?r"
    proof (cases "route s")
      case (RWeek i)
      then have "rq = ById i" using rq by (simp add: load_request_def)
      with RWeek ok True show ?thesis
        by (auto simp: settled_def settled_at_def frame load_reply_def p3 Let_def week_key_def
            split: sum.splits option.splits)
    qed (use rq True in \<open>auto simp: settled_def settled_at_def load_reply_def p3 Let_def week_key_def
            load_request_def split: sum.splits option.splits if_splits\<close>)
    ultimately show ?thesis by (intro commit_inv) (simp add: pre_inv_def)
  qed
qed

text \<open>The reply to the latest request ends the loading, whatever it is.\<close>

lemma load_reply_status:
  "fst p = loader_token s \<Longrightarrow> status (load_reply p reply s) \<noteq> StLoading \<or>
     (fst (snd p) \<and> reply = Inr None \<and> status (load_reply p reply s) = status s)"
  by (auto simp: load_reply_def Let_def split: prod.splits sum.splits option.splits)

lemma commit_view_frame:
  "hist (commit s) = hist s" "week (commit s) = week s"
  "status (commit s) = status s \<or> status (commit s) = StReady"
proof -
  have ch: "hist (chat_effect u) = hist u" "week (chat_effect u) = week u" "status (chat_effect u) = status u" for u
    by (simp_all add: chat_effect_def forget_chat_def Let_def split: option.splits)
  have rn: "status (run_loader u) = status u \<or> status (run_loader u) = StReady" for u
    by (simp add: run_loader_def Let_def split: option.splits prod.splits)
  show "hist (commit s) = hist s" "week (commit s) = week s"
    by (simp_all add: commit_def ch loader_effect_def)
  show "status (commit s) = status s \<or> status (commit s) = StReady"
    using rn [of "s\<lparr>loader_deps := Some (deps_of s), loader_token := loader_token s + 1\<rparr>"]
    by (simp add: commit_def ch loader_effect_def)
qed

lemma background_route: "load_request r wk = Some (True, rq) \<Longrightarrow> r = RNew"
  by (auto simp: load_request_def split: Route.splits option.splits if_splits)

lemma reply_ends_loading:
  assumes "loader_inv s" and "p \<in> set (loads s)" and "fst p = loader_token s"
  shows "main_view (commit (load_reply p reply s)) \<noteq> ViewLoading"
proof (cases "status (load_reply p reply s) = StLoading")
  case True
  with load_reply_status [OF assms(3), of reply] have bg: "fst (snd p)" by simp
  obtain rq where "load_request (route s) (week_key s) = Some (True, rq)"
    using assms bg by (cases p) (auto simp: loader_inv_def loads_ok_def)
  then have "route s = RNew" by (rule background_route)
  moreover have "hist (load_reply p reply s) = hist s"
    by (simp add: load_reply_def Let_def split: prod.splits sum.splits option.splits)
  ultimately show ?thesis by (simp add: main_view_def commit_view_frame)
next
  case False
  then show ?thesis using commit_view_frame(3) [of "load_reply p reply s"]
    by (auto simp: main_view_def split: Status.splits option.splits)
qed

lemma go_inv: "loader_inv s \<Longrightarrow> loader_inv (commit (go r rep s))"
  by (erule commit_nav) (simp_all add: go_def week_key_def)

text \<open>A handler that shows a week it has and moves to its address.\<close>

lemma show_week_inv:
  assumes inv: "loader_inv s" and v: "valid_route (RWeek (week_id w))"
    and frame: "week s' = Some w" "status s' = StReady" "route s' = RWeek (week_id w)"
      "loadKey s' = loadKey s" "loader_deps s' = loader_deps s" "loader_token s' = loader_token s"
      "loads s' = loads s"
  shows "loader_inv (commit s')"
proof (cases "synced s'")
  case True
  with inv have eq: "route s' = route s" "week_key s' = week_key s"
    by (auto simp: synced_def loader_inv_def deps_of_def frame intro: routeLoadKey_inject)
  have "loads_ok s'"
    using inv eq by (simp add: loads_ok_def loader_inv_def synced_def deps_of_def frame)
  moreover have "settled s'" using frame by (simp add: settled_def settled_at_def week_key_def)
  ultimately show ?thesis by (intro commit_inv) (simp add: pre_inv_def)
next
  case False
  with inv frame show ?thesis by (intro commit_unsynced [of s' s])
qed

lemma route_go: "valid_route r \<Longrightarrow> route (go r rep s) = r"
  by (simp add: go_def useRoute_def navigate_def parse_routeToPath)

lemma created_inv:
  assumes "loader_inv s" and "new_reply_ok reply"
  shows "loader_inv (commit (created_plan reply s))"
proof (cases reply)
  case (Inl e)
  with assms show ?thesis by (simp add: created_plan_def commit_core)
next
  case (Inr w)
  with assms have v: "valid_route (RWeek (week_id w))" by simp
  then show ?thesis
    unfolding created_plan_def Inr sum.case
    by (intro show_week_inv [OF assms(1) v]) (simp_all add: route_go, simp_all add: go_def forget_chat_def)
qed

lemma cloned_inv: "loader_inv s \<Longrightarrow> loader_inv (commit (cloned_plan reply s))"
proof (cases reply)
  case (Inr w)
  assume "loader_inv s"
  then show ?thesis
    by (simp add: cloned_plan_def Inr) (erule commit_nav; simp add: go_def week_key_def)
qed (simp add: cloned_plan_def commit_core core_handlers)

lemma patched_inv:
  assumes inv: "loader_inv s"
  shows "loader_inv (commit (snd (patched_week reply s)))"
proof (cases reply)
  case (Inl e)
  with inv show ?thesis by (simp add: patched_week_def commit_core core_handlers)
next
  case (Inr w)
  let ?s = "s\<lparr>week := Some w\<rparr>"
  have "core ?s = core s" if "week_key ?s = week_key s"
    using that by (simp add: core_def)
  moreover have "\<not> synced ?s" if "week_key ?s \<noteq> week_key s"
    using that inv by (auto simp: synced_def loader_inv_def deps_of_def)
  ultimately show ?thesis
    using commit_core [OF _ inv, of ?s] commit_unsynced [OF _ _ _ inv, of ?s] Inr
    by (cases "week_key ?s = week_key s") (simp_all add: patched_week_def)
qed

lemma deleted_inv:
  assumes inv: "loader_inv s"
  shows "loader_inv (commit (deleted_plan i viewed reply s))"
proof (cases reply)
  case (Inl e)
  with inv show ?thesis by (simp add: deleted_plan_def commit_core core_handlers)
next
  case (Inr u)
  define s1 where "s1 = toast_success (I18n.t (lang s) (js ''toast.week_deleted'') None)
                      (s\<lparr>sidebarRefresh := sidebarRefresh s + 1\<rparr>)"
  have c: "core s1 = core s"
    unfolding s1_def core_handlers by (simp add: core_def week_key_def)
  have i1: "loader_inv s1" by (rule core_inv [OF c inv])
  let ?s = "go RHome True (s1\<lparr>week := None, status := StReady\<rparr>)"
  have home: "route ?s = RHome" by (rule route_go) (simp add: valid_route_def)
  have frame: "loadKey ?s = loadKey s1" "loader_deps ?s = loader_deps s1" "status ?s = StReady"
    "loader_token ?s = loader_token s1" "loads ?s = loads s1" "week_key ?s = None"
    by (simp_all add: go_def week_key_def)
  have "loader_inv (commit ?s)"
  proof (cases "synced ?s")
    case True
    with i1 have "route s1 = RHome" "week_key s1 = None"
      by (auto simp: synced_def loader_inv_def deps_of_def frame home dest!: home_key)
    with i1 have "loads_ok ?s"
      by (simp add: loads_ok_def loader_inv_def synced_def deps_of_def frame home)
    then show ?thesis
      by (intro commit_inv) (simp add: pre_inv_def settled_def settled_at_def home frame)
  next
    case False
    with i1 frame show ?thesis by (intro commit_unsynced [of ?s s1]) simp_all
  qed
  moreover have "loader_inv (commit s1)" by (rule commit_core [OF c inv])
  ultimately show ?thesis
    unfolding deleted_plan_def Inr sum.case Let_def s1_def [symmetric] by simp
qed

lemma init_inv: "loader_inv (commit (init_app h))"
  by (rule commit_inv) (simp add: pre_inv_def loads_ok_def synced_def init_app_def)

lemma step_loader_inv: "app_step pj s s' \<Longrightarrow> loader_inv s \<Longrightarrow> loader_inv s'"
proof (induction rule: app_step.induct)
  case (plan_created wc s wreply)
  then show ?case using created_inv core_inv [OF core_handlers(5)] by blast
next
  case (plan_cloned i d s wreply)
  then show ?case using cloned_inv core_inv [OF core_handlers(5)] by blast
next
  case (plan_deleted i viewed s ureply)
  then show ?case using deleted_inv core_inv [OF core_handlers(5)] by blast
next
  case (week_patched i patch s wreply)
  then show ?case using patched_inv core_inv [OF core_handlers(5)] by blast
next
  case (chat_cleared i s ureply)
  then show ?case by (simp add: commit_core core_handlers)
next
  case (user_refreshes s)
  then show ?case by (simp add: bump_unsynced)
next
  case (history_moves h s)
  then show ?case by (intro commit_nav [of s]) (simp_all add: week_key_def)
qed (simp_all add: commit_core core_handlers load_reply_inv handle_event_inv end_turn_inv go_inv,
     simp_all add: commit_core core_def week_key_def)

lemma reachable_loader_inv: "app_reachable pj s \<Longrightarrow> loader_inv s"
  by (induction rule: app_reachable.induct) (auto simp: init_inv intro: step_loader_inv)

subsection \<open>The chat turn and the stored conversation\<close>

text \<open>
  At most one turn runs, exactly while the drawer is busy; the request for a stored
  conversation that is still current is one for the week that is loaded.
\<close>

definition chat_inv :: "app \<Rightarrow> bool" where
  "chat_inv s \<longleftrightarrow>
     (busy s \<longleftrightarrow> streaming s \<noteq> None) \<and>
     (\<forall>q \<in> set (chat_loads s). fst q \<le> chat_token s \<and>
        (fst q = chat_token s \<longrightarrow> chat_deps s = Some (Some (snd q))))"

definition chat_part :: "app \<Rightarrow> bool \<times> bool \<times> (nat \<times> int) list \<times> nat \<times> int option option" where
  "chat_part s = (busy s, streaming s = None, chat_loads s, chat_token s, chat_deps s)"

lemma chat_part_inv: "chat_part s' = chat_part s \<Longrightarrow> chat_inv s \<Longrightarrow> chat_inv s'"
  by (simp add: chat_part_def chat_inv_def)

lemma loader_effect_chat: "chat_part (loader_effect s) = chat_part s"
  by (simp add: chat_part_def loader_effect_def run_loader_def Let_def split: option.splits prod.splits)

lemma chat_effect_chat: "chat_inv s \<Longrightarrow> chat_inv (chat_effect s)"
proof (cases "chat_deps s = Some (week_key s)")
  case False
  assume inv: "chat_inv s"
  have old: "fst q \<le> chat_token s" if "q \<in> set (chat_loads s)" for q
    using inv that by (simp add: chat_inv_def)
  from inv False show ?thesis
    by (cases "week_key s") (auto simp: chat_inv_def chat_effect_def forget_chat_def dest: old)
qed (simp add: chat_effect_def)

lemma chat_effect_deps: "chat_deps (chat_effect s) = Some (week_key (chat_effect s))"
  by (simp add: chat_effect_def forget_chat_def week_key_def Let_def split: option.splits)

lemma commit_chat: "chat_inv s \<Longrightarrow> chat_inv (commit s)"
  unfolding commit_def using chat_part_inv [OF loader_effect_chat] by (blast intro: chat_effect_chat)

lemma commit_chat_part: "chat_inv s \<Longrightarrow> chat_part s' = chat_part s \<Longrightarrow> chat_inv (commit s')"
  by (blast intro: commit_chat chat_part_inv)

lemma chat_handlers:
  "chat_part (load_reply p reply s) = chat_part s" "chat_part (on_meta cid st s) = chat_part s"
  "chat_part (cancel s) = chat_part s" "chat_part (ask q s) = chat_part s"
  "chat_part (answered q s) = chat_part s" "chat_part (requestDuplicate src s) = chat_part s"
  "chat_part (confirmDuplicate d s) = chat_part s" "chat_part (deletePlan tgt c s) = chat_part s"
  "chat_part (clearChat s) = chat_part s" "chat_part (patchCurrentWeek pa s) = chat_part s"
  "chat_part (toast_error e s) = chat_part s" "chat_part (toast_success e s) = chat_part s"
  "chat_part (forget_chat s) = chat_part s" "chat_part (settings_reply lreply s) = chat_part s"
  "chat_part (cleared_chat ureply s) = chat_part s" "chat_part (bumpLoad s) = chat_part s"
  "chat_part (created_plan wreply s) = chat_part s" "chat_part (cloned_plan wreply s) = chat_part s"
  "chat_part (deleted_plan i viewed ureply s) = chat_part s"
  "chat_part (snd (patched_week wreply s)) = chat_part s" "chat_part (go r rep s) = chat_part s"
  "chat_part (mark_day pj ev s) = chat_part s"
  by (simp_all add: chat_part_def load_reply_def on_meta_def cancel_def ask_def answered_def
      requestDuplicate_def confirmDuplicate_def deletePlan_def clearChat_def patchCurrentWeek_def
      toast_error_def toast_success_def forget_chat_def settings_reply_def cleared_chat_def
      bumpLoad_def created_plan_def cloned_plan_def deleted_plan_def patched_week_def go_def
      mark_day_def Let_def split: option.splits sum.splits prod.splits)

lemma handle_event_chat: "chat_part (handleAgentEvent pj ev s) = chat_part s"
  by (simp add: handleAgentEvent_def Let_def chat_handlers split: prod.splits)
    (simp add: chat_part_def)

lemma chat_reply_chat: "chat_inv s \<Longrightarrow> chat_inv (chat_reply q creply s)"
  by (auto simp: chat_inv_def chat_reply_def forget_chat_def Let_def dest: notin_set_remove1
      split: sum.splits option.splits prod.splits)

lemma send_chat: "chat_inv s \<Longrightarrow> chat_inv (send msg s)"
  by (auto simp: chat_inv_def send_def)

lemma end_turn_chat: "chat_inv s \<Longrightarrow> chat_inv (end_turn failure st s)"
  by (auto simp: chat_inv_def end_turn_def bumpLoad_def Let_def split: option.splits)

lemma step_chat_inv: "app_step pj s s' \<Longrightarrow> chat_inv s \<Longrightarrow> chat_inv s'"
  by (induction rule: app_step.induct)
    (simp_all add: commit_chat chat_reply_chat send_chat end_turn_chat commit_chat_part
      chat_handlers handle_event_chat, simp_all add: commit_chat_part chat_part_def)

lemma step_deps: "app_step pj s s' \<Longrightarrow> chat_deps s' = Some (week_key s')"
  by (induction rule: app_step.induct) (simp_all add: commit_def chat_effect_deps)

lemma reachable_chat_inv: "app_reachable pj s \<Longrightarrow> chat_inv s \<and> chat_deps s = Some (week_key s)"
proof (induction rule: app_reachable.induct)
  case (mounted h)
  have "chat_inv (init_app h)" by (simp add: chat_inv_def init_app_def)
  then have "chat_inv (commit (init_app h))" by (rule commit_chat)
  then show ?case by (simp add: commit_def chat_effect_deps)
next
  case (stepped s s')
  then show ?case using step_chat_inv step_deps by blast
qed

subsection \<open>Properties\<close>

lemma week_settled:
  assumes "app_reachable pj s" and "route s = RWeek i" and "\<not> live s"
  shows "status s = StError \<or> (\<exists>w. main_view s = ViewWeek w \<and> week_id w = i)"
proof -
  have "settled s" using reachable_loader_inv [OF assms(1)] assms(3) by (simp add: loader_inv_def)
  then show ?thesis
    using assms(2) by (auto simp: settled_def settled_at_def main_view_def week_key_def)
qed

lemma loading_ends:
  assumes "app_reachable pj s" and "main_view s = ViewLoading"
  shows "live s"
proof -
  have "settled s \<or> live s" using reachable_loader_inv [OF assms(1)] by (auto simp: loader_inv_def)
  then show ?thesis
    using assms(2)
    by (auto simp: settled_def settled_at_def main_view_def split: if_splits Status.splits Route.splits option.splits)
qed

lemma handle_mutation_core:
  assumes "is_mutation ev"
  obtains s1 where "handleAgentEvent pj ev s = bumpLoad s1" "core s1 = core s"
proof -
  obtain es r where er: "applyAgentEvent ev (chatEntries s, refs s) = (es, r)" by fastforce
  have "core (mark_day pj ev (s\<lparr>chatEntries := es, refs := r\<rparr>)) = core s"
    unfolding core_handlers by (simp add: core_def week_key_def)
  then show ?thesis using that assms by (simp add: handleAgentEvent_def er Let_def)
qed

lemma bumped_loader:
  assumes inv: "loader_inv s" and c: "core s1 = core s"
  shows "loader_token (commit (bumpLoad s1)) = loader_token s + 1 \<and> route (commit (bumpLoad s1)) = route s
    \<and> loads (commit (bumpLoad s1)) = loads s @
     (case load_request (route s) (week_key s) of None \<Rightarrow> [] | Some (bg, rq) \<Rightarrow> [(loader_token s + 1, bg, rq)])"
proof -
  let ?b = "bumpLoad s1"
  have e: "route ?b = route s" "week_key ?b = week_key s" "loads ?b = loads s" "loader_token ?b = loader_token s"
      "loader_deps ?b = loader_deps s" "loadKey ?b = loadKey s + 1"
    using c by (simp_all add: bumpLoad_def core_def week_key_def)
  then have "\<not> synced ?b"
    using inv by (simp add: synced_def loader_inv_def deps_of_def)
  then have eff: "loader_effect ?b = run_loader (?b\<lparr>loader_deps := Some (deps_of ?b), loader_token := loader_token s + 1\<rparr>)"
    using e by (simp add: loader_effect_def synced_def)
  have "core (commit ?b) = core (loader_effect ?b)" by (simp add: commit_def core_chat_effect)
  then have "loader_token (commit ?b) = loader_token (loader_effect ?b)"
      "route (commit ?b) = route (loader_effect ?b)" "loads (commit ?b) = loads (loader_effect ?b)"
    by (simp_all add: core_def)
  moreover have "week_key (?b\<lparr>loader_deps := d, loader_token := k\<rparr>) = week_key s" for d k
    using e by (simp add: week_key_def)
  ultimately show ?thesis
    using e by (simp add: eff run_loader_loads split: option.split prod.split)
qed


definition sample_week :: "int \<Rightarrow> WeekDetail" where
  "sample_week i = \<lparr>week_id = i, iso_week = [], start_date = js ''2024-01-01'', end_date = js ''2024-01-07'',
     delivery_date = None, order_date = None, week_status = Draft, dinner_count = 0, week_updated_at = [],
     notes_md = [], dinners = [], exceptions = [], retrospectives = [], cart_items = []\<rparr>"

definition sample_history :: history where
  "sample_history = \<lparr>back_entries = [], pathname = js ''/weeks/7'', forward_entries = []\<rparr>"

lemma sample_route: "useRoute sample_history = RWeek 7"
  using parse_routeToPath [of "RWeek 7"]
  by (simp add: sample_history_def useRoute_def valid_route_def dec_int_def dec.simps js_Cons)

text \<open>A session on the address of week 7: mounted, and after the loader's replies.\<close>

definition sample_start :: app where
  "sample_start = commit (init_app sample_history)"

definition sample_loaded :: app where
  "sample_loaded = commit (load_reply (1, False, ById 7) (Inr (Some (sample_week 7))) sample_start)"

definition sample_settled :: app where
  "sample_settled = commit (load_reply (2, False, ById 7) (Inr (Some (sample_week 7))) sample_loaded)"

lemmas sample_eval = commit_def loader_effect_def chat_effect_def run_loader_def deps_of_def week_key_def
  load_request_def load_reply_def init_app_def sample_route forget_chat_def Let_def

lemma sample_start_eq:
  "sample_start = (init_app sample_history)\<lparr>loader_deps := Some (js ''week:7'', 0, None), loader_token := 1,
     loads := [(1, False, ById 7)], chat_deps := Some None, chat_token := 1\<rparr>"
  by (simp add: sample_start_def sample_eval dec_int_def dec.simps js_Cons)

lemma sample_loaded_eq:
  "sample_loaded = sample_start\<lparr>week := Some (sample_week 7), status := StReady, sidebarRefresh := 1,
     loader_deps := Some (js ''week:7'', 0, Some 7), loader_token := 2, loads := [(2, False, ById 7)],
     chat_deps := Some (Some 7), chat_token := 2, chat_loads := [(2, 7)]\<rparr>"
  unfolding sample_loaded_def sample_start_eq
  by (simp add: sample_eval dec_int_def dec.simps js_Cons sample_week_def)

lemma sample_settled_eq: "sample_settled = sample_loaded\<lparr>sidebarRefresh := 2, loads := []\<rparr>"
  unfolding sample_settled_def sample_loaded_eq sample_start_eq
  by (simp add: sample_eval dec_int_def dec.simps js_Cons sample_week_def)

lemma sample_reachable:
  "app_reachable pj sample_start" "app_reachable pj sample_loaded" "app_reachable pj sample_settled"
proof -
  show a: "app_reachable pj sample_start"
    unfolding sample_start_def by (rule mounted) (simp add: in_main_def sample_route)
  show b: "app_reachable pj sample_loaded"
    unfolding sample_loaded_def
    by (rule stepped [OF a load_arrives]) (simp_all add: sample_start_eq sample_week_def)
  show "app_reachable pj sample_settled"
    unfolding sample_settled_def
    by (rule stepped [OF b load_arrives]) (simp_all add: sample_loaded_eq sample_week_def)
qed

lemma sample_fields:
  "route sample_settled = RWeek 7" "loads sample_settled = []" "status sample_settled = StReady"
  "week sample_settled = Some (sample_week 7)" "busy sample_settled = False"
  "chat_loads sample_settled = [(2, 7)]" "chat_token sample_settled = 2"
  "route sample_loaded = RWeek 7" "loads sample_loaded = [(2, False, ById 7)]" "route sample_start = RWeek 7"
  "status sample_start = StLoading" "week sample_start = None"
  by (simp_all add: sample_settled_eq sample_loaded_eq sample_start_eq init_app_def sample_route)


text \<open>
  C2: The page never hangs on "Loading": while it shows that, a request is under way whose
  reply ends it. Whatever the reply is, an error, a week or none, the page then shows
  something else.
\<close>

theorem loading_awaits_reply:
  assumes "app_reachable pj s" and "main_view s = ViewLoading"
  shows "\<exists>p \<in> set (loads s). \<forall>reply. load_reply_ok (snd (snd p)) reply \<longrightarrow>
    app_step pj s (commit (load_reply p reply s)) \<and>
    main_view (commit (load_reply p reply s)) \<noteq> ViewLoading"
proof -
  obtain p where p: "p \<in> set (loads s)" "fst p = loader_token s"
    using loading_ends [OF assms] by (auto simp: live_def)
  with reachable_loader_inv [OF assms(1)] show ?thesis
    by (intro bexI [of _ p] allI impI conjI) (auto intro: load_arrives dest: reply_ends_loading)
qed

theorem loading_awaits_reply_witness:
  "\<exists>p \<in> set (loads sample_start). main_view (commit (load_reply p (Inl []) sample_start)) \<noteq> ViewLoading"
proof -
  have "main_view sample_start = ViewLoading" by (simp add: main_view_def sample_fields)
  moreover have "load_reply_ok rq (Inl [])" for rq by (cases rq) simp_all
  ultimately show ?thesis
    using loading_awaits_reply [OF sample_reachable(1) [of Map.empty]] by blast
qed

text \<open>
  C3: When the agent changed a week (the result of a mutating tool arrives) on the page of
  week i, a new request for it goes out, and the replies to all requests sent before are
  dropped: data from before the change is not shown as new.
\<close>

theorem mutation_reloads:
  assumes "app_reachable pj s" and "route s = RWeek i" and "is_mutation ev"
  shows "(let s' = commit (handleAgentEvent pj ev s) in
     (loader_token s', False, ById i) \<in> set (loads s') \<and>
     (\<forall>p \<in> set (loads s). load_reply p reply s' = s'\<lparr>loads := remove1 p (loads s')\<rparr>))"
proof -
  have inv: "loader_inv s" by (rule reachable_loader_inv [OF assms(1)])
  obtain s1 where s1: "handleAgentEvent pj ev s = bumpLoad s1" "core s1 = core s"
    using handle_mutation_core [OF assms(3)] by blast
  have "fst p \<le> loader_token s" if "p \<in> set (loads s)" for p
    using inv that by (simp add: loader_inv_def loads_ok_def)
  then show ?thesis
    using bumped_loader [OF inv s1(2)] assms(2)
    by (fastforce simp: s1(1) Let_def load_request_def load_reply_def)
qed

definition sample_mutation :: AgentEvent where
  "sample_mutation = \<lparr>ev_type = EvToolResult, ev_text = None, ev_tool = Some (js ''add_dinner''),
     ev_tool_id = None, ev_input = None, ev_result = None, ev_is_error = None\<rparr>"

theorem mutation_reloads_witness:
  "let s' = commit (handleAgentEvent Map.empty sample_mutation sample_loaded) in
     (loader_token s', False, ById 7) \<in> set (loads s') \<and>
     (\<forall>p \<in> set (loads sample_loaded). load_reply p (Inr None) s' = s'\<lparr>loads := remove1 p (loads s')\<rparr>)"
  by (rule mutation_reloads [OF sample_reachable(2) sample_fields(8)])
    (simp add: is_mutation_def sample_mutation_def MUTATING_TOOLS_def)

text \<open>
  C13: At most one chat turn runs: the application is busy exactly while a stream is open, and a
  message sent meanwhile changes nothing.
\<close>

theorem one_turn_at_a_time:
  assumes "app_reachable pj s"
  shows "(busy s \<longleftrightarrow> streaming s \<noteq> None) \<and> (streaming s \<noteq> None \<longrightarrow> send msg s = s)"
  using reachable_chat_inv [OF assms] by (simp add: chat_inv_def send_def)

definition sample_sent :: app where
  "sample_sent = commit (send [104, 105] sample_settled)"

theorem one_turn_at_a_time_witness:
  "busy sample_sent \<and> send [104] sample_sent = sample_sent"
proof -
  have "app_reachable Map.empty sample_sent"
    unfolding sample_sent_def by (rule stepped [OF sample_reachable(3) user_sends])
  moreover have "streaming sample_sent \<noteq> None"
    by (simp add: sample_sent_def send_def sample_fields commit_def chat_effect_def loader_effect_def
        run_loader_def forget_chat_def Let_def split: option.splits prod.splits)
  ultimately show ?thesis using one_turn_at_a_time by blast
qed

text \<open>
  C17: A reply with a stored conversation is taken over only when it is the conversation of the
  week that is loaded; every other such reply is dropped.
\<close>

theorem stored_chat_of_week:
  assumes "app_reachable pj s" and "q \<in> set (chat_loads s)"
  shows "chat_reply q reply s = s\<lparr>chat_loads := remove1 q (chat_loads s)\<rparr> \<or> week_key s = Some (snd q)"
  using reachable_chat_inv [OF assms(1)] assms(2) by (auto simp: chat_inv_def chat_reply_def Let_def)

theorem stored_chat_of_week_witness:
  "chat_reply (2, 7) (Inr None) sample_settled =
     sample_settled\<lparr>chat_loads := remove1 (2, 7) (chat_loads sample_settled)\<rparr> \<or>
   week_key sample_settled = Some (snd (2::nat, 7))"
  by (rule stored_chat_of_week [OF sample_reachable(3)]) (simp add: sample_fields)

text \<open>
  The first event of a stream sets the conversation of the drawer, whatever week is shown by
  then: a message that was sent on one week binds the drawer of another to its conversation.
\<close>

lemma meta_ignores_week:
  assumes "streaming s = Some st" "st_conversation st = None" "chat_deps s = Some (week_key s)"
  shows "conversationID (commit (on_meta cid st s)) = Some cid"
proof -
  let ?m = "s\<lparr>conversationID := Some cid\<rparr>"
  have "conversationID (loader_effect ?m) = Some cid" "chat_deps (loader_effect ?m) = chat_deps s"
      "week_key (loader_effect ?m) = week_key s"
    by (simp_all add: loader_effect_def run_loader_def Let_def week_key_def split: option.splits prod.splits)
  with assms show ?thesis by (simp add: on_meta_def commit_def chat_effect_def)
qed

end
