(* ===== verification/SetupGate.thy ===== *)
theory SetupGate
  imports RouteNav
begin

text \<open>
  web/src/App.tsx, component \<open>App\<close>: the set-up gate in front of the application. Its state
  is \<open>setupComplete\<close> (None while it is being checked), the flag in localStorage and the
  location. The checking effect depends on \<open>[setupComplete, route.kind]\<close>; each run that
  asks the server gets a token and the reply of an older run is dropped.
\<close>

fun route_kind :: "Route \<Rightarrow> jstr" where
  "route_kind RHome = js ''home''"
| "route_kind (RWeek i) = js ''week''"
| "route_kind RNew = js ''new''"
| "route_kind (RPrint i) = js ''print''"
| "route_kind RSettings = js ''settings''"
| "route_kind RPreferences = js ''preferences''"
| "route_kind RUsage = js ''usage''"
| "route_kind RSetup = js ''setup''"

record gate =
  setupComplete :: "bool option"
  stored_flag :: bool                 \<comment> \<open>localStorage veckomenyn.setup_complete is 1\<close>
  g_hist :: history
  g_deps :: "(bool option \<times> jstr) option"
  g_token :: nat
  g_pending :: "(nat \<times> jstr) list"   \<comment> \<open>token and route.kind of each request\<close>

definition init_gate :: "bool \<Rightarrow> history \<Rightarrow> gate" where
  "init_gate flag h =
     \<lparr>setupComplete = (if flag then Some True else None), stored_flag = flag, g_hist = h,
      g_deps = None, g_token = 0, g_pending = []\<rparr>"

definition gate_deps :: "gate \<Rightarrow> bool option \<times> jstr" where
  "gate_deps g = (setupComplete g, route_kind (useRoute (g_hist g)))"

definition check_effect :: "gate \<Rightarrow> gate" where
  "check_effect g =
     (if g_deps g = Some (gate_deps g) then g
      else let g' = g\<lparr>g_deps := Some (gate_deps g), g_token := g_token g + 1\<rparr> in
        if setupComplete g = Some True then g'
        else g'\<lparr>g_pending := g_pending g @ [(g_token g + 1, route_kind (useRoute (g_hist g)))]\<rparr>)"

definition bounce_effect :: "gate \<Rightarrow> gate" where
  "bounce_effect g =
     (if setupComplete g = Some True \<and> useRoute (g_hist g) = RSetup
      then g\<lparr>g_hist := navigate RHome True (g_hist g)\<rparr> else g)"

text \<open>Both effects, and the checking effect again for the route the other may have set.\<close>

definition gate_commit :: "gate \<Rightarrow> gate" where
  "gate_commit g = check_effect (bounce_effect (check_effect g))"

definition setup_reply :: "nat \<times> jstr \<Rightarrow> jstr + bool \<Rightarrow> gate \<Rightarrow> gate" where
  "setup_reply p reply g =
     (let g0 = g\<lparr>g_pending := remove1 p (g_pending g)\<rparr> in
      if fst p \<noteq> g_token g then g0
      else case reply of
          Inl e \<Rightarrow> g0\<lparr>setupComplete := Some True\<rparr>
        | Inr complete \<Rightarrow>
            (if complete then g0\<lparr>stored_flag := True, setupComplete := Some True\<rparr>
             else if snd p \<noteq> js ''setup''
               then g0\<lparr>setupComplete := Some False, g_hist := navigate RSetup True (g_hist g)\<rparr>
             else g0\<lparr>setupComplete := Some False\<rparr>))"

definition wizard_done :: "gate \<Rightarrow> gate" where
  "wizard_done g = g\<lparr>stored_flag := True, setupComplete := Some True\<rparr>"

datatype AppView = ShowPrint int | ShowWizard | ShowSplash | ShowMain Route

definition app_view :: "gate \<Rightarrow> AppView" where
  "app_view g =
     (case useRoute (g_hist g) of
        RPrint i \<Rightarrow> ShowPrint i
      | r \<Rightarrow> (case setupComplete g of
                None \<Rightarrow> ShowSplash | Some False \<Rightarrow> ShowWizard | Some True \<Rightarrow> ShowMain r))"

text \<open>
  The wizard reports its completion and goes to the home page in one event. The location moves by
  any navigation of the application or the browser.
\<close>

inductive gate_step :: "gate \<Rightarrow> gate \<Rightarrow> bool" where
  gate_reply: "p \<in> set (g_pending g) \<Longrightarrow> gate_step g (gate_commit (setup_reply p reply g))"
| gate_done: "app_view g = ShowWizard \<Longrightarrow>
    gate_step g (gate_commit ((wizard_done g)\<lparr>g_hist := navigate RHome True (g_hist g)\<rparr>))"
| gate_moves: "gate_step g (gate_commit (g\<lparr>g_hist := h\<rparr>))"

inductive gate_reachable :: "gate \<Rightarrow> bool" where
  gate_start: "gate_reachable (gate_commit (init_gate flag h))"
| gate_next: "gate_reachable g \<Longrightarrow> gate_step g g' \<Longrightarrow> gate_reachable g'"

subsection \<open>The invariant of the gate\<close>

text \<open>
  A request that is still current was sent in the present state, which is not "complete";
  a complete gate is never on the set-up route; the flag stays with a complete gate.
\<close>

definition pending_ok :: "gate \<Rightarrow> bool" where
  "pending_ok g \<longleftrightarrow>
     (\<forall>p \<in> set (g_pending g). fst p \<le> g_token g \<and>
        (fst p = g_token g \<longrightarrow> (\<exists>sc. sc \<noteq> Some True \<and> g_deps g = Some (sc, snd p))))"

definition gate_inv :: "gate \<Rightarrow> bool" where
  "gate_inv g \<longleftrightarrow> pending_ok g \<and> g_deps g = Some (gate_deps g) \<and>
     (setupComplete g = Some True \<longrightarrow> useRoute (g_hist g) \<noteq> RSetup) \<and>
     (stored_flag g \<longrightarrow> setupComplete g = Some True)"

lemma route_kind_setup: "route_kind r = js ''setup'' \<longleftrightarrow> r = RSetup"
  by (cases r) simp_all

lemma check_frame [simp]:
  "setupComplete (check_effect g) = setupComplete g" "stored_flag (check_effect g) = stored_flag g"
  "g_hist (check_effect g) = g_hist g"
  by (simp_all add: check_effect_def Let_def)

lemma check_deps [simp]: "g_deps (check_effect g) = Some (gate_deps g)"
  by (simp add: check_effect_def Let_def)

lemma check_pending: "pending_ok g \<Longrightarrow> pending_ok (check_effect g)"
proof -
  assume ok: "pending_ok g"
  then have old: "fst p \<le> g_token g" if "p \<in> set (g_pending g)" for p
    using that by (simp add: pending_ok_def)
  show ?thesis
  proof (cases "g_deps g = Some (gate_deps g)")
    case False
    then show ?thesis
      by (auto simp: pending_ok_def check_effect_def gate_deps_def Let_def dest: old)
  qed (use ok in \<open>simp add: check_effect_def\<close>)
qed

lemma bounce_frame [simp]:
  "setupComplete (bounce_effect g) = setupComplete g" "stored_flag (bounce_effect g) = stored_flag g"
  "g_pending (bounce_effect g) = g_pending g" "g_token (bounce_effect g) = g_token g"
  "g_deps (bounce_effect g) = g_deps g"
  by (simp_all add: bounce_effect_def)

lemma home_route: "useRoute (navigate RHome True h) = RHome"
  unfolding useRoute_def navigate_def navigate_pathname
  by (rule parse_routeToPath) (simp add: valid_route_def)

lemma bounce_route: "setupComplete g = Some True \<Longrightarrow> useRoute (g_hist (bounce_effect g)) \<noteq> RSetup"
  by (simp add: bounce_effect_def home_route)

lemma commit_frame [simp]:
  "setupComplete (gate_commit g) = setupComplete g" "stored_flag (gate_commit g) = stored_flag g"
  by (simp_all add: gate_commit_def)

lemma gate_commit_inv:
  assumes ok: "pending_ok g" and flag: "stored_flag g \<longrightarrow> setupComplete g = Some True"
  shows "gate_inv (gate_commit g)"
proof -
  let ?b = "bounce_effect (check_effect g)"
  have "pending_ok ?b" using check_pending [OF ok] by (simp add: pending_ok_def)
  then have "pending_ok (gate_commit g)" by (simp add: gate_commit_def check_pending)
  moreover have "setupComplete g = Some True \<Longrightarrow> useRoute (g_hist ?b) \<noteq> RSetup"
    by (rule bounce_route) simp
  ultimately show ?thesis
    using flag by (auto simp: gate_inv_def) (simp_all add: gate_commit_def gate_deps_def)
qed

lemma reply_pending: "pending_ok g \<Longrightarrow> pending_ok (setup_reply p reply g)"
  by (auto simp: pending_ok_def setup_reply_def Let_def dest: notin_set_remove1 split: sum.splits)

text \<open>A current reply finds the gate not complete yet.\<close>

lemma current_reply:
  assumes "gate_inv g" "p \<in> set (g_pending g)" "fst p = g_token g"
  shows "setupComplete g \<noteq> Some True \<and> \<not> stored_flag g"
  using assms by (auto simp: gate_inv_def pending_ok_def gate_deps_def)

lemma reply_flag:
  assumes "gate_inv g" "p \<in> set (g_pending g)"
  shows "stored_flag (setup_reply p reply g) \<longrightarrow> setupComplete (setup_reply p reply g) = Some True"
  using assms current_reply [OF assms]
  by (auto simp: setup_reply_def Let_def gate_inv_def split: sum.splits)

lemma reply_keeps_complete:
  assumes "gate_inv g" "p \<in> set (g_pending g)" "setupComplete g = Some True"
  shows "setupComplete (setup_reply p reply g) = Some True"
  using assms current_reply [OF assms(1,2)] by (auto simp: setup_reply_def Let_def)

lemma gate_step_inv: "gate_step g g' \<Longrightarrow> gate_inv g \<Longrightarrow> gate_inv g'"
proof (induction rule: gate_step.induct)
  case (gate_reply p g reply)
  then show ?case
    by (intro gate_commit_inv reply_pending reply_flag) (simp_all add: gate_inv_def)
next
  case (gate_done g)
  then have "pending_ok g" by (simp add: gate_inv_def)
  then have "pending_ok ((wizard_done g)\<lparr>g_hist := h\<rparr>)" for h by (simp add: pending_ok_def wizard_done_def)
  then show ?case by (rule gate_commit_inv) (simp add: wizard_done_def)
next
  case (gate_moves g h)
  then have "pending_ok g" by (simp add: gate_inv_def)
  then have "pending_ok (g\<lparr>g_hist := h\<rparr>)" by (simp add: pending_ok_def)
  with gate_moves show ?case by (intro gate_commit_inv) (simp_all add: gate_inv_def)
qed

lemma gate_reachable_inv: "gate_reachable g \<Longrightarrow> gate_inv g"
proof (induction rule: gate_reachable.induct)
  case (gate_start flag h)
  show ?case by (rule gate_commit_inv) (simp_all add: init_gate_def pending_ok_def)
qed (rule gate_step_inv)

lemma gate_step_complete:
  "gate_step g g' \<Longrightarrow> gate_inv g \<Longrightarrow> setupComplete g = Some True \<Longrightarrow> setupComplete g' = Some True"
  by (induction rule: gate_step.induct) (simp_all add: reply_keeps_complete wizard_done_def)

subsection \<open>Properties\<close>

text \<open>
  The gate is consistent in every reachable state: the application itself is shown only
  when set-up is complete and never on the set-up route, and the wizard is never shown to a
  browser that has stored the completion flag.
\<close>

theorem gate_shows:
  assumes "gate_reachable g"
  shows "(app_view g = ShowMain r \<longrightarrow> setupComplete g = Some True \<and> r \<noteq> RSetup) \<and>
    (app_view g = ShowWizard \<longrightarrow> \<not> stored_flag g)"
  using gate_reachable_inv [OF assms]
  by (auto simp: gate_inv_def app_view_def split: Route.splits option.splits bool.splits)

definition sample_gate :: gate where
  "sample_gate = gate_commit (init_gate True \<lparr>back_entries = [], pathname = js ''/'', forward_entries = []\<rparr>)"

theorem gate_shows_witness: "app_view sample_gate = ShowMain RHome \<and> RHome \<noteq> RSetup"
proof -
  have "app_view sample_gate = ShowMain RHome"
    by (simp add: sample_gate_def gate_commit_def check_effect_def bounce_effect_def init_gate_def Let_def
        app_view_def useRoute_def parseRoute_def)
  moreover have "gate_reachable sample_gate" unfolding sample_gate_def by (rule gate_start)
  ultimately show ?thesis using gate_shows [of sample_gate RHome] by simp
qed

text \<open>
  Once set-up is complete it stays so: no late reply to a status request, and no
  navigation, brings the wizard back.
\<close>

theorem gate_stays_complete:
  assumes "gate_reachable g" and "setupComplete g = Some True" and "gate_step g g'"
  shows "setupComplete g' = Some True \<and> app_view g' \<noteq> ShowWizard"
  using gate_step_complete [OF assms(3) gate_reachable_inv [OF assms(1)] assms(2)]
  by (auto simp: app_view_def split: Route.splits)

theorem gate_stays_complete_witness:
  "setupComplete (gate_commit (sample_gate\<lparr>g_hist :=
     \<lparr>back_entries = [], pathname = js ''/setup'', forward_entries = []\<rparr>\<rparr>)) = Some True"
proof -
  have "gate_reachable sample_gate" unfolding sample_gate_def by (rule gate_start)
  moreover have "setupComplete sample_gate = Some True" by (simp add: sample_gate_def init_gate_def)
  ultimately show ?thesis using gate_stays_complete gate_moves by blast
qed

end
