(* ===== verification/Sse.thy ===== *)
theory Sse
  imports JsPrelude
begin

text \<open>
  The server-sent-event stream of a chat turn: \<open>streamChat\<close> and \<open>parseFrame\<close> of
  web/src/lib/api.ts, and \<open>sendSSE\<close> of internal/server/chat.go, which writes the frames.

  The reader of the response body delivers chunks (already decoded by the streaming
  \<open>TextDecoder\<close>, which Utf8 models) and then ends or fails. \<open>JSON.parse\<close> is a parameter: \<open>parse_json s\<close> is
  \<open>None\<close> where it throws. The handlers act on a state \<open>'w\<close> of their owner and may throw.
\<close>

subsection \<open>Frames\<close>

fun index_of :: "jstr \<Rightarrow> jstr \<Rightarrow> nat option" where
  "index_of p [] = (if p = [] then Some 0 else None)"
| "index_of p (x # xs) =
     (if starts_with p (x # xs) then Some 0 else map_option Suc (index_of p xs))"

definition blank_line :: jstr where
  "blank_line = [c_nl, c_nl]"

text \<open>The loop over the lines of a frame: the event name and the data lines so far.\<close>

fun scan_lines :: "jstr list \<Rightarrow> jstr \<Rightarrow> jstr list \<Rightarrow> jstr \<times> jstr list" where
  "scan_lines [] event dataLines = (event, dataLines)"
| "scan_lines (rawLine # rest) event dataLines =
     (if starts_with (js ''event: '') rawLine then
        scan_lines rest (trim (drop 7 rawLine)) dataLines
      else if starts_with (js ''data: '') rawLine then
        scan_lines rest event (dataLines @ [drop 6 rawLine])
      else scan_lines rest event dataLines)"

definition parseFrame :: "(jstr \<Rightarrow> 'j option) \<Rightarrow> jstr \<Rightarrow> (jstr \<times> 'j) option" where
  "parseFrame parse_json frame =
     (let (event, dataLines) = scan_lines (split_on c_nl frame) (js ''message'') [] in
      if dataLines = [] then None
      else map_option (\<lambda>d. (event, d)) (parse_json (join_with [c_nl] dataLines)))"

text \<open>
  The inner loop: cut the buffer at the first blank line as long as there is one. Each
  round drops at least the two newlines, so the loop ends.
\<close>

lemma index_of_bound: "index_of p s = Some k \<Longrightarrow> k + length p \<le> length s"
proof (induction p s arbitrary: k rule: index_of.induct)
  case (2 p x xs)
  show ?case
  proof (cases "starts_with p (x # xs)")
    case True
    then obtain r where "x # xs = p @ r" by (auto simp: starts_with_iff)
    then have "length p \<le> length (x # xs)" by (metis length_append le_add1)
    with 2 True show ?thesis by simp
  qed (use 2 in auto)
qed (auto split: if_splits)

function drain :: "jstr \<Rightarrow> jstr list \<times> jstr" where
  "drain buffer =
     (case index_of blank_line buffer of
        None \<Rightarrow> ([], buffer)
      | Some frameEnd \<Rightarrow>
          let (fs, rest) = drain (drop (frameEnd + 2) buffer) in (take frameEnd buffer # fs, rest))"
  by pat_completeness auto
termination
  by (relation "measure length") (auto simp: blank_line_def dest!: index_of_bound)

declare drain.simps [simp del]

subsection \<open>Handlers and the outer loop\<close>

record ('j, 'w, 'e) StreamHandlers =
  onMeta :: "('j \<Rightarrow> 'w \<Rightarrow> 'e option \<times> 'w) option"
  onEvent :: "('j \<Rightarrow> 'w \<Rightarrow> 'e option \<times> 'w) option"
  onEnd :: "('j \<Rightarrow> 'w \<Rightarrow> 'e option \<times> 'w) option"
  onError :: "('e \<Rightarrow> 'w \<Rightarrow> 'w) option"

definition call_opt :: "('j \<Rightarrow> 'w \<Rightarrow> 'e option \<times> 'w) option \<Rightarrow> 'j \<Rightarrow> 'w \<Rightarrow> 'e option \<times> 'w" where
  "call_opt h d w = (case h of None \<Rightarrow> (None, w) | Some f \<Rightarrow> f d w)"

definition dispatch_event ::
    "('j, 'w, 'e) StreamHandlers \<Rightarrow> jstr \<Rightarrow> 'j \<Rightarrow> 'w \<Rightarrow> 'e option \<times> 'w" where
  "dispatch_event hs event d w =
     (if event = js ''meta'' then call_opt (onMeta hs) d w
      else if event = js ''event'' then call_opt (onEvent hs) d w
      else if event = js ''end'' then call_opt (onEnd hs) d w
      else (None, w))"

definition handle_frame ::
    "(jstr \<Rightarrow> 'j option) \<Rightarrow> ('j, 'w, 'e) StreamHandlers \<Rightarrow> jstr \<Rightarrow> 'w \<Rightarrow> 'w" where
  "handle_frame parse_json hs frame w =
     (case parseFrame parse_json frame of
        None \<Rightarrow> w
      | Some (event, d) \<Rightarrow>
          (case dispatch_event hs event d w of
             (None, w') \<Rightarrow> w'
           | (Some err, w') \<Rightarrow> (case onError hs of None \<Rightarrow> w' | Some f \<Rightarrow> f err w')))"

text \<open>
  The inner loop as the code has it: as long as the buffer has a blank line, cut off the frame
  before it and handle it. \<open>None\<close> would be a loop that does not end.
\<close>

partial_function (option) frame_loop ::
    "(jstr \<Rightarrow> 'j option) \<Rightarrow> ('j, 'w, 'e) StreamHandlers \<Rightarrow> jstr \<Rightarrow> 'w \<Rightarrow> ('w \<times> jstr) option" where
  "frame_loop pj hs buffer w =
     (case index_of blank_line buffer of
        None \<Rightarrow> Some (w, buffer)
      | Some frameEnd \<Rightarrow>
          frame_loop pj hs (drop (frameEnd + 2) buffer) (handle_frame pj hs (take frameEnd buffer) w))"

datatype 'e read_result = Chunk jstr | ReadFails 'e

fun stream_loop ::
    "(jstr \<Rightarrow> 'j option) \<Rightarrow> ('j, 'w, 'e) StreamHandlers \<Rightarrow> 'e read_result list \<Rightarrow> jstr \<Rightarrow> 'w
       \<Rightarrow> 'e option \<times> 'w" where
  "stream_loop pj hs [] buffer w = (None, w)"
| "stream_loop pj hs (ReadFails e # rs) buffer w = (Some e, w)"
| "stream_loop pj hs (Chunk value # rs) buffer w =
     (let (frames, rest) = drain (buffer @ value) in
      stream_loop pj hs rs rest (fold (handle_frame pj hs) frames w))"

record 'e chat_response =
  resp_ok :: bool
  resp_status :: int
  resp_statusText :: jstr
  resp_body :: "'e read_result list option"

definition streamChat ::
    "(jstr \<Rightarrow> 'e) \<Rightarrow> (jstr \<Rightarrow> 'j option) \<Rightarrow> 'e + 'e chat_response \<Rightarrow> ('j, 'w, 'e) StreamHandlers
       \<Rightarrow> 'w \<Rightarrow> 'e option \<times> 'w" where
  "streamChat mk_error pj response hs w =
     (case response of
        Inl e \<Rightarrow> (Some e, w)
      | Inr r \<Rightarrow>
          (if \<not> resp_ok r \<or> resp_body r = None then
             (Some (mk_error (js ''chat: '' @ dec_int (resp_status r) @ [c_space] @ resp_statusText r)), w)
           else stream_loop pj hs (the (resp_body r)) [] w))"

subsection \<open>The server's side\<close>

text \<open>\<open>sendSSE\<close>: one frame; \<open>b\<close> is the JSON text that \<open>json.Marshal\<close> returned.\<close>

definition sendSSE :: "jstr \<Rightarrow> jstr \<Rightarrow> jstr" where
  "sendSSE event b = js ''event: '' @ event @ [c_nl] @ js ''data: '' @ b @ [c_nl, c_nl]"

subsection \<open>Draining the buffer\<close>

lemma starts_with_append_right: "starts_with p s \<Longrightarrow> starts_with p (s @ t)"
  by (auto simp: starts_with_iff)

lemma index_of_append: "index_of p s = Some k \<Longrightarrow> p \<noteq> [] \<Longrightarrow> index_of p (s @ t) = Some k"
proof (induction p s arbitrary: k rule: index_of.induct)
  case (2 p x xs)
  show ?case
  proof (cases "starts_with p (x # xs)")
    case True
    then have "starts_with p ((x # xs) @ t)" by (rule starts_with_append_right)
    with True 2 show ?thesis by simp
  next
    case False
    with 2 obtain j where j: "k = Suc j" "index_of p xs = Some j" by auto
    then have "index_of p (xs @ t) = Some j" using 2 False by simp
    moreover have "\<not> starts_with p (x # xs @ t)"
    proof
      assume "starts_with p (x # xs @ t)"
      moreover have "length p \<le> length (x # xs)" using index_of_bound [OF j(2)] by simp
      ultimately have "starts_with p (x # xs)"
        by (auto simp: starts_with_iff append_eq_append_conv2 Cons_eq_append_conv)
      with False show False by simp
    qed
    ultimately show ?thesis using j by simp
  qed
qed (auto split: if_splits)

lemma drain_None: "index_of blank_line b = None \<Longrightarrow> drain b = ([], b)"
  by (simp add: drain.simps)

lemma drain_Some: "index_of blank_line b = Some k \<Longrightarrow>
    drain b = (take k b # fst (drain (drop (k + 2) b)), snd (drain (drop (k + 2) b)))"
  by (subst drain.simps) (simp add: case_prod_beta)

lemma drain_append:
  "drain (a @ b) = (fst (drain a) @ fst (drain (snd (drain a) @ b)), snd (drain (snd (drain a) @ b)))"
proof (induction a rule: drain.induct)
  case (1 a)
  show ?case
  proof (cases "index_of blank_line a")
    case None
    then show ?thesis by (simp add: drain_None)
  next
    case (Some k)
    have le: "k + 2 \<le> length a" using index_of_bound [OF Some] by (simp add: blank_line_def)
    have "index_of blank_line (a @ b) = Some k"
      using index_of_append [OF Some] by (simp add: blank_line_def)
    then have "drain (a @ b) = (take k a # fst (drain (drop (k + 2) a @ b)), snd (drain (drop (k + 2) a @ b)))"
      using le by (simp add: drain_Some)
    with 1 [OF Some] Some show ?thesis by (simp add: drain_Some)
  qed
qed

lemma drain_rest: "index_of blank_line (snd (drain b)) = None"
proof (induction b rule: drain.induct)
  case (1 b)
  then show ?case
    by (cases "index_of blank_line b") (simp_all add: drain_None drain_Some)
qed

lemma stream_loop_chunks:
  assumes "index_of blank_line buf = None"
  shows "stream_loop pj hs (map Chunk cs) buf w =
    (None, fold (handle_frame pj hs) (fst (drain (buf @ concat cs))) w)"
  using assms
proof (induction cs arbitrary: buf w)
  case (Cons c cs)
  have "index_of blank_line (snd (drain (buf @ c))) = None" by (rule drain_rest)
  from Cons.IH [OF this] show ?case
    using drain_append [of "buf @ c" "concat cs"] by (simp add: case_prod_beta)
qed (simp add: drain_None)

lemma index_of_Nil_blank [simp]: "index_of blank_line [] = None"
  by (simp add: blank_line_def)

text \<open>
  The reference for the framing: a buffer is frames, each closed by a blank line and
  without one (not even across its end), and a rest without a blank line.
\<close>

definition framing :: "jstr list \<Rightarrow> jstr \<Rightarrow> jstr \<Rightarrow> bool" where
  "framing fs rest b \<longleftrightarrow>
     b = concat (map (\<lambda>f. f @ blank_line) fs) @ rest
     \<and> list_all (\<lambda>f. index_of blank_line (f @ [c_nl]) = None) fs
     \<and> index_of blank_line rest = None"

lemma starts_blank: "starts_with blank_line (x # y # s) \<longleftrightarrow> x = c_nl \<and> y = c_nl"
  by (auto simp: blank_line_def)

lemma not_starts_blank1 [simp]: "\<not> starts_with blank_line [x]"
  by (simp add: blank_line_def)

lemma index_of_cut:
  "index_of blank_line (f @ [c_nl]) = None \<Longrightarrow> index_of blank_line (f @ blank_line @ t) = Some (length f)"
proof (induction f)
  case Nil
  then show ?case by (simp add: blank_line_def)
next
  case (Cons x f)
  then have n: "\<not> starts_with blank_line (x # f @ [c_nl])" "index_of blank_line (f @ [c_nl]) = None"
    by (auto split: if_splits)
  then have "\<not> starts_with blank_line (x # f @ blank_line @ t)"
    by (cases f) (auto simp: starts_blank, simp_all add: blank_line_def)
  with Cons n show ?case by simp
qed

lemma index_of_first:
  "index_of blank_line s = Some k \<Longrightarrow> index_of blank_line (take k s @ [c_nl]) = None"
proof (induction s arbitrary: k)
  case (Cons x xs)
  show ?case
  proof (cases "starts_with blank_line (x # xs)")
    case False
    with Cons obtain j where j: "k = Suc j" "index_of blank_line xs = Some j" by auto
    obtain y ys where xs: "xs = y # ys" using j(2) by (cases xs) (auto simp: blank_line_def)
    have "\<not> (x = c_nl \<and> y = c_nl)" using False by (simp add: xs starts_blank)
    moreover have "j = 0 \<Longrightarrow> y = c_nl"
      using j(2) by (auto simp: xs blank_line_def split: if_splits)
    ultimately have "\<not> starts_with blank_line (x # take j xs @ [c_nl])"
      by (cases j) (auto simp: xs starts_blank)
    with Cons.IH [OF j(2)] j show ?thesis by simp
  qed (use Cons in \<open>auto simp: blank_line_def\<close>)
qed (simp add: blank_line_def)

lemma index_of_split: "index_of p s = Some k \<Longrightarrow> s = take k s @ p @ drop (k + length p) s"
proof (induction p s arbitrary: k rule: index_of.induct)
  case (2 p x xs)
  show ?case
  proof (cases "starts_with p (x # xs)")
    case True
    then obtain r where "x # xs = p @ r" by (auto simp: starts_with_iff)
    moreover have "k = 0" using True 2 by simp
    ultimately show ?thesis by simp
  qed (use 2 in auto)
qed (auto split: if_splits)

lemma framing_drain: "framing (fst (drain b)) (snd (drain b)) b"
proof (induction b rule: drain.induct)
  case (1 b)
  show ?case
  proof (cases "index_of blank_line b")
    case None
    then show ?thesis by (simp add: drain_None framing_def)
  next
    case (Some k)
    have "b = take k b @ blank_line @ drop (k + 2) b"
      using index_of_split [OF Some] by (simp add: blank_line_def)
    then show ?thesis
      using 1 [OF Some] index_of_first [OF Some] Some by (simp add: drain_Some framing_def)
  qed
qed

lemma drain_framing: "framing fs rest b \<Longrightarrow> drain b = (fs, rest)"
proof (induction fs arbitrary: b)
  case Nil
  then show ?case by (simp add: framing_def drain_None)
next
  case (Cons f fs)
  let ?t = "concat (map (\<lambda>f. f @ blank_line) fs) @ rest"
  have b: "b = f @ blank_line @ ?t" and f: "index_of blank_line (f @ [c_nl]) = None"
    and t: "framing fs rest ?t"
    using Cons.prems by (auto simp: framing_def)
  have "drop (length f + 2) b = ?t" "take (length f) b = f" by (simp_all add: b blank_line_def)
  with drain_Some [OF index_of_cut [OF f]] Cons.IH [OF t] show ?case by (simp add: b)
qed

subsection \<open>What the server sends is what the handlers get\<close>

lemma index_of_no_nl:
  "c_nl \<notin> set a \<Longrightarrow> index_of blank_line (a @ r) = map_option (\<lambda>k. length a + k) (index_of blank_line r)"
proof (induction a)
  case (Cons x a)
  then have "\<not> starts_with blank_line (x # a @ r)" by (auto simp: blank_line_def)
  with Cons show ?case by (simp add: option.map_comp comp_def)
qed (cases "index_of blank_line r"; simp)

lemma literals_no_nl: "c_nl \<notin> set (js ''event: '')" "c_nl \<notin> set (js ''data: '')"
  by (simp_all add: js_def)

definition frame_of :: "jstr \<Rightarrow> jstr \<Rightarrow> jstr" where
  "frame_of event b = js ''event: '' @ event @ [c_nl] @ js ''data: '' @ b"

lemma sendSSE_frame: "sendSSE event b = frame_of event b @ blank_line"
  by (simp add: sendSSE_def frame_of_def blank_line_def)

lemma frame_of_no_blank:
  assumes "c_nl \<notin> set event" and "c_nl \<notin> set b"
  shows "index_of blank_line (frame_of event b @ [c_nl]) = None"
proof -
  have e: "c_nl \<notin> set (js ''event: '' @ event)" and d: "c_nl \<notin> set (js ''data: '' @ b)"
    using assms literals_no_nl by auto
  have "index_of blank_line ((js ''data: '' @ b) @ [c_nl]) = None"
    unfolding index_of_no_nl [OF d] by (simp add: blank_line_def)
  then have "index_of blank_line ([c_nl] @ (js ''data: '' @ b) @ [c_nl]) = None"
    by (simp add: js_Cons starts_blank)
  then have "index_of blank_line ((js ''event: '' @ event) @ [c_nl] @ (js ''data: '' @ b) @ [c_nl]) = None"
    unfolding index_of_no_nl [OF e] by simp
  then show ?thesis by (simp add: frame_of_def)
qed

lemma parseFrame_frame_of:
  assumes "c_nl \<notin> set event" and "c_nl \<notin> set b" and "trim event = event"
  shows "parseFrame pj (frame_of event b) = map_option (\<lambda>d. (event, d)) (pj b)"
proof -
  have "split_on c_nl ((js ''event: '' @ event) @ c_nl # js ''data: '' @ b) =
      [js ''event: '' @ event, js ''data: '' @ b]"
    using assms literals_no_nl by (subst split_on_append_sep) (auto simp: split_on_no_sep)
  moreover have "\<not> starts_with (js ''event: '') (js ''data: '' @ b)" by (simp add: js_Cons)
  moreover have "drop 7 (js ''event: '' @ event) = event" "drop 6 (js ''data: '' @ b) = b"
    by (simp_all add: js_Cons)
  ultimately show ?thesis
    using assms(3) by (simp add: parseFrame_def frame_of_def)
qed

definition deliver ::
    "(jstr \<Rightarrow> 'j option) \<Rightarrow> ('j, 'w, 'e) StreamHandlers \<Rightarrow> jstr \<times> jstr \<Rightarrow> 'w \<Rightarrow> 'w" where
  "deliver pj hs m w =
     (case pj (snd m) of None \<Rightarrow> w
      | Some d \<Rightarrow> (case dispatch_event hs (fst m) d w of
           (None, w') \<Rightarrow> w'
         | (Some err, w') \<Rightarrow> (case onError hs of None \<Rightarrow> w' | Some f \<Rightarrow> f err w')))"

definition sendable :: "jstr \<times> jstr \<Rightarrow> bool" where
  "sendable m \<longleftrightarrow> c_nl \<notin> set (fst m) \<and> c_nl \<notin> set (snd m) \<and> trim (fst m) = fst m"

lemma handle_frame_of: "sendable m \<Longrightarrow> handle_frame pj hs (frame_of (fst m) (snd m)) w = deliver pj hs m w"
  by (simp add: handle_frame_def deliver_def sendable_def parseFrame_frame_of split: option.splits)

lemma blank_line_nonempty [simp]: "blank_line \<noteq> []"
  by (simp add: blank_line_def)

lemma framing_sent:
  "list_all sendable ms \<Longrightarrow>
    framing (map (\<lambda>m. frame_of (fst m) (snd m)) ms) [] (concat (map (\<lambda>m. sendSSE (fst m) (snd m)) ms))"
  by (induction ms) (auto simp: framing_def sendSSE_frame sendable_def frame_of_no_blank)

lemma fold_handle_sent:
  "list_all sendable ms \<Longrightarrow>
    fold (handle_frame pj hs) (map (\<lambda>m. frame_of (fst m) (snd m)) ms) w = fold (deliver pj hs) ms w"
  by (induction ms arbitrary: w) (simp_all add: handle_frame_of)

lemma sent_delivered:
  assumes "list_all sendable ms" and "concat cs = concat (map (\<lambda>m. sendSSE (fst m) (snd m)) ms)"
  shows "stream_loop pj hs (map Chunk cs) [] w = (None, fold (deliver pj hs) ms w)"
  using stream_loop_chunks [of "[]" pj hs cs w] drain_framing [OF framing_sent [OF assms(1)]]
    fold_handle_sent [OF assms(1), of pj hs w] assms(2)
  by simp

subsection \<open>Properties\<close>

text \<open>
  How the network cuts the stream into chunks does not matter: two ways to cut the same
  text run the same handlers on the same frames in the same order, and the frames are those
  of the whole text.
\<close>

theorem chunking_irrelevant:
  assumes "concat cs = concat ds"
  shows "stream_loop pj hs (map Chunk cs) [] w = stream_loop pj hs (map Chunk ds) [] w \<and>
    stream_loop pj hs (map Chunk cs) [] w = (None, fold (handle_frame pj hs) (fst (drain (concat cs))) w)"
  using stream_loop_chunks [of "[]" pj hs cs w] stream_loop_chunks [of "[]" pj hs ds w] assms by simp

definition counting_handlers :: "(jstr, nat, jstr) StreamHandlers" where
  "counting_handlers =
     \<lparr>onMeta = None, onEvent = None, onEnd = Some (\<lambda>d w. (None, w + length d)), onError = None\<rparr>"

theorem chunking_irrelevant_witness:
  "stream_loop Some counting_handlers (map Chunk [[100, 10], [10, 101]]) [] 0 =
     stream_loop Some counting_handlers (map Chunk [[100, 10, 10], [101]]) [] 0"
  using chunking_irrelevant [of "[[100, 10], [10, 101]]" "[[100, 10, 10], [101]]" Some counting_handlers 0]
  by simp

text \<open>
  Every event that the server sends arrives: when the response is the messages of
  \<open>sendSSE\<close>, cut anywhere, \<open>streamChat\<close> calls the handler of each message once, in order, with
  the parsed data, skips those that are not JSON, and returns without an error.
\<close>

theorem server_events_delivered:
  assumes "list_all sendable ms" and "concat cs = concat (map (\<lambda>m. sendSSE (fst m) (snd m)) ms)"
    and "resp_ok r" and "resp_body r = Some (map Chunk cs)"
  shows "streamChat mk_error pj (Inr r) hs w = (None, fold (deliver pj hs) ms w)"
  using sent_delivered [OF assms(1,2)] assms(3,4) by (simp add: streamChat_def)

theorem server_events_delivered_witness:
  "streamChat (\<lambda>m. m) Some (Inr \<lparr>resp_ok = True, resp_status = 200, resp_statusText = [],
      resp_body = Some (map Chunk [sendSSE (js ''end'') [123, 125]])\<rparr>)
     \<lparr>onMeta = None, onEvent = None, onEnd = Some (\<lambda>d w. (None, w + 1)), onError = None\<rparr> (0::nat) = (None, 1)"
proof -
  have "fold (deliver Some \<lparr>onMeta = None, onEvent = None, onEnd = Some (\<lambda>d w. (None, w + 1)),
      onError = None :: (jstr \<Rightarrow> nat \<Rightarrow> nat) option\<rparr>) [(js ''end'', [123, 125])] (0::nat) = 1"
    by (simp add: deliver_def dispatch_event_def call_opt_def)
  then show ?thesis
    by (subst server_events_delivered [of "[(js ''end'', [123, 125])]" "[sendSSE (js ''end'') [123, 125]]"])
      (simp_all add: sendable_def js_def trim_def is_ws_def)
qed

text \<open>
  The inner loop of \<open>streamChat\<close> ends on every buffer, whatever the handlers do: it handles
  the frames of the buffer in order and leaves the unfinished rest.
\<close>

theorem frame_loop_ends:
  "frame_loop pj hs buffer w =
     Some (fold (handle_frame pj hs) (fst (drain buffer)) w, snd (drain buffer))"
proof (induction buffer arbitrary: w rule: drain.induct)
  case (1 buffer)
  show ?case
  proof (cases "index_of blank_line buffer")
    case None
    then show ?thesis by (subst frame_loop.simps) (simp add: drain_None)
  next
    case (Some k)
    from 1 [OF this] Some show ?thesis by (subst frame_loop.simps) (simp add: drain_Some)
  qed
qed

text \<open>
  The framing is unambiguous: \<open>drain\<close> finds the one way to read a buffer as frames closed
  by blank lines with an unfinished rest.
\<close>

theorem framing_unique: "framing fs rest b \<longleftrightarrow> drain b = (fs, rest)"
  using drain_framing framing_drain [of b] by (metis fst_conv snd_conv)

end
