(* ===== verification/Transcript.thy ===== *)
theory Transcript
  imports Chat
begin

text \<open>
  An abstract transcript, without positions: its blocks say themselves whether a text is still
  being continued and which tool call a card belongs to. The event reducer of ChatDrawer.tsx,
  which keeps an index for the text and a map of indices for the cards, implements it.
\<close>

subsection \<open>Blocks and the effect of an event on them\<close>

datatype block =
    Said jstr bool                            \<comment> \<open>a text of the assistant; it is continued\<close>
  | Called jstr jstr "jstr option" "bool option" "jstr option"
      \<comment> \<open>name, input, result, failed; the id whose result goes here\<close>
  | Noted ChatEntry                           \<comment> \<open>an entry that no event changes\<close>

fun entry_of :: "block \<Rightarrow> ChatEntry" where
  "entry_of (Said s opened) = AssistantEntry s"
| "entry_of (Called n i r e owner) = ToolEntry n i r e"
| "entry_of (Noted c) = c"

fun continued :: "block \<Rightarrow> bool" where
  "continued (Said s opened) = opened"
| "continued _ = False"

fun owned_by :: "jstr \<Rightarrow> block \<Rightarrow> bool" where
  "owned_by i (Called n inp r e owner) = (owner = Some i)"
| "owned_by i _ = False"

fun finish_text :: "block \<Rightarrow> block" where
  "finish_text (Said s opened) = Said s False"
| "finish_text b = b"

fun continue_text :: "jstr \<Rightarrow> block \<Rightarrow> block" where
  "continue_text txt (Said s True) = Said (s @ txt) True"
| "continue_text txt b = b"

fun disown :: "jstr option \<Rightarrow> block \<Rightarrow> block" where
  "disown i (Called n inp r e owner) = Called n inp r e (if owner = i then None else owner)"
| "disown i b = b"

fun fill_card :: "jstr \<Rightarrow> jstr option \<Rightarrow> bool option \<Rightarrow> block \<Rightarrow> block" where
  "fill_card i res failed (Called n inp r e owner) =
     (if owner = Some i then Called n inp res failed owner else Called n inp r e owner)"
| "fill_card i res failed b = b"

definition call_id :: "AgentEvent \<Rightarrow> jstr option" where
  "call_id ev = (case ev_tool_id ev of Some i \<Rightarrow> if truthy i then Some i else None | None \<Rightarrow> None)"

definition transcript_step :: "AgentEvent \<Rightarrow> block list \<Rightarrow> block list" where
  "transcript_step ev bs =
     (case ev_type ev of
        EvText \<Rightarrow>
          (case ev_text ev of
             Some txt \<Rightarrow>
               if \<not> truthy txt then bs
               else if list_ex continued bs then map (continue_text txt) bs else bs @ [Said txt True]
           | None \<Rightarrow> bs)
      | EvToolCall \<Rightarrow>
          map (\<lambda>b. disown (call_id ev) (finish_text b)) bs
          @ [Called (opt_or (ev_tool ev) (js ''tool'')) (opt_or (ev_input ev) (js ''{}'')) None None (call_id ev)]
      | EvToolResult \<Rightarrow>
          (case call_id ev of
             Some i \<Rightarrow> map (fill_card i (ev_result ev) (ev_is_error ev)) bs
           | None \<Rightarrow> bs)
      | EvError \<Rightarrow> bs @ [Noted (ErrorEntry (opt_or (ev_result ev) (js ''unknown error'')))]
      | EvCancelled \<Rightarrow> bs @ [Noted CancelledEntry]
      | _ \<Rightarrow> bs)"

subsection \<open>The representation by positions\<close>

fun position :: "('b \<Rightarrow> bool) \<Rightarrow> 'b list \<Rightarrow> nat option" where
  "position P [] = None"
| "position P (x # xs) = (if P x then Some 0 else map_option Suc (position P xs))"

definition represents :: "block list \<Rightarrow> ChatEntry list \<times> turn" where
  "represents bs =
     (map entry_of bs,
      \<lparr>assistantIndex = (case position continued bs of Some k \<Rightarrow> int k | None \<Rightarrow> -1),
       toolsByID = (\<lambda>i. position (owned_by i) bs)\<rparr>)"

text \<open>At most one text is continued, and an id owns at most one card, whose id is not empty.\<close>

definition at_most_one :: "('b \<Rightarrow> bool) \<Rightarrow> 'b list \<Rightarrow> bool" where
  "at_most_one P xs \<longleftrightarrow> length (filter P xs) \<le> 1"

definition blocks_ok :: "block list \<Rightarrow> bool" where
  "blocks_ok bs \<longleftrightarrow> at_most_one continued bs \<and> (\<forall>i. at_most_one (owned_by i) bs)"

lemma position_None: "position P xs = None \<longleftrightarrow> filter P xs = []"
  by (induction xs) auto

lemma position_append:
  "position P (xs @ ys) =
     (case position P xs of Some k \<Rightarrow> Some k | None \<Rightarrow> map_option (\<lambda>k. length xs + k) (position P ys))"
  by (cases "position P ys"; induction xs) (auto split: option.splits)

lemma position_map: "(\<And>x. Q (f x) = P x) \<Longrightarrow> position Q (map f xs) = position P xs"
  by (induction xs) auto

lemma position_SomeD: "position P xs = Some k \<Longrightarrow> k < length xs \<and> P (xs ! k)"
  by (induction xs arbitrary: k) (auto split: if_splits)

lemma filter_map_same: "(\<And>x. Q (f x) = P x) \<Longrightarrow> filter Q (map f xs) = map f (filter P xs)"
  by (induction xs) auto

text \<open>Changing the only element with a property is an update at its position.\<close>

lemma map_at_position:
  assumes "at_most_one P xs" and "position P xs = Some k" and "\<And>x. \<not> P x \<Longrightarrow> f x = x"
  shows "map f xs = xs[k := f (xs ! k)]"
  using assms(1,2)
proof (induction xs arbitrary: k)
  case (Cons x xs)
  show ?case
  proof (cases "P x")
    case True
    with Cons.prems have "filter P xs = []" "k = 0" by (auto simp: at_most_one_def)
    then show ?thesis using assms(3) by (auto simp: filter_empty_conv intro!: map_idI)
  next
    case False
    with Cons show ?thesis using assms(3) by (auto simp: at_most_one_def)
  qed
qed simp

subsection \<open>The reducer implements the steps\<close>

lemma block_simps [simp]:
  "entry_of (finish_text b) = entry_of b" "entry_of (disown w b) = entry_of b"
  "continued (finish_text b) = False" "continued (disown w b) = continued b"
  "continued (continue_text txt b) = continued b" "continued (fill_card i res failed b) = continued b"
  "owned_by i (finish_text b) = owned_by i b" "owned_by i (continue_text txt b) = owned_by i b"
  "owned_by i (fill_card j res failed b) = owned_by i b"
  "owned_by i (disown w b) = (owned_by i b \<and> w \<noteq> Some i)"
  by (cases b; auto; cases "(txt, b)" rule: continue_text.cases; auto)+

lemma disown_none: "disown None b = b"
  by (cases b) auto

lemma not_continued: "\<not> continued b \<Longrightarrow> continue_text txt b = b"
  by (cases "(txt, b)" rule: continue_text.cases) auto

lemma continuedE: "continued b \<Longrightarrow> (\<And>s. b = Said s True \<Longrightarrow> R) \<Longrightarrow> R"
  by (cases b) auto

lemma not_owned: "\<not> owned_by i b \<Longrightarrow> fill_card i res failed b = b"
  by (cases b) auto

lemma ownedE: "owned_by i b \<Longrightarrow> (\<And>n inp r e. b = Called n inp r e (Some i) \<Longrightarrow> R) \<Longrightarrow> R"
  by (cases b) auto

lemma represents_fields:
  "fst (represents bs) = map entry_of bs"
  "assistantIndex (snd (represents bs)) = (case position continued bs of Some k \<Rightarrow> int k | None \<Rightarrow> -1)"
  "toolsByID (snd (represents bs)) i = position (owned_by i) bs"
  by (simp_all add: represents_def)

lemma represents_update:
  "position continued bs' = position continued bs \<Longrightarrow> (\<And>i. position (owned_by i) bs' = position (owned_by i) bs)
     \<Longrightarrow> represents bs' = (map entry_of bs', snd (represents bs))"
  by (simp add: represents_def)

lemma text_refines:
  assumes ok: "blocks_ok bs"
  shows "apply_text txt (represents bs) =
    represents (if list_ex continued bs then map (continue_text txt) bs else bs @ [Said txt True])"
proof (cases "position continued bs")
  case None
  then have "\<not> list_ex continued bs" by (simp add: position_None filter_empty_conv list_ex_iff)
  then show ?thesis
    using None
    by (simp add: apply_text_def represents_def entry_at_def position_append fun_eq_iff split: option.splits)
next
  case (Some k)
  then have k: "k < length bs" "continued (bs ! k)" by (auto dest: position_SomeD)
  then have ex: "list_ex continued bs" by (auto simp: list_ex_iff)
  from k(2) obtain s where s: "bs ! k = Said s True" by (rule continuedE)
  have m: "map (continue_text txt) bs = bs[k := Said (s @ txt) True]"
    using map_at_position [of continued bs k "continue_text txt"] ok Some
    by (simp add: blocks_ok_def not_continued s)
  have "map entry_of (map (continue_text txt) bs) = (map entry_of bs)[k := AssistantEntry (s @ txt)]"
    by (simp only: m map_update entry_of.simps)
  moreover have "represents (map (continue_text txt) bs) = (map entry_of (map (continue_text txt) bs), snd (represents bs))"
    by (rule represents_update) (rule position_map, simp)+
  ultimately have "represents (map (continue_text txt) bs) =
      ((map entry_of bs)[k := AssistantEntry (s @ txt)], snd (represents bs))"
    by simp
  then show ?thesis
    using Some k s ex by (simp add: apply_text_def represents_def entry_at_def)
qed

lemma call_refines:
  "apply_tool_call ev (represents bs) =
     represents (map (\<lambda>b. disown (call_id ev) (finish_text b)) bs
       @ [Called (opt_or (ev_tool ev) (js ''tool'')) (opt_or (ev_input ev) (js ''{}'')) None None (call_id ev)])"
proof -
  have none: "position (\<lambda>b. False) bs = None" for bs :: "block list" by (induction bs) auto
  have c: "position continued (map (\<lambda>b. disown j (finish_text b)) bs) = None" for j
    using position_map [of continued "\<lambda>b. disown j (finish_text b)" "\<lambda>b. False" bs] by (simp add: none)
  have o: "position (owned_by i) (map (\<lambda>b. disown j (finish_text b)) bs) =
      (if j = Some i then None else position (owned_by i) bs)" for i j
    using position_map [of "owned_by i" "\<lambda>b. disown j (finish_text b)" "\<lambda>b. owned_by i b \<and> j \<noteq> Some i" bs]
    by (simp add: none)
  show ?thesis
    by (auto simp: apply_tool_call_def represents_def position_append c o call_id_def Let_def comp_def
        fun_eq_iff split: option.splits)
qed

lemma result_refines:
  assumes ok: "blocks_ok bs"
  shows "apply_tool_result ev (represents bs) =
    represents (case call_id ev of Some i \<Rightarrow> map (fill_card i (ev_result ev) (ev_is_error ev)) bs | None \<Rightarrow> bs)"
proof (cases "call_id ev")
  case None
  then show ?thesis
    by (auto simp: apply_tool_result_def represents_def call_id_def Let_def split: option.splits if_splits)
next
  case (Some i)
  let ?f = "fill_card i (ev_result ev) (ev_is_error ev)"
  have idx: "apply_tool_result ev (represents bs) =
      (case position (owned_by i) bs of
         None \<Rightarrow> represents bs
       | Some k \<Rightarrow> (case entry_at (map entry_of bs) (int k) of
             Some (ToolEntry n inp r e) \<Rightarrow>
               ((map entry_of bs)[k := ToolEntry n inp (ev_result ev) (ev_is_error ev)], snd (represents bs))
           | _ \<Rightarrow> represents bs))"
  proof -
    obtain es t where r: "represents bs = (es, t)" by fastforce
    then have f: "es = map entry_of bs" "toolsByID t i = position (owned_by i) bs"
      using represents_fields [of bs] by auto
    from Some have "ev_tool_id ev = Some i" "truthy i" by (auto simp: call_id_def split: option.splits if_splits)
    then show ?thesis unfolding apply_tool_result_def r f(1) snd_conv by (simp add: f(2) Let_def)
  qed
  show ?thesis
  proof (cases "position (owned_by i) bs")
    case None
    then have "map ?f bs = bs"
      by (intro map_idI not_owned) (simp add: position_None filter_empty_conv)
    then show ?thesis using None by (simp add: idx Some)
  next
    case (Some k)
    then have k: "k < length bs" "owned_by i (bs ! k)" by (auto dest: position_SomeD)
    from k(2) obtain n inp r e where c: "bs ! k = Called n inp r e (Some i)" by (rule ownedE)
    have m: "map ?f bs = bs[k := Called n inp (ev_result ev) (ev_is_error ev) (Some i)]"
      using map_at_position [of "owned_by i" bs k ?f] ok Some by (simp add: blocks_ok_def not_owned c)
    have "map entry_of (map ?f bs) = (map entry_of bs)[k := ToolEntry n inp (ev_result ev) (ev_is_error ev)]"
      by (simp only: m map_update entry_of.simps)
    moreover have "represents (map ?f bs) = (map entry_of (map ?f bs), snd (represents bs))"
      by (rule represents_update) (rule position_map, simp)+
    ultimately have "represents (map ?f bs) =
        ((map entry_of bs)[k := ToolEntry n inp (ev_result ev) (ev_is_error ev)], snd (represents bs))"
      by simp
    then show ?thesis using Some k c \<open>call_id ev = Some i\<close> by (simp add: idx entry_at_def)
  qed
qed

lemma noted_refines:
  "(fst (represents bs) @ [c], snd (represents bs)) = represents (bs @ [Noted c])"
  by (simp add: represents_def position_append fun_eq_iff split: option.splits)

lemma event_refines:
  "blocks_ok bs \<Longrightarrow> applyAgentEvent ev (represents bs) = represents (transcript_step ev bs)"
  by (auto simp: applyAgentEvent_def transcript_step_def text_refines call_refines result_refines
      noted_refines split: AgentEventType.splits option.splits)

subsection \<open>The steps keep the blocks well-formed\<close>

lemma at_most_one_append: "at_most_one P (xs @ ys) \<longleftrightarrow> length (filter P xs) + length (filter P ys) \<le> 1"
  by (simp add: at_most_one_def)

lemma at_most_one_map: "(\<And>x. Q (f x) = P x) \<Longrightarrow> at_most_one Q (map f xs) = at_most_one P xs"
  by (simp add: at_most_one_def filter_map_same)

lemma blocks_ok_map:
  assumes "\<And>b. continued (f b) = continued b" and "\<And>i b. owned_by i (f b) = owned_by i b"
  shows "blocks_ok (map f bs) = blocks_ok bs"
  unfolding blocks_ok_def
  by (simp add: at_most_one_map [where Q = continued and P = continued and f = f]
      at_most_one_map [where Q = "owned_by i" and P = "owned_by i" and f = f for i] assms)

lemma none_left: "(\<And>x. \<not> Q (f x)) \<Longrightarrow> filter Q (map f xs) = []"
  by (induction xs) auto

lemma step_blocks_ok:
  assumes ok: "blocks_ok bs"
  shows "blocks_ok (transcript_step ev bs)"
proof (cases "ev_type ev")
  case EvText
  have "blocks_ok (bs @ [Said m True])" if "\<not> list_ex continued bs" for m
    using ok that by (simp add: blocks_ok_def at_most_one_def list_ex_iff filter_empty_conv)
  with EvText ok show ?thesis
    by (auto simp: transcript_step_def blocks_ok_map simp del: list_ex_iff split: option.splits)
next
  case EvToolCall
  let ?f = "\<lambda>b. disown (call_id ev) (finish_text b)"
  have own: "length (filter (owned_by i) (map ?f bs)) \<le> (if call_id ev = Some i then 0 else 1)" for i
  proof (cases "call_id ev = Some i")
    case False
    then have "filter (owned_by i) (map ?f bs) = map ?f (filter (owned_by i) bs)"
      by (intro filter_map_same) simp
    then show ?thesis using ok False by (simp add: blocks_ok_def at_most_one_def)
  qed (simp add: none_left)
  have "at_most_one (owned_by i) (map ?f bs @ [Called a b None None (call_id ev)])" for i a b
    using own [of i] unfolding at_most_one_append by (simp del: filter_map split: if_splits)
  moreover have "at_most_one continued (map ?f bs @ [Called a b None None (call_id ev)])" for a b
    unfolding at_most_one_append by (simp add: none_left)
  ultimately show ?thesis using EvToolCall by (simp add: transcript_step_def blocks_ok_def)
next
  case EvToolResult
  then show ?thesis using ok by (simp add: transcript_step_def blocks_ok_map split: option.splits)
qed (use ok in \<open>auto simp: transcript_step_def blocks_ok_map blocks_ok_def at_most_one_append at_most_one_def
       split: option.splits\<close>)

lemma noted_represents: "represents (map Noted es) = (es, init_turn)" "blocks_ok (map Noted es)"
proof -
  have "filter continued (map Noted es) = []" "filter (owned_by i) (map Noted es) = []" for i
    by (simp_all add: none_left)
  then show "represents (map Noted es) = (es, init_turn)" "blocks_ok (map Noted es)"
    by (simp_all add: represents_def init_turn_def comp_def blocks_ok_def at_most_one_def fun_eq_iff
        position_None [THEN iffD2])
qed

lemma events_refine:
  "blocks_ok bs \<Longrightarrow> run_events evs (represents bs) = represents (fold transcript_step evs bs)
     \<and> blocks_ok (fold transcript_step evs bs)"
  by (induction evs arbitrary: bs) (simp_all add: run_events_def event_refines step_blocks_ok)

subsection \<open>Properties\<close>

text \<open>
  C10: The reducer of the transcript, with its index of the current text and its map from call ids
  to positions, implements the abstract transcript: whatever the entries before the turn and
  whatever events arrive, the entries are those of the blocks, and the refs point to the block
  that is continued and to the cards that own an id.
\<close>

theorem transcript_refines:
  "run_events evs (es, init_turn) = represents (fold transcript_step evs (map Noted es))"
  using events_refine [of "map Noted es" evs] by (simp add: noted_represents)

text \<open>
  C12: The refs of a turn are well-typed: after any events, the index of the current text is -1 or
  that of an assistant entry, and every id in the map is the position of a tool card, its own.
\<close>

theorem refs_well_typed:
  "case run_events evs (es, init_turn) of (entries, t) \<Rightarrow>
     (assistantIndex t = -1 \<or>
      (\<exists>txt. entry_at entries (assistantIndex t) = Some (AssistantEntry txt))) \<and>
     (\<forall>i k. toolsByID t i = Some k \<longrightarrow> k < length entries \<and> is_tool (entries ! k)) \<and>
     inj_on (toolsByID t) (dom (toolsByID t))"
proof -
  define bs where "bs = fold transcript_step evs (map Noted es)"
  have turn: "run_events evs (es, init_turn) = represents bs"
    using events_refine [of "map Noted es" evs] by (simp add: noted_represents bs_def)
  have idx: "case position continued bs of None \<Rightarrow> True
      | Some k \<Rightarrow> \<exists>txt. entry_at (map entry_of bs) (int k) = Some (AssistantEntry txt)"
    by (auto simp: entry_at_def dest!: position_SomeD elim!: continuedE split: option.splits)
  have card: "k < length bs \<and> is_tool (entry_of (bs ! k))" if "position (owned_by i) bs = Some k" for i k
    using position_SomeD [OF that] by (auto elim!: ownedE)
  have inj: "i = j" if "position (owned_by i) bs = Some k" "position (owned_by j) bs = Some k" for i j k
    using position_SomeD [OF that(1)] position_SomeD [OF that(2)] by (auto elim!: ownedE)
  show ?thesis
    using idx card inj unfolding turn
    by (auto simp: represents_def inj_on_def split: option.splits)
qed

theorem refs_well_typed_witness:
  "is_tool (fst (run_events [sample_call] ([UserEntry [63]], init_turn)) ! 1)"
proof -
  have "toolsByID (snd (run_events [sample_call] ([UserEntry [63]], init_turn))) [49] = Some 1"
    by (simp add: run_events_def applyAgentEvent_def apply_tool_call_def sample_call_def init_turn_def Let_def)
  with refs_well_typed [of "[sample_call]" "[UserEntry [63]]"] show ?thesis
    by (auto split: prod.splits)
qed

end
