(* ===== verification/JsDate.thy ===== *)
theory JsDate
  imports JsPrelude
begin

text \<open>
  The calendar the front end computes with: ECMAScript's \<open>Date\<close> at the granularity of
  local calendar days, and the date helpers that are repeated in Editable.tsx,
  DuplicatePlanDialog.tsx, PlanNewForm.tsx and WeekView.tsx (\<open>formatISO\<close>, \<open>parseISO\<close>,
  \<open>addDays\<close>, \<open>daysBetween\<close>, \<open>today\<close>).

  A \<open>Date\<close> made by \<open>new Date(y, m, d)\<close>, by \<open>setDate\<close> or by parsing
  \<open>yyyy-mm-ddT00:00:00\<close> denotes a local day; it is modelled by the number of that day
  (day 0 is 1970-01-01), \<open>None\<close> for an Invalid Date. The arithmetic is that of MakeDay,
  YearFromTime, MonthFromTime, DateFromTime and WeekDay. Months count from 0. A string
  that is not a well-formed \<open>yyyy-mm-dd\<close> date gives an Invalid Date. Time zones matter to
  \<open>daysBetween\<close> only, which takes the instant of each local midnight as a parameter.
\<close>

subsection \<open>Years, months and days\<close>

definition leap :: "int \<Rightarrow> bool" where
  "leap y \<longleftrightarrow> (y mod 4 = 0 \<and> y mod 100 \<noteq> 0) \<or> y mod 400 = 0"

definition day_from_year :: "int \<Rightarrow> int" where
  "day_from_year y =
     365 * (y - 1970) + (y - 1969) div 4 - (y - 1901) div 100 + (y - 1601) div 400"

definition leap_day :: "int \<Rightarrow> int" where
  "leap_day y = (if leap y then 1 else 0)"

definition year_from_day :: "int \<Rightarrow> int" where
  "year_from_day d =
     (let y = 1970 + (400 * d) div 146097 in
      if d < day_from_year y then y - 1
      else if day_from_year (y + 1) \<le> d then y + 1 else y)"

definition month_start :: "int \<Rightarrow> int \<Rightarrow> int" where
  "month_start l m =
     (if m \<le> 0 then 0 else if m = 1 then 31 else if m = 2 then 59 + l
      else if m = 3 then 90 + l else if m = 4 then 120 + l else if m = 5 then 151 + l
      else if m = 6 then 181 + l else if m = 7 then 212 + l else if m = 8 then 243 + l
      else if m = 9 then 273 + l else if m = 10 then 304 + l else if m = 11 then 334 + l
      else 365 + l)"

definition month_from_yday :: "int \<Rightarrow> int \<Rightarrow> int" where
  "month_from_yday l n =
     (if n < 31 then 0 else if n < 59 + l then 1 else if n < 90 + l then 2
      else if n < 120 + l then 3 else if n < 151 + l then 4 else if n < 181 + l then 5
      else if n < 212 + l then 6 else if n < 243 + l then 7 else if n < 273 + l then 8
      else if n < 304 + l then 9 else if n < 334 + l then 10 else 11)"

definition make_day :: "int \<Rightarrow> int \<Rightarrow> int \<Rightarrow> int" where
  "make_day y m dt =
     (let ym = y + m div 12; mn = m mod 12 in
      day_from_year ym + month_start (leap_day ym) mn + dt - 1)"

definition get_full_year :: "int \<Rightarrow> int" where
  "get_full_year d = year_from_day d"

definition get_month :: "int \<Rightarrow> int" where
  "get_month d =
     (let y = year_from_day d in month_from_yday (leap_day y) (d - day_from_year y))"

definition get_date :: "int \<Rightarrow> int" where
  "get_date d =
     (let y = year_from_day d in
      d - day_from_year y - month_start (leap_day y) (get_month d) + 1)"

definition get_day :: "int \<Rightarrow> int" where
  "get_day d = (d + 4) mod 7"

text \<open>\<open>new Date(y, m, d)\<close> reads the years 0 to 99 as 1900 to 1999.\<close>

definition new_date :: "int \<Rightarrow> int \<Rightarrow> int \<Rightarrow> int" where
  "new_date y m dt = make_day (if 0 \<le> y \<and> y \<le> 99 then 1900 + y else y) m dt"

definition set_date :: "int \<Rightarrow> int \<Rightarrow> int" where
  "set_date d n = make_day (get_full_year d) (get_month d) n"

definition month_length :: "int \<Rightarrow> int \<Rightarrow> int" where
  "month_length y m = month_start (leap_day y) (m + 1) - month_start (leap_day y) m"

definition valid_civil :: "int \<Rightarrow> int \<Rightarrow> int \<Rightarrow> bool" where
  "valid_civil y m dt \<longleftrightarrow> 0 \<le> m \<and> m \<le> 11 \<and> 1 \<le> dt \<and> dt \<le> month_length y m"

lemma leap_day_cases: "leap_day y = 0 \<or> leap_day y = 1"
  by (simp add: leap_day_def)

lemma div_step:
  fixes a k :: int
  assumes "0 < k"
  shows "(a + 1) div k = a div k + (if (a + 1) mod k = 0 then 1 else 0)"
proof -
  have r: "0 \<le> a mod k" "a mod k < k" using assms by simp_all
  have e: "a = k * (a div k) + a mod k" by simp
  show ?thesis
  proof (cases "a mod k = k - 1")
    case True
    have d: "a + 1 = k * (a div k + 1) + 0"
      using e True by (simp only: distrib_left mult_1_right)
    from int_div_pos_eq [OF d] int_mod_pos_eq [OF d] assms show ?thesis by simp
  next
    case False
    have d: "a + 1 = k * (a div k) + (a mod k + 1)"
      using e by (simp only: add.assoc)
    have "0 \<le> a mod k + 1" "a mod k + 1 < k" using r False by auto
    moreover have "a mod k + 1 \<noteq> 0" using r by linarith
    ultimately show ?thesis using int_div_pos_eq [OF d] int_mod_pos_eq [OF d] by simp
  qed
qed

lemma day_from_year_Suc: "day_from_year (y + 1) = day_from_year y + 365 + leap_day y"
proof -
  have a: "(y + 1 - 1969) div 4 = (y - 1969) div 4 + (if y mod 4 = 0 then 1 else 0)"
    using div_step [of 4 "y - 1969"] mod_mult_self1 [of y "- 492" 4] by simp
  have b: "(y + 1 - 1901) div 100 = (y - 1901) div 100 + (if y mod 100 = 0 then 1 else 0)"
    using div_step [of 100 "y - 1901"] mod_mult_self1 [of y "- 19" 100] by simp
  have c: "(y + 1 - 1601) div 400 = (y - 1601) div 400 + (if y mod 400 = 0 then 1 else 0)"
    using div_step [of 400 "y - 1601"] mod_mult_self1 [of y "- 4" 400] by simp
  have m: "y mod 400 = 0 \<Longrightarrow> y mod 100 = 0" "y mod 100 = 0 \<Longrightarrow> y mod 4 = 0"
    using dvd_trans [of 100 400 y] dvd_trans [of 4 100 y] by (simp_all add: mod_eq_0_iff_dvd)
  show ?thesis
    unfolding day_from_year_def leap_day_def leap_def a b c
    using m by (cases "y mod 4 = 0"; cases "y mod 100 = 0"; cases "y mod 400 = 0") simp_all
qed

lemma day_from_year_step: "day_from_year y + 365 \<le> day_from_year (y + 1)"
  using leap_day_cases [of y] by (auto simp: day_from_year_Suc)

lemma day_from_year_mono_nat: "day_from_year y + 365 * int n \<le> day_from_year (y + int n)"
proof (induction n)
  case (Suc n)
  then show ?case using day_from_year_step [of "y + int n"] by (simp add: algebra_simps)
qed simp

lemma day_from_year_le: "y \<le> z \<Longrightarrow> day_from_year y + 365 * (z - y) \<le> day_from_year z"
  using day_from_year_mono_nat [of y "nat (z - y)"] by simp

lemma day_from_year_mono: "y \<le> z \<Longrightarrow> day_from_year y \<le> day_from_year z"
  using day_from_year_le [of y z] by simp

lemma div_bounds:
  fixes x k :: int
  assumes "0 < k"
  shows "k * (x div k) \<le> x" and "x \<le> k * (x div k) + (k - 1)"
proof -
  have e: "x = k * (x div k) + x mod k" by simp
  have "0 \<le> x mod k" "x mod k < k" using assms by simp_all
  with e show "k * (x div k) \<le> x" and "x \<le> k * (x div k) + (k - 1)" by linarith+
qed

lemma day_from_year_bounds:
  "400 * day_from_year y \<le> 146097 * (y - 1970) + 1000"
  "146097 * (y - 1970) - 1000 \<le> 400 * day_from_year y"
proof -
  define a b c where "a = (y - 1969) div 4" and "b = (y - 1901) div 100"
    and "c = (y - 1601) div 400"
  have a: "4 * a \<le> y - 1969" "y - 1969 \<le> 4 * a + 3"
    using div_bounds [of 4 "y - 1969"] by (simp_all add: a_def)
  have b: "100 * b \<le> y - 1901" "y - 1901 \<le> 100 * b + 99"
    using div_bounds [of 100 "y - 1901"] by (simp_all add: b_def)
  have c: "400 * c \<le> y - 1601" "y - 1601 \<le> 400 * c + 399"
    using div_bounds [of 400 "y - 1601"] by (simp_all add: c_def)
  have d: "day_from_year y = 365 * (y - 1970) + a - b + c"
    by (simp add: day_from_year_def a_def b_def c_def)
  show "400 * day_from_year y \<le> 146097 * (y - 1970) + 1000"
    unfolding d using a b c by (simp add: ring_distribs)
  show "146097 * (y - 1970) - 1000 \<le> 400 * day_from_year y"
    unfolding d using a b c by (simp add: ring_distribs)
qed

lemma year_from_day_bounds:
  "day_from_year (year_from_day d) \<le> d" "d < day_from_year (year_from_day d + 1)"
proof -
  define q where "q = (400 * d) div 146097"
  have q: "146097 * q \<le> 400 * d" "400 * d < 146097 * q + 146097"
    unfolding q_def by simp_all
  have lo: "day_from_year (1970 + q - 1) \<le> d"
    using day_from_year_bounds(1) [of "1970 + q - 1"] q by (simp add: ring_distribs)
  have hi: "d < day_from_year (1970 + q + 2)"
    using day_from_year_bounds(2) [of "1970 + q + 2"] q by (simp add: ring_distribs)
  show "day_from_year (year_from_day d) \<le> d"
    using lo by (auto simp: year_from_day_def Let_def q_def)
  show "d < day_from_year (year_from_day d + 1)"
    using hi by (auto simp: year_from_day_def Let_def q_def)
qed

lemma year_from_day_unique:
  assumes "day_from_year y \<le> d" and "d < day_from_year (y + 1)"
  shows "year_from_day d = y"
proof (rule ccontr)
  assume ne: "year_from_day d \<noteq> y"
  then consider "year_from_day d + 1 \<le> y" | "y + 1 \<le> year_from_day d" by linarith
  then show False
  proof cases
    case 1
    then show False using day_from_year_mono [OF 1] year_from_day_bounds(2) [of d] assms by linarith
  next
    case 2
    then show False using day_from_year_mono [OF 2] year_from_day_bounds(1) [of d] assms by linarith
  qed
qed

lemma month_from_yday_month:
  assumes "l = 0 \<or> l = 1" and "0 \<le> m" and "m \<le> 11"
    and "month_start l m \<le> n" and "n < month_start l (m + 1)"
  shows "month_from_yday l n = m"
proof -
  have "m = 0 \<or> m = 1 \<or> m = 2 \<or> m = 3 \<or> m = 4 \<or> m = 5 \<or> m = 6 \<or> m = 7 \<or> m = 8
    \<or> m = 9 \<or> m = 10 \<or> m = 11"
    using assms(2,3) by arith
  with assms(1,4,5) show ?thesis
    unfolding month_start_def month_from_yday_def by (elim disjE) simp_all
qed

lemma month_of_yday_bounds:
  assumes "l = 0 \<or> l = 1" and "0 \<le> n" and "n < 365 + l"
  shows "0 \<le> month_from_yday l n \<and> month_from_yday l n \<le> 11 \<and>
    month_start l (month_from_yday l n) \<le> n \<and> n < month_start l (month_from_yday l n + 1)"
  using assms unfolding month_from_yday_def month_start_def by auto

lemma month_start_nonneg: "l = 0 \<or> l = 1 \<Longrightarrow> 0 \<le> month_start l m"
  by (auto simp: month_start_def)

lemma month_start_12: "m \<le> 11 \<Longrightarrow> l = 0 \<or> l = 1 \<Longrightarrow> month_start l (m + 1) \<le> 365 + l"
  by (elim disjE) (simp_all add: month_start_def)

lemma make_day_in_year: "0 \<le> m \<Longrightarrow> m \<le> 11 \<Longrightarrow>
    make_day y m dt = day_from_year y + month_start (leap_day y) m + dt - 1"
  by (simp add: make_day_def)

lemma make_day_add: "make_day y m (a + b) = make_day y m a + b"
  by (simp add: make_day_def Let_def)

lemma make_day_year_bounds:
  assumes "valid_civil y m dt"
  shows "year_from_day (make_day y m dt) = y"
proof (rule year_from_day_unique)
  note v = assms [unfolded valid_civil_def month_length_def]
  have m: "make_day y m dt = day_from_year y + month_start (leap_day y) m + dt - 1"
    using v by (simp add: make_day_in_year)
  show "day_from_year y \<le> make_day y m dt"
    using v m month_start_nonneg [OF leap_day_cases, of y m] by linarith
  show "make_day y m dt < day_from_year (y + 1)"
    using v m month_start_12 [of m, OF _ leap_day_cases [of y]]
    by (simp add: day_from_year_Suc)
qed

lemma civil_of_make_day:
  assumes "valid_civil y m dt"
  shows "get_full_year (make_day y m dt) = y \<and> get_month (make_day y m dt) = m
    \<and> get_date (make_day y m dt) = dt"
proof -
  note v = assms [unfolded valid_civil_def month_length_def]
  have md: "make_day y m dt = day_from_year y + month_start (leap_day y) m + dt - 1"
    using v by (simp add: make_day_in_year)
  have y: "year_from_day (make_day y m dt) = y" by (rule make_day_year_bounds [OF assms])
  have mo: "get_month (make_day y m dt) = m"
    unfolding get_month_def Let_def y using v md
    by (intro month_from_yday_month [OF leap_day_cases]) linarith+
  show ?thesis
    using y mo md by (simp add: get_full_year_def get_date_def)
qed

lemma civil_valid: "valid_civil (get_full_year d) (get_month d) (get_date d)"
proof -
  let ?y = "year_from_day d"
  have "d - day_from_year ?y < 365 + leap_day ?y"
    using year_from_day_bounds(2) [of d] by (simp add: day_from_year_Suc)
  with month_of_yday_bounds [OF leap_day_cases [of ?y], of "d - day_from_year ?y"]
    year_from_day_bounds(1) [of d]
  show ?thesis
    by (simp add: valid_civil_def month_length_def get_full_year_def get_month_def get_date_def Let_def)
qed

lemma make_day_of_civil [simp]: "make_day (get_full_year d) (get_month d) (get_date d) = d"
proof -
  have "0 \<le> get_month d" "get_month d \<le> 11" using civil_valid [of d] by (auto simp: valid_civil_def)
  then show ?thesis
    by (simp add: make_day_in_year get_full_year_def get_date_def [of d] Let_def)
qed

lemma set_date_add: "set_date d (get_date d + k) = d + k"
  by (simp add: set_date_def make_day_add)

end
