(* ===== verification/IsoDate.thy ===== *)
theory IsoDate
  imports JsDate
begin

text \<open>
  Dates as the application stores and compares them: \<open>yyyy-mm-dd\<close> strings. Printing
  and parsing (formatISO and parseISO of Editable.tsx), their round trip, the agreement
  of string order with calendar order that WeekView.tsx relies on when it compares dates
  with \<open><\<close>, adding days, and the distance in days across time-zone changes.

  The locale \<open>date_text\<close> is the interface the other components use.
\<close>

definition pad2 :: "int \<Rightarrow> jstr" where
  "pad2 n = pad_start 2 c_0 (dec_int n)"

text \<open>\<open>formatISO\<close>: the fields of an Invalid Date are NaN, which prints as \<open>NaN\<close>.\<close>

definition format_iso :: "int option \<Rightarrow> jstr" where
  "format_iso dt =
     (case dt of
        None \<Rightarrow> js ''NaN-NaN-NaN''
      | Some d \<Rightarrow> dec_int (get_full_year d) @ [c_dash] @ pad2 (get_month d + 1) @ [c_dash]
                  @ pad2 (get_date d))"

text \<open>\<open>parseISO\<close>, \<open>new Date(`${iso}T00:00:00`)\<close>.\<close>

definition parse_iso :: "jstr \<Rightarrow> int option" where
  "parse_iso s =
     (let ys = take 4 s; ms = take 2 (drop 5 s); ds = take 2 (drop 8 s);
          y = int (dec_value ys); m = int (dec_value ms) - 1; dt = int (dec_value ds) in
      if length s = 10 \<and> list_all is_digit (ys @ ms @ ds) \<and> s ! 4 = c_dash \<and> s ! 7 = c_dash
         \<and> valid_civil y m dt
      then Some (make_day y m dt) else None)"

definition four_digit_year :: "int \<Rightarrow> bool" where
  "four_digit_year d \<longleftrightarrow> 1000 \<le> get_full_year d \<and> get_full_year d \<le> 9999"

definition add_days :: "jstr \<Rightarrow> int option \<Rightarrow> jstr" where
  "add_days base offset =
     format_iso (case parse_iso base of None \<Rightarrow> None
       | Some d \<Rightarrow> map_option (\<lambda>k. set_date d (get_date d + k)) offset)"

text \<open>
  \<open>daysBetween\<close>: the difference of two local midnights in milliseconds, divided by the
  length of a day and rounded as \<open>Math.round\<close> does. \<open>midnight d\<close> is the instant of the
  local midnight of day \<open>d\<close>, which the time zone decides.
\<close>

abbreviation ms_per_day :: int where "ms_per_day \<equiv> 86400000"

definition round_div :: "int \<Rightarrow> int \<Rightarrow> int" where
  "round_div a b = (2 * a + b) div (2 * b)"

definition days_between :: "(int \<Rightarrow> int) \<Rightarrow> jstr \<Rightarrow> jstr \<Rightarrow> int option" where
  "days_between midnight a b =
     (case (parse_iso a, parse_iso b) of
        (Some s, Some e) \<Rightarrow> Some (round_div (midnight e - midnight s) ms_per_day)
      | _ \<Rightarrow> None)"

subsection \<open>Printing and parsing\<close>

lemma pad2_digits:
  assumes "0 \<le> n" and "n < 100"
  shows "length (pad2 n) = 2" and "list_all is_digit (pad2 n)" and "int (dec_value (pad2 n)) = n"
proof -
  obtain k where k: "n = int k" "k < 100" using assms by (metis nonneg_int_cases of_nat_less_numeral_iff)
  have le: "length (dec k) \<le> 2" using k length_dec_le [of 2 k] by simp
  have "0 < length (dec k)" by simp
  then consider "length (dec k) = 1" | "length (dec k) = 2" using le by linarith
  then have "length (pad2 n) = 2 \<and> list_all is_digit (pad2 n) \<and> dec_value (pad2 n) = k"
  proof cases
    case 1
    then have "pad2 n = c_0 # dec k" using k by (simp add: pad2_def pad_start_def dec_int_def)
    with 1 show ?thesis
      by (auto simp: dec_value_Cons list_all_iff is_digit_def dest!: digits_dec)
  next
    case 2
    then have "pad2 n = dec k" using k by (simp add: pad2_def pad_start_def dec_int_def)
    with 2 show ?thesis by (auto simp: list_all_iff dest: digits_dec)
  qed
  with k show "length (pad2 n) = 2" and "list_all is_digit (pad2 n)"
    and "int (dec_value (pad2 n)) = n" by auto
qed

lemma month_length_le_31: "0 \<le> m \<Longrightarrow> m \<le> 11 \<Longrightarrow> month_length y m \<le> 31"
  using leap_day_cases [of y]
  by (elim disjE) (simp_all add: month_length_def month_start_def)

lemma civil_ranges:
  "0 \<le> get_month d" "get_month d \<le> 11" "1 \<le> get_date d" "get_date d \<le> 31"
proof -
  show "0 \<le> get_month d" "get_month d \<le> 11" "1 \<le> get_date d"
    using civil_valid [of d] by (auto simp: valid_civil_def)
  then show "get_date d \<le> 31"
    using civil_valid [of d] month_length_le_31 [of "get_month d" "get_full_year d"]
    by (auto simp: valid_civil_def)
qed

lemma year_digits:
  assumes "1000 \<le> y" and "y \<le> 9999"
  shows "length (dec_int y) = 4" and "list_all is_digit (dec_int y)"
    and "int (dec_value (dec_int y)) = y"
proof -
  obtain k where k: "y = int k" using assms zero_le_imp_eq_int [of y] by auto
  have d: "dec_int y = dec k" using k by (simp add: dec_int_def)
  show "length (dec_int y) = 4" unfolding d using length_dec [of 3 k] assms k by simp
  show "list_all is_digit (dec_int y)" using d by (auto simp: list_all_iff intro: digits_dec)
  show "int (dec_value (dec_int y)) = y" using k d by simp
qed

lemma format_iso_shape:
  assumes "four_digit_year d"
  shows "format_iso (Some d) =
      dec_int (get_full_year d) @ c_dash # pad2 (get_month d + 1) @ c_dash # pad2 (get_date d)"
    and "length (format_iso (Some d)) = 10"
  using assms year_digits(1) [of "get_full_year d"] pad2_digits(1) [of "get_month d + 1"]
    pad2_digits(1) [of "get_date d"] civil_ranges [of d]
  by (simp_all add: format_iso_def four_digit_year_def)

lemma parse_format_iso:
  assumes "four_digit_year d"
  shows "parse_iso (format_iso (Some d)) = Some d"
proof -
  let ?Y = "dec_int (get_full_year d)" and ?M = "pad2 (get_month d + 1)" and ?D = "pad2 (get_date d)"
  let ?s = "?Y @ c_dash # ?M @ c_dash # ?D"
  have Y: "length ?Y = 4" "list_all is_digit ?Y" "int (dec_value ?Y) = get_full_year d"
    using assms year_digits [of "get_full_year d"] by (auto simp: four_digit_year_def)
  have M: "length ?M = 2" "list_all is_digit ?M" "int (dec_value ?M) = get_month d + 1"
    using pad2_digits [of "get_month d + 1"] civil_ranges [of d] by auto
  have D: "length ?D = 2" "list_all is_digit ?D" "int (dec_value ?D) = get_date d"
    using pad2_digits [of "get_date d"] civil_ranges [of d] by auto
  have parts: "take 4 ?s = ?Y" "take 2 (drop 5 ?s) = ?M" "take 2 (drop 8 ?s) = ?D"
    "?s ! 4 = c_dash" "?s ! 7 = c_dash" "length ?s = 10"
    using Y(1) M(1) D(1) by (simp_all add: nth_append)
  show ?thesis
    unfolding format_iso_shape(1) [OF assms] parse_iso_def Let_def parts
    using Y M D civil_valid [of d] by simp
qed

lemma split_ten:
  assumes "length s = 10"
  shows "s = take 4 s @ s ! 4 # take 2 (drop 5 s) @ s ! 7 # take 2 (drop 8 s)"
proof -
  obtain a b c d e f g h i j where "s = [a, b, c, d, e, f, g, h, i, j]"
    using assms by (auto simp: length_Suc_conv numeral_eq_Suc)
  then show ?thesis by simp
qed

text \<open>Reading a date and printing it again gives the text back, from the year 1000 on.\<close>

lemma dec_dec_value:
  assumes "list_all is_digit s" and "s \<noteq> []" and "hd s \<noteq> c_0"
  shows "dec (dec_value s) = s"
  using assms
proof (induction s rule: rev_induct)
  case (snoc c s)
  then have c: "48 \<le> c" "c \<le> 57" by (auto simp: is_digit_def)
  show ?case
  proof (cases "s = []")
    case True
    with c show ?thesis by (simp add: dec_value_def dec.simps)
  next
    case False
    then have IH: "dec (dec_value s) = s" using snoc by simp
    have "dec_value s \<noteq> 0"
    proof
      assume "dec_value s = 0"
      then have "s = [c_0]" using IH by (simp add: dec.simps)
      then show False using snoc.prems False by simp
    qed
    moreover obtain r where r: "c = 48 + r" "r < 10"
      using c le_Suc_ex [of 48 c] by auto
    moreover have "10 * dec_value s + r div 10 = 10 * dec_value s" using r by simp
    ultimately show ?thesis
      using IH by (subst dec.simps) (simp add: dec_value_snoc)
  qed
qed simp

lemma pad2_dec_value:
  assumes "list_all is_digit s" and "length s = 2"
  shows "pad2 (int (dec_value s)) = s"
proof -
  obtain a b where s: "s = [a, b]" using assms(2) by (auto simp: length_Suc_conv numeral_eq_Suc)
  have d: "48 \<le> a" "a \<le> 57" "48 \<le> b" "b \<le> 57" using assms(1) s by (auto simp: is_digit_def)
  have v: "dec_value s = 10 * (a - 48) + (b - 48)" by (simp add: s dec_value_def)
  show ?thesis
  proof (cases "a = 48")
    case True
    moreover obtain r where "b = 48 + r" "r < 10" using d le_Suc_ex [of 48 b] by auto
    ultimately show ?thesis using s v by (simp add: pad2_def pad_start_def dec_int_def dec.simps)
  next
    case False
    then have "dec (dec_value s) = s" using assms s by (intro dec_dec_value) auto
    then show ?thesis using s by (simp add: pad2_def pad_start_def dec_int_def)
  qed
qed

lemma format_parse_iso:
  assumes "parse_iso s = Some d" and "hd s \<noteq> c_0"
  shows "format_iso (Some d) = s" and "four_digit_year d"
proof -
  let ?ys = "take 4 s" and ?ms = "take 2 (drop 5 s)" and ?ds = "take 2 (drop 8 s)"
  let ?y = "int (dec_value ?ys)" and ?m = "int (dec_value ?ms) - 1" and ?d = "int (dec_value ?ds)"
  have h: "length s = 10" "list_all is_digit ?ys" "list_all is_digit ?ms" "list_all is_digit ?ds"
    "s ! 4 = c_dash" "s ! 7 = c_dash" "valid_civil ?y ?m ?d" "d = make_day ?y ?m ?d"
    using assms(1) by (auto simp: parse_iso_def Let_def split: if_splits)
  have c: "get_full_year d = ?y" "get_month d = ?m" "get_date d = ?d"
    using civil_of_make_day [OF h(7)] h(8) by simp_all
  have "s \<noteq> []" using h(1) by auto
  then have ys: "dec (dec_value ?ys) = ?ys"
    using h(1,2) assms(2) by (intro dec_dec_value) (auto simp: hd_take)
  have l: "length ?ys = Suc 3" "length ?ms = 2" "length ?ds = 2" using h(1) by simp_all
  have "dec_value ?ys < 10 ^ 4" using dec_value_bound [OF h(2)] l by simp
  moreover have "\<not> dec_value ?ys < 10 ^ 3"
    using length_dec_le [of 3 "dec_value ?ys"] ys l(1) by simp
  ultimately show "four_digit_year d" using c(1) by (simp add: four_digit_year_def)
  show "format_iso (Some d) = s"
    using split_ten [OF h(1)] h(5,6) ys pad2_dec_value [OF h(3) l(2)] pad2_dec_value [OF h(4) l(3)]
    by (simp add: format_iso_def c dec_int_def)
qed

subsection \<open>String order is calendar order\<close>

lemma year_from_day_mono: "d \<le> e \<Longrightarrow> year_from_day d \<le> year_from_day e"
proof (rule ccontr)
  assume "d \<le> e" and "\<not> year_from_day d \<le> year_from_day e"
  then have "day_from_year (year_from_day e + 1) \<le> day_from_year (year_from_day d)"
    by (intro day_from_year_mono) simp
  with \<open>d \<le> e\<close> year_from_day_bounds(2) [of e] year_from_day_bounds(1) [of d]
  show False by linarith
qed

lemma month_start_step:
  assumes "l = 0 \<or> l = 1" and "0 \<le> m" and "m \<le> 11"
  shows "month_start l m \<le> month_start l (m + 1)"
proof -
  have "m = 0 \<or> m = 1 \<or> m = 2 \<or> m = 3 \<or> m = 4 \<or> m = 5 \<or> m = 6 \<or> m = 7 \<or> m = 8
    \<or> m = 9 \<or> m = 10 \<or> m = 11"
    using assms(2,3) by arith
  with assms(1) show ?thesis by (elim disjE) (simp_all add: month_start_def)
qed

lemma month_start_steps:
  "l = 0 \<or> l = 1 \<Longrightarrow> 0 \<le> m \<Longrightarrow> m + int j \<le> 12 \<Longrightarrow> month_start l m \<le> month_start l (m + int j)"
proof (induction j)
  case (Suc j)
  then have "month_start l m \<le> month_start l (m + int j)" by simp
  also have "\<dots> \<le> month_start l (m + int j + 1)" using Suc.prems by (intro month_start_step) auto
  finally show ?case by (simp add: ac_simps)
qed simp

lemma month_start_mono:
  assumes "l = 0 \<or> l = 1" and "0 \<le> m" and "m < n" and "n \<le> 11"
  shows "month_start l (m + 1) \<le> month_start l n"
  using month_start_steps [of l "m + 1" "nat (n - m - 1)"] assms by simp

lemma civil_less_imp:
  assumes "get_full_year d < get_full_year e \<or>
    (get_full_year d = get_full_year e \<and> (get_month d < get_month e \<or>
      (get_month d = get_month e \<and> get_date d < get_date e)))"
  shows "d < e"
  using assms
proof (elim disjE conjE)
  assume "get_full_year d < get_full_year e"
  then have "\<not> e \<le> d" using year_from_day_mono [of e d] by (auto simp: get_full_year_def)
  then show "d < e" by simp
next
  assume y: "get_full_year d = get_full_year e" and m: "get_month d < get_month e"
  let ?l = "leap_day (get_full_year d)"
  have "month_start ?l (get_month d + 1) \<le> month_start ?l (get_month e)"
    using m civil_ranges [of d] civil_ranges [of e] leap_day_cases by (intro month_start_mono) auto
  moreover have "get_date d \<le> month_start ?l (get_month d + 1) - month_start ?l (get_month d)"
    using civil_valid [of d] by (simp add: valid_civil_def month_length_def)
  moreover have "d = day_from_year (get_full_year d) + month_start ?l (get_month d) + get_date d - 1"
    using make_day_in_year [of "get_month d" "get_full_year d" "get_date d"] civil_ranges [of d] by simp
  moreover have "e = day_from_year (get_full_year d) + month_start ?l (get_month e) + get_date e - 1"
    using make_day_in_year [of "get_month e" "get_full_year e" "get_date e"] civil_ranges [of e] y by simp
  ultimately show "d < e" using civil_ranges(3) [of e] by linarith
next
  assume "get_full_year d = get_full_year e" and "get_month d = get_month e"
    and l: "get_date d < get_date e"
  then have "e = make_day (get_full_year d) (get_month d) (get_date d + (get_date e - get_date d))"
    using make_day_of_civil [of e] by simp
  then have "e = d + (get_date e - get_date d)" by (simp only: make_day_add make_day_of_civil)
  with l show "d < e" by linarith
qed

lemma civil_less:
  "d < e \<longleftrightarrow> get_full_year d < get_full_year e \<or>
    (get_full_year d = get_full_year e \<and> (get_month d < get_month e \<or>
      (get_month d = get_month e \<and> get_date d < get_date e)))" (is "_ \<longleftrightarrow> ?L d e")
proof
  assume lt: "d < e"
  show "?L d e"
  proof (rule ccontr)
    assume n: "\<not> ?L d e"
    have "\<not> ?L e d" using civil_less_imp [of e d] lt by auto
    with n have "get_full_year d = get_full_year e" "get_month d = get_month e"
      "get_date d = get_date e" by linarith+
    then have "d = e" by (metis make_day_of_civil)
    with lt show False by simp
  qed
qed (rule civil_less_imp)

lemma pad2_less:
  "0 \<le> a \<Longrightarrow> a < 100 \<Longrightarrow> 0 \<le> b \<Longrightarrow> b < 100 \<Longrightarrow> js_less (pad2 a) (pad2 b) \<longleftrightarrow> a < b"
  by (subst js_less_int) (simp_all add: pad2_digits)

lemma pad2_eq: "0 \<le> a \<Longrightarrow> a < 100 \<Longrightarrow> 0 \<le> b \<Longrightarrow> b < 100 \<Longrightarrow> pad2 a = pad2 b \<longleftrightarrow> a = b"
  by (subst digits_eq_int) (simp_all add: pad2_digits)

lemma format_iso_less:
  assumes "four_digit_year d" and "four_digit_year e"
  shows "js_less (format_iso (Some d)) (format_iso (Some e)) \<longleftrightarrow> d < e"
proof -
  note y = assms [unfolded four_digit_year_def]
  have Y: "length (dec_int (get_full_year d)) = length (dec_int (get_full_year e))"
    "js_less (dec_int (get_full_year d)) (dec_int (get_full_year e)) \<longleftrightarrow>
       get_full_year d < get_full_year e"
    "dec_int (get_full_year d) = dec_int (get_full_year e) \<longleftrightarrow> get_full_year d = get_full_year e"
    using y by (simp_all add: year_digits js_less_int digits_eq_int)
  have L: "length (pad2 (get_month d + 1)) = length (pad2 (get_month e + 1))"
    "length (pad2 (get_date d)) = length (pad2 (get_date e))"
    using civil_ranges [of d] civil_ranges [of e] by (simp_all add: pad2_digits(1))
  show ?thesis
    unfolding format_iso_shape(1) [OF assms(1)] format_iso_shape(1) [OF assms(2)]
      js_less_append [OF Y(1)] Y js_less.simps js_less_append [OF L(1)] civil_less [of d e]
    using civil_ranges [of d] civil_ranges [of e] by (simp add: pad2_less pad2_eq add1_zle_eq)
qed

subsection \<open>The interface of dates\<close>

locale date_text =
  fixes fmt :: "int \<Rightarrow> jstr" and parse :: "jstr \<Rightarrow> int option" and ok :: "int \<Rightarrow> bool"
  assumes parse_fmt: "ok d \<Longrightarrow> parse (fmt d) = Some d"
    and fmt_less: "ok a \<Longrightarrow> ok b \<Longrightarrow> js_less (fmt a) (fmt b) \<longleftrightarrow> a < b"
begin

lemma fmt_eq: "ok a \<Longrightarrow> ok b \<Longrightarrow> fmt a = fmt b \<longleftrightarrow> a = b"
  by (metis option.inject parse_fmt)

lemma filter_after:
  "ok v \<Longrightarrow> list_all ok ds \<Longrightarrow>
    filter (\<lambda>s. js_less (fmt v) s) (map fmt ds) = map fmt (filter (\<lambda>d. v < d) ds)"
  by (induction ds) (auto simp: fmt_less)

lemma sorted_fmt:
  "list_all ok ds \<Longrightarrow> sorted_wrt (\<lambda>s t. \<not> js_less t s) (map fmt ds) \<longleftrightarrow> sorted ds"
proof (induction ds)
  case (Cons d ds)
  then have "(\<forall>e \<in> set ds. \<not> js_less (fmt e) (fmt d)) \<longleftrightarrow> (\<forall>e \<in> set ds. d \<le> e)"
    by (simp add: list_all_iff fmt_less not_less)
  with Cons show ?case by simp
qed simp

end

interpretation iso: date_text "\<lambda>d. format_iso (Some d)" parse_iso four_digit_year
  by unfold_locales (simp_all add: parse_format_iso format_iso_less)

subsection \<open>Adding days, distances\<close>

lemma add_days_format:
  assumes "four_digit_year d"
  shows "add_days (format_iso (Some d)) (Some k) = format_iso (Some (d + k))"
  by (simp add: add_days_def iso.parse_fmt [OF assms] set_date_add)

lemma round_div_exact:
  assumes "0 < b" and "2 * \<bar>r\<bar> < b"
  shows "round_div (n * b + r) b = n"
proof -
  have eq: "2 * (n * b + r) + b = 2 * b * n + (2 * r + b)" by (simp add: algebra_simps)
  have "\<bar>2 * r\<bar> < b" using assms(2) by (simp add: abs_mult)
  then have "0 \<le> 2 * r + b" and "2 * r + b < 2 * b" unfolding abs_less_iff by linarith+
  then show ?thesis unfolding round_div_def by (rule int_div_pos_eq [OF eq])
qed

text \<open>
  The distance in days is exact as long as the offset of the time zone at the two
  midnights differs by less than twelve hours, so a daylight-saving change in between
  does not matter.
\<close>

lemma days_between_exact:
  assumes "parse_iso a = Some s" and "parse_iso b = Some e"
    and "\<bar>(midnight e - ms_per_day * e) - (midnight s - ms_per_day * s)\<bar> < 43200000"
  shows "days_between midnight a b = Some (e - s)"
proof -
  let ?r = "(midnight e - ms_per_day * e) - (midnight s - ms_per_day * s)"
  have "midnight e - midnight s = (e - s) * ms_per_day + ?r" by (simp add: algebra_simps)
  moreover have "2 * \<bar>?r\<bar> < ms_per_day" using assms(3) by simp
  ultimately have "round_div (midnight e - midnight s) ms_per_day = e - s"
    using round_div_exact [of ms_per_day ?r "e - s"] by simp
  then show ?thesis by (simp add: days_between_def assms)
qed

subsection \<open>Properties\<close>



text \<open>
  C33: Comparing dates as strings compares the days, and adding days to a date's text moves it
  by that many days, across months, years and leap days.
\<close>

theorem iso_order_and_sum:
  assumes "four_digit_year d" and "four_digit_year e"
  shows "(js_less (format_iso (Some d)) (format_iso (Some e)) \<longleftrightarrow> d < e) \<and>
    (format_iso (Some d) = format_iso (Some e) \<longleftrightarrow> d = e) \<and>
    add_days (format_iso (Some d)) (Some (e - d)) = format_iso (Some e)"
  using iso.fmt_less [OF assms] iso.fmt_eq [OF assms] add_days_format [OF assms(1), of "e - d"] by simp

theorem iso_order_and_sum_witness: "add_days (format_iso (Some 19723)) (Some 60) = format_iso (Some 19783)"
proof -
  have "four_digit_year 19723" "four_digit_year 19783" by code_simp+
  from iso_order_and_sum [OF this] show ?thesis by simp
qed

end
