(* ===== verification/Editable.thy ===== *)
theory Editable
  imports IsoDate
begin

text \<open>
  web/src/components/Editable.tsx: the inline date editor with its calendar popover and
  the inline text editor. An editor is a state and a step function on the user's events
  and on the outcome of \<open>onCommit\<close>; a step also tells which value it hands to
  \<open>onCommit\<close>, if any. \<open>buildMonth\<close> computes the six weeks the popover shows.
\<close>

subsection \<open>EditableDate\<close>

record date_editor =
  ed_open :: bool
  ed_saving :: bool

datatype date_event =
    DateToggle                      \<comment> \<open>click on the trigger button\<close>
  | DateOutside                     \<comment> \<open>mousedown outside of button and popover\<close>
  | DateEscape
  | DateSelect "jstr option"        \<comment> \<open>a day, today, or clear\<close>
  | DateResolved                    \<comment> \<open>the promise of onCommit\<close>
  | DateRejected

definition date_init :: date_editor where
  "date_init = \<lparr>ed_open = False, ed_saving = False\<rparr>"

fun date_step ::
    "jstr option \<Rightarrow> bool \<Rightarrow> date_event \<Rightarrow> date_editor \<Rightarrow> jstr option option \<times> date_editor" where
  "date_step value nullable DateToggle s =
     (None, if ed_saving s then s else s\<lparr>ed_open := \<not> ed_open s\<rparr>)"
| "date_step value nullable DateOutside s = (None, s\<lparr>ed_open := False\<rparr>)"
| "date_step value nullable DateEscape s = (None, s\<lparr>ed_open := False\<rparr>)"
| "date_step value nullable (DateSelect d) s =
     (if d = value then (None, s\<lparr>ed_open := False\<rparr>)
      else if d = None \<and> \<not> nullable then (None, s\<lparr>ed_open := False\<rparr>)
      else (Some d, s\<lparr>ed_saving := True\<rparr>))"
| "date_step value nullable DateResolved s = (None, s\<lparr>ed_open := False, ed_saving := False\<rparr>)"
| "date_step value nullable DateRejected s = (None, s\<lparr>ed_saving := False\<rparr>)"

subsection \<open>The calendar\<close>

record view_month =
  vm_year :: int
  vm_month :: int

definition month_of :: "int \<Rightarrow> view_month" where
  "month_of d = \<lparr>vm_year = get_full_year d, vm_month = get_month d\<rparr>"

text \<open>
  The month the popover opens on: that of the value, else that of today. The fields of
  an Invalid Date are NaN: no month (None).
\<close>

definition initial_month :: "int \<Rightarrow> jstr option \<Rightarrow> view_month option" where
  "initial_month now value =
     (case value of
        Some v \<Rightarrow> if truthy v then map_option month_of (parse_iso v) else Some (month_of now)
      | None \<Rightarrow> Some (month_of now))"

definition shiftMonth :: "int \<Rightarrow> view_month \<Rightarrow> view_month" where
  "shiftMonth delta v = month_of (new_date (vm_year v) (vm_month v + delta) 1)"

record Cell =
  cell_iso :: jstr
  cell_day :: int
  cell_month :: int

definition cell_of :: "int \<Rightarrow> Cell" where
  "cell_of d = \<lparr>cell_iso = format_iso (Some d), cell_day = get_date d, cell_month = get_month d\<rparr>"

fun leading_cells :: "int \<Rightarrow> int \<Rightarrow> nat \<Rightarrow> Cell list" where
  "leading_cells year month 0 = []"
| "leading_cells year month (Suc i) =
     cell_of (new_date year month (1 - int (Suc i))) # leading_cells year month i"

definition month_cells :: "int \<Rightarrow> int \<Rightarrow> int \<Rightarrow> Cell list" where
  "month_cells year month lastDay =
     map (\<lambda>i. \<lparr>cell_iso = format_iso (Some (new_date year month i)), cell_day = i, cell_month = month\<rparr>)
       [1..lastDay]"

function fill_cells :: "int \<Rightarrow> int \<Rightarrow> int \<Rightarrow> Cell list \<Rightarrow> Cell list" where
  "fill_cells year month nextI cells =
     (if length cells < 42
      then fill_cells year month (nextI + 1) (cells @ [cell_of (new_date year (month + 1) nextI)])
      else cells)"
  by pat_completeness auto
termination
  by (relation "measure (\<lambda>(y, m, n, cells). 42 - length cells)") auto

declare fill_cells.simps [simp del]

definition buildMonth :: "int \<Rightarrow> int \<Rightarrow> Cell list" where
  "buildMonth year month =
     (let first = new_date year month 1;
          lastDay = get_date (new_date year (month + 1) 0);
          firstJs = get_day first;
          firstIso = (if firstJs = 0 then 7 else firstJs);
          leading = firstIso - 1
      in fill_cells year month 1
           (leading_cells year month (nat leading) @ month_cells year month lastDay))"

subsection \<open>EditableText\<close>

record text_editor =
  editing :: bool
  draft :: jstr
  saving :: bool

datatype text_event =
    TextOpen | TextChange jstr | TextBlur
  | TextEscape
  | TextEnter bool bool             \<comment> \<open>with shift; with ctrl or meta\<close>
  | TextValue jstr                  \<comment> \<open>the value property changed\<close>
  | TextResolved | TextRejected

definition text_init :: "jstr \<Rightarrow> text_editor" where
  "text_init value = \<lparr>editing = False, draft = value, saving = False\<rparr>"

definition text_commit :: "jstr \<Rightarrow> text_editor \<Rightarrow> jstr option \<times> text_editor" where
  "text_commit value s =
     (if draft s = value then (None, s\<lparr>editing := False\<rparr>)
      else (Some (draft s), s\<lparr>saving := True\<rparr>))"

fun text_step ::
    "bool \<Rightarrow> jstr \<Rightarrow> text_event \<Rightarrow> text_editor \<Rightarrow> jstr option \<times> text_editor" where
  "text_step multiline value TextOpen s = (None, s\<lparr>editing := True\<rparr>)"
| "text_step multiline value (TextChange d) s = (None, s\<lparr>draft := d\<rparr>)"
| "text_step multiline value TextBlur s = text_commit value s"
| "text_step multiline value TextEscape s = (None, s\<lparr>draft := value, editing := False\<rparr>)"
| "text_step multiline value (TextEnter shift ctrl) s =
     (if (\<not> shift \<and> \<not> multiline) \<or> (ctrl \<and> multiline) then text_commit value s else (None, s))"
| "text_step multiline value (TextValue v) s = (None, s\<lparr>draft := v\<rparr>)"
| "text_step multiline value TextResolved s = (None, s\<lparr>editing := False, saving := False\<rparr>)"
| "text_step multiline value TextRejected s = (None, s\<lparr>saving := False\<rparr>)"

subsection \<open>Six weeks from the Monday before the first\<close>

definition js_year :: "int \<Rightarrow> int" where
  "js_year y = (if 0 \<le> y \<and> y \<le> 99 then 1900 + y else y)"

lemma new_date_make: "new_date y m d = make_day (js_year y) m d"
  by (simp add: new_date_def js_year_def)

lemma new_date_shift: "new_date y m d = new_date y m 1 + (d - 1)"
  using make_day_add [of "js_year y" m 1 "d - 1"] by (simp add: new_date_make)

lemma make_day_next_month:
  assumes "0 \<le> m" and "m \<le> 11"
  shows "make_day y (m + 1) d = make_day y m (d + month_length y m)"
proof (cases "m = 11")
  case True
  then show ?thesis
    using leap_day_cases [of y]
    by (auto simp: make_day_def month_length_def month_start_def day_from_year_Suc)
next
  case False
  with assms show ?thesis by (simp add: make_day_in_year month_length_def)
qed

lemma month_length_pos: "0 \<le> m \<Longrightarrow> m \<le> 11 \<Longrightarrow> 28 \<le> month_length y m"
proof -
  assume "0 \<le> m" "m \<le> 11"
  then have "m = 0 \<or> m = 1 \<or> m = 2 \<or> m = 3 \<or> m = 4 \<or> m = 5 \<or> m = 6 \<or> m = 7 \<or> m = 8
    \<or> m = 9 \<or> m = 10 \<or> m = 11" by arith
  then show ?thesis
    using leap_day_cases [of y] by (elim disjE) (simp_all add: month_length_def month_start_def)
qed

lemma last_day:
  assumes "0 \<le> m" and "m \<le> 11"
  shows "get_date (new_date y (m + 1) 0) = month_length (js_year y) m"
proof -
  have "valid_civil (js_year y) m (month_length (js_year y) m)"
    using assms month_length_pos [of m "js_year y"] by (simp add: valid_civil_def)
  then show ?thesis
    using civil_of_make_day make_day_next_month [OF assms, of "js_year y" 0] by (simp add: new_date_make)
qed

lemma leading_cells_eq:
  "leading_cells y m n = map cell_of [new_date y m 1 - int n..new_date y m 1 - 1]"
proof (induction n)
  case (Suc n)
  let ?F = "new_date y m 1"
  have e: "new_date y m (1 - int (Suc n)) = ?F - int (Suc n)"
    using new_date_shift [of y m "1 - int (Suc n)"] by linarith
  have "[?F - int (Suc n)..?F - 1] = (?F - int (Suc n)) # [?F - int n..?F - 1]"
    by (subst upto_rec1) simp_all
  then show ?case by (simp only: leading_cells.simps e Suc list.map)
qed simp

lemma map_add_upto: "map (\<lambda>i. i + c) [a..b] = [a + c..b + c]" for a b c :: int
proof (induction "nat (b + 1 - a)" arbitrary: a)
  case (Suc n)
  then have le: "a \<le> b" and n: "n = nat (b + 1 - (a + 1))" by linarith+
  have e: "a + 1 + c = a + c + 1" by simp
  have "a + c \<le> b + c" using le by simp
  then show ?case
    using Suc(1) [OF n] unfolding e by (simp only: upto_rec1 [OF le] upto_rec1 list.map)
qed simp

lemma month_cells_eq:
  assumes "0 \<le> m" and "m \<le> 11" and "l = month_length (js_year y) m"
  shows "month_cells y m l = map cell_of [new_date y m 1..new_date y m 1 + l - 1]"
proof -
  have "month_cells y m l = map (\<lambda>i. cell_of (new_date y m i)) [1..l]"
    unfolding month_cells_def
  proof (rule map_cong [OF refl])
    fix i assume "i \<in> set [1..l]"
    then have "valid_civil (js_year y) m i" using assms by (simp add: valid_civil_def)
    then show "\<lparr>cell_iso = format_iso (Some (new_date y m i)), cell_day = i, cell_month = m\<rparr>
        = cell_of (new_date y m i)"
      using civil_of_make_day by (simp add: cell_of_def new_date_make)
  qed
  also have "\<dots> = map cell_of (map (\<lambda>i. i + (new_date y m 1 - 1)) [1..l])"
  proof -
    have "new_date y m i = i + (new_date y m 1 - 1)" for i
      using new_date_shift [of y m i] by linarith
    then have "cell_of (new_date y m i) = (cell_of \<circ> (\<lambda>i. i + (new_date y m 1 - 1))) i" for i
      unfolding comp_apply by (rule arg_cong)
    then show ?thesis unfolding map_map by (intro map_cong refl)
  qed
  also have "\<dots> = map cell_of [new_date y m 1..new_date y m 1 + l - 1]"
    unfolding map_add_upto by (simp add: algebra_simps)
  finally show ?thesis .
qed

lemma fill_cells_eq:
  "length cells \<le> 42 \<Longrightarrow>
    fill_cells y m n cells = cells @ map (\<lambda>i. cell_of (new_date y (m + 1) i)) [n..n + (41 - int (length cells))]"
proof (induction y m n cells rule: fill_cells.induct)
  case (1 y m n cells)
  show ?case
  proof (cases "length cells < 42")
    case True
    with 1 show ?thesis
      by (simp add: fill_cells.simps [of y m n cells] upto_rec1 [of n] algebra_simps)
  next
    case False
    with 1 show ?thesis by (simp add: fill_cells.simps [of y m n cells])
  qed
qed

lemma cells_shift:
  assumes "\<And>i. g i = i + c"
  shows "map (\<lambda>i. cell_of (g i)) [a..b] = map cell_of [a + c..b + c]"
proof -
  have "(\<lambda>i. cell_of (g i)) = cell_of \<circ> (\<lambda>i. i + c)"
    by (rule ext) (simp add: assms)
  then show ?thesis by (simp only: map_map [symmetric] map_add_upto)
qed

text \<open>The Monday on or before the first of the month.\<close>

definition grid_start :: "int \<Rightarrow> int \<Rightarrow> int" where
  "grid_start y m = (let first = new_date y m 1 in first - (get_day first + 6) mod 7)"

lemma leading_days:
  "(if get_day d = 0 then 7 else get_day d) - 1 = (get_day d + 6) mod 7"
proof -
  have "0 \<le> get_day d" "get_day d < 7" by (simp_all add: get_day_def)
  then consider "get_day d = 0" | "1 \<le> get_day d \<and> get_day d < 7" by linarith
  then show ?thesis
  proof cases
    case 2
    then have "get_day d + 6 = 7 * 1 + (get_day d - 1)" "0 \<le> get_day d - 1" "get_day d - 1 < 7" by auto
    then have "(get_day d + 6) mod 7 = get_day d - 1" by (intro int_mod_pos_eq)
    with 2 show ?thesis by simp
  qed simp
qed

lemma grid_start_bounds:
  "new_date y m 1 - 6 \<le> grid_start y m" "grid_start y m \<le> new_date y m 1"
proof -
  have "0 \<le> (get_day d + 6) mod 7" "(get_day d + 6) mod 7 \<le> 6" for d :: int
    using pos_mod_bound [of 7 "get_day d + 6"] pos_mod_sign [of 7 "get_day d + 6"] by linarith+
  then show "new_date y m 1 - 6 \<le> grid_start y m" "grid_start y m \<le> new_date y m 1"
    by (simp_all add: grid_start_def Let_def)
qed

lemma upto_join: "a \<le> b + 1 \<Longrightarrow> b \<le> c \<Longrightarrow> [a..b] @ [b + 1..c] = [a..c]" for a b c :: int
proof (induction "nat (b + 1 - a)" arbitrary: a)
  case 0
  then have "a = b + 1" by linarith
  then show ?case by simp
next
  case (Suc n)
  then have le: "a \<le> b" "a \<le> c" and n: "n = nat (b + 1 - (a + 1))" by linarith+
  have "a + 1 \<le> b + 1" using le by simp
  from Suc(1) [OF n this Suc.prems(2)] show ?case
    by (simp only: upto_rec1 [OF le(1)] upto_rec1 [OF le(2)] append_Cons)
qed

lemma buildMonth_days:
  assumes "0 \<le> m" and "m \<le> 11"
  shows "buildMonth y m = map cell_of [grid_start y m..grid_start y m + 41]"
proof -
  let ?F = "new_date y m 1" and ?l = "month_length (js_year y) m" and ?S = "grid_start y m"
  define k where "k = ?F - ?S"
  have k: "0 \<le> k" "k \<le> 6" using grid_start_bounds [of y m] by (auto simp: k_def)
  have kd: "(if get_day ?F = 0 then 7 else get_day ?F) - 1 = k"
    unfolding leading_days k_def grid_start_def Let_def by simp
  have l: "28 \<le> ?l" "?l \<le> 31" using assms month_length_pos month_length_le_31 by auto
  define pre where "pre = leading_cells y m (nat k) @ month_cells y m ?l"
  have "int (nat k) = k" using k by simp
  then have "leading_cells y m (nat k) = map cell_of [?S..?F - 1]"
    using leading_cells_eq [of y m "nat k"] by (simp add: k_def)
  then have "pre = map cell_of ([?S..?F - 1] @ [(?F - 1) + 1..?F + ?l - 1])"
    using month_cells_eq [OF assms refl, of y] by (simp add: pre_def)
  also have "[?S..?F - 1] @ [(?F - 1) + 1..?F + ?l - 1] = [?S..?F + ?l - 1]"
    using k l by (intro upto_join) (auto simp: k_def)
  finally have pre: "pre = map cell_of [?S..?F + ?l - 1]" .
  then have len: "int (length pre) = k + ?l" using k l by (simp add: k_def)
  then have le: "length pre \<le> 42" using k l by linarith
  have sh: "new_date y (m + 1) i = i + (?F + ?l - 1)" for i
    using make_day_next_month [OF assms, of "js_year y" i] new_date_shift [of y m "i + ?l"]
    by (simp add: new_date_make)
  have bounds: "1 + (41 - int (length pre)) + (?F + ?l - 1) = ?S + 41" "1 + (?F + ?l - 1) = (?F + ?l - 1) + 1"
    using len by (simp_all add: k_def)
  have "fill_cells y m 1 pre = pre @ map cell_of [(?F + ?l - 1) + 1..?S + 41]"
    unfolding fill_cells_eq [OF le] cells_shift [OF sh] bounds by (rule refl)
  also have "\<dots> = map cell_of ([?S..?F + ?l - 1] @ [(?F + ?l - 1) + 1..?S + 41])"
    by (simp add: pre)
  also have "[?S..?F + ?l - 1] @ [(?F + ?l - 1) + 1..?S + 41] = [?S..?S + 41]"
    using k l by (intro upto_join) (auto simp: k_def)
  finally show ?thesis
    unfolding buildMonth_def Let_def kd last_day [OF assms] pre_def .
qed

lemma grid_start_monday: "get_day (grid_start y m) = 1"
proof -
  let ?F = "new_date y m 1"
  have "(?F - (get_day ?F + 6) mod 7 + 4) mod 7 = 1"
    unfolding get_day_def by (simp add: mod_simps) presburger
  then show ?thesis by (simp add: grid_start_def Let_def get_day_def)
qed

lemma days_of_month_in_grid:
  assumes "0 \<le> m" and "m \<le> 11" and "valid_civil (js_year y) m d"
  shows "make_day (js_year y) m d \<in> set [grid_start y m..grid_start y m + 41]"
proof -
  have "d \<le> 31" "1 \<le> d"
    using assms month_length_le_31 [of m "js_year y"] by (auto simp: valid_civil_def)
  then show ?thesis
    using grid_start_bounds [of y m] new_date_shift [of y m d] by (simp add: new_date_make)
qed

subsection \<open>Properties\<close>

text \<open>
  The calendar of a month is six whole weeks: 42 consecutive days starting on a Monday, each
  cell with its own date, day and month, and every day of the month among them.
\<close>

theorem month_grid:
  assumes "0 \<le> m" and "m \<le> 11"
  shows "buildMonth y m = map cell_of [grid_start y m..grid_start y m + 41] \<and>
    get_day (grid_start y m) = 1 \<and>
    (\<forall>d. valid_civil (js_year y) m d \<longrightarrow> cell_of (make_day (js_year y) m d) \<in> set (buildMonth y m))"
  using buildMonth_days [OF assms, of y] grid_start_monday [of y m] days_of_month_in_grid [OF assms, of y]
  by (auto intro!: imageI)

theorem month_grid_witness: "length (buildMonth 2024 1) = 42"
  using month_grid [of 1 2024] by simp

end
