(* ===== verification/JsNumber.thy ===== *)
theory JsNumber
  imports Complex_Main JsPrelude
begin

text \<open>
  \<open>Number.prototype.toFixed\<close> on the exact value of a double: by the standard, the
  integer nearest to the value scaled by a power of ten, the larger of two, is printed with
  a point. Used by the formats of WeekView.tsx and BackupsSection.tsx.
\<close>

definition fixed_digits :: "nat \<Rightarrow> nat \<Rightarrow> jstr" where
  "fixed_digits f n = dec (n div 10 ^ f) @ [c_dot] @ pad_start f c_0 (dec (n mod 10 ^ f))"

definition scaled :: "nat \<Rightarrow> rat \<Rightarrow> nat" where
  "scaled f x = nat (floor (x * 10 ^ f + 1 / 2))"

definition to_fixed :: "nat \<Rightarrow> rat \<Rightarrow> jstr" where
  "to_fixed f x = (if x < 0 then c_dash # fixed_digits f (scaled f (- x)) else fixed_digits f (scaled f x))"

lemma scaled_near: "0 \<le> v \<Longrightarrow> \<bar>of_nat (scaled f v) - v * 10 ^ f\<bar> \<le> 1 / 2"
proof -
  let ?x = "v * 10 ^ f + 1 / 2"
  assume "0 \<le> v"
  then have "0 \<le> ?x" by simp
  then have "0 \<le> floor ?x" by simp
  then have "of_nat (scaled f v) = (of_int (floor ?x) :: rat)"
    by (simp add: scaled_def of_nat_nat)
  moreover have "of_int (floor ?x) \<le> ?x" "?x < of_int (floor ?x) + 1" by linarith+
  ultimately show ?thesis unfolding abs_le_iff by linarith
qed

lemma scaled_of_nat: "scaled f (of_nat n) = n * 10 ^ f"
proof -
  have "floor ((of_nat n :: rat) * 10 ^ f + 1 / 2) = int (n * 10 ^ f)"
    by (rule floor_unique) simp_all
  then show ?thesis by (simp only: scaled_def nat_int)
qed

lemma to_fixed_pos: "0 \<le> x \<Longrightarrow> to_fixed f x = fixed_digits f (scaled f x)"
  by (simp add: to_fixed_def)

end
