(* ===== verification/WeekMenu.thy ===== *)
theory WeekMenu
  imports ApiTypes I18n IsoDate JsNumber "HOL-Library.Sorting_Algorithms"
begin

text \<open>
  web/src/components/WeekView.tsx without its two saving controls: what the view of a
  week shows and what its buttons do, the lifecycle of a week's status with the
  confirmations it asks for, the shortening of a plan, the cart with its number formats,
  and the adjust box of a dinner card. A button's effect on the rest of the application
  is a \<open>week_action\<close>: a prompt to the agent, a patch, or a duplication. \<open>lang\<close> is the
  current language of i18n.
\<close>

datatype week_action = Prompt jstr | PatchWith WeekPatch | Duplicate

subsection \<open>The order of the states\<close>

definition STATUS_ORDER :: "WeekStatus list" where
  "STATUS_ORDER = [Draft, CartBuilt, Ordered]"

fun index_in :: "'a list \<Rightarrow> 'a \<Rightarrow> int" where
  "index_in [] x = -1"
| "index_in (y # ys) x = (if y = x then 0 else if index_in ys x = -1 then -1 else index_in ys x + 1)"

definition isBackwardTransition :: "WeekStatus \<Rightarrow> WeekStatus \<Rightarrow> bool" where
  "isBackwardTransition src tgt \<longleftrightarrow> index_in STATUS_ORDER tgt < index_in STATUS_ORDER src"

instantiation WeekStatus :: linorder
begin

definition less_eq_WeekStatus :: "WeekStatus \<Rightarrow> WeekStatus \<Rightarrow> bool" where
  "a \<le> b \<longleftrightarrow> index_in STATUS_ORDER a \<le> index_in STATUS_ORDER b"

definition less_WeekStatus :: "WeekStatus \<Rightarrow> WeekStatus \<Rightarrow> bool" where
  "a < b \<longleftrightarrow> index_in STATUS_ORDER a < index_in STATUS_ORDER b"

instance
proof
  fix a b :: WeekStatus
  show "a \<le> b \<Longrightarrow> b \<le> a \<Longrightarrow> a = b"
    by (cases a; cases b) (simp_all add: less_eq_WeekStatus_def STATUS_ORDER_def)
qed (auto simp: less_eq_WeekStatus_def less_WeekStatus_def)

end

lemma backward_iff: "isBackwardTransition src tgt \<longleftrightarrow> tgt < src"
  by (simp add: isBackwardTransition_def less_WeekStatus_def)

subsection \<open>Prompts and the lifecycle\<close>

definition status_label :: "Lang \<Rightarrow> WeekStatus \<Rightarrow> jstr" where
  "status_label lang st = I18n.t lang (js ''status.'' @ status_str st) None"

definition period_params :: "WeekDetail \<Rightarrow> jstr \<rightharpoonup> jstr" where
  "period_params w = [js ''start'' \<mapsto> start_date w, js ''end'' \<mapsto> end_date w]"

definition period_prompt :: "Lang \<Rightarrow> jstr \<Rightarrow> WeekDetail \<Rightarrow> week_action" where
  "period_prompt lang k w = Prompt (I18n.t lang k (Some (period_params w)))"

text \<open>\<open>today()\<close> of the local date \<open>d\<close>; the year is not padded.\<close>

definition today :: "int \<Rightarrow> jstr" where
  "today d = dec_int (get_full_year d) @ [c_dash] @ pad_start 2 c_0 (dec_int (get_month d + 1))
     @ [c_dash] @ pad_start 2 c_0 (dec_int (get_date d))"

definition hasRetro :: "WeekDetail \<Rightarrow> bool" where
  "hasRetro w \<longleftrightarrow> retrospectives w \<noteq> []"

definition next_step :: "Lang \<Rightarrow> int \<Rightarrow> WeekDetail \<Rightarrow> jstr \<times> week_action" where
  "next_step lang now w =
     (case week_status w of
        Draft \<Rightarrow> (I18n.t lang (js ''lifecycle.build_cart'') None,
                  period_prompt lang (js ''lifecycle.build_cart_prompt'') w)
      | CartBuilt \<Rightarrow>
          (I18n.t lang (js ''lifecycle.mark_ordered'') None,
           PatchWith (empty_patch\<lparr>p_status := Some Ordered,
                                  p_order_date := Some (Some (nullish (order_date w) (today now)))\<rparr>))
      | Ordered \<Rightarrow>
          (if \<not> hasRetro w then
             (I18n.t lang (js ''lifecycle.record_retrospective'') None,
              period_prompt lang (js ''lifecycle.retrospective_prompt'') w)
           else (I18n.t lang (js ''week.clone_next'') None, Duplicate)))"

text \<open>The second retrospective button, shown when the recommended step is not that one.\<close>

definition extra_retro_button :: "Lang \<Rightarrow> int \<Rightarrow> WeekDetail \<Rightarrow> bool" where
  "extra_retro_button lang now w \<longleftrightarrow>
     \<not> hasRetro w \<and> week_status w \<noteq> Draft \<and>
     fst (next_step lang now w) \<noteq> I18n.t lang (js ''lifecycle.record_retrospective'') None"

text \<open>
  Picking a status in the menu: the question that is asked, if any, and what is sent when
  the user's answer to it is \<open>confirmed\<close>.
\<close>

definition pick_question :: "Lang \<Rightarrow> WeekStatus \<Rightarrow> WeekStatus \<Rightarrow> jstr option" where
  "pick_question lang current st =
     (if st \<noteq> current \<and> isBackwardTransition current st then
        Some (I18n.t lang (js ''week.unlock_confirm'') (Some [js ''target'' \<mapsto> status_label lang st]))
      else None)"

definition pick_status :: "Lang \<Rightarrow> WeekStatus \<Rightarrow> WeekStatus \<Rightarrow> bool \<Rightarrow> week_action option" where
  "pick_status lang current st confirmed =
     (if st = current then None
      else if isBackwardTransition current st \<and> \<not> confirmed then None
      else Some (PatchWith (empty_patch\<lparr>p_status := Some st\<rparr>)))"

subsection \<open>The dates of the plan\<close>

definition start_commit :: "jstr \<Rightarrow> WeekPatch option" where
  "start_commit v = (if truthy v then Some (empty_patch\<lparr>p_start_date := Some v\<rparr>) else None)"

definition lost_dinners :: "WeekDetail \<Rightarrow> jstr \<Rightarrow> Dinner list" where
  "lost_dinners w v = filter (\<lambda>d. js_less v (day_date d)) (dinners w)"

definition end_question :: "Lang \<Rightarrow> WeekDetail \<Rightarrow> jstr \<Rightarrow> jstr option" where
  "end_question lang w v =
     (let lost = length (lost_dinners w v) in
      if truthy v \<and> js_less v (end_date w) \<and> lost > 0 then
        Some (I18n.t lang (js ''week.truncate_confirm'') (Some [js ''count'' \<mapsto> dec lost]))
      else None)"

definition end_commit :: "Lang \<Rightarrow> WeekDetail \<Rightarrow> jstr \<Rightarrow> bool \<Rightarrow> WeekPatch option" where
  "end_commit lang w v confirmed =
     (if \<not> truthy v then None
      else if js_less v (end_date w) \<and> length (lost_dinners w v) > 0 \<and> \<not> confirmed then None
      else Some (empty_patch\<lparr>p_end_date := Some v\<rparr>))"

subsection \<open>What the view shows\<close>

text \<open>\<open>cmp\<close> is the order of \<open>String.prototype.localeCompare\<close>, which the host's locale decides.\<close>

definition groupByDay :: "jstr comparator \<Rightarrow> Dinner list \<Rightarrow> Dinner list" where
  "groupByDay cmp ds = Sorting_Algorithms.sort (key day_date cmp) ds"

definition rateable :: "WeekDetail \<Rightarrow> bool" where
  "rateable w \<longleftrightarrow> week_status w = Ordered"

definition locked :: "WeekDetail \<Rightarrow> bool" where
  "locked w \<longleftrightarrow> week_status w \<noteq> Draft"

record card_props =
  cp_dinner :: Dinner
  cp_dimmed :: bool
  cp_active :: bool
  cp_rateable :: bool
  cp_locked :: bool

datatype week_section =
    HeaderSection bool                     \<comment> \<open>locked\<close>
  | ExceptionSection "Exception list"
  | NoDinnersSection "week_action option"  \<comment> \<open>the button that plans dinners\<close>
  | DinnerSection card_props
  | CartPart "CartItem list"
  | LifecycleSection
  | RetroSection

definition dinner_section :: "WeekDetail \<Rightarrow> jstr option \<Rightarrow> Dinner \<Rightarrow> week_section" where
  "dinner_section w activeDay d =
     DinnerSection \<lparr>cp_dinner = d, cp_dimmed = (activeDay \<noteq> None \<and> activeDay \<noteq> Some (day_date d)),
                    cp_active = (activeDay = Some (day_date d)),
                    cp_rateable = rateable w, cp_locked = locked w\<rparr>"

definition week_sections ::
    "jstr comparator \<Rightarrow> Lang \<Rightarrow> jstr option \<Rightarrow> WeekDetail \<Rightarrow> week_section list" where
  "week_sections cmp lang activeDay w =
     [HeaderSection (locked w)]
     @ (if exceptions w \<noteq> [] then [ExceptionSection (exceptions w)] else [])
     @ (let ds = groupByDay cmp (dinners w) in
        if ds = [] then
          [NoDinnersSection (if locked w then None
             else Some (period_prompt lang (js ''week.plan_dinners_prompt'') w))]
        else map (dinner_section w activeDay) ds)
     @ (if cart_items w \<noteq> [] then [CartPart (cart_items w)] else [])
     @ [LifecycleSection]
     @ (if rateable w then [RetroSection] else [])"

text \<open>The header's buttons that ask the agent for changes of the menu, and its editors.\<close>

definition header_actions :: "Lang \<Rightarrow> WeekDetail \<Rightarrow> week_action list" where
  "header_actions lang w =
     (if locked w then []
      else [period_prompt lang (js ''week.add_dinner_prompt'') w,
            period_prompt lang (js ''week.regenerate_prompt'') w])"

definition shows_notes :: "WeekDetail \<Rightarrow> bool" where
  "shows_notes w \<longleftrightarrow> truthy (notes_md w) \<or> \<not> locked w"

subsection \<open>The adjust box of a dinner card\<close>

record adjust_box =
  adjustOpen :: bool
  adjustDraft :: jstr

datatype adjust_event =
    ToggleAdjust | TypeAdjust jstr | SubmitAdjust   \<comment> \<open>the button, or Ctrl/Cmd + Enter\<close>
  | DropAdjust                                      \<comment> \<open>the cancel button, or Escape\<close>

definition adjust_prompt :: "Lang \<Rightarrow> Dinner \<Rightarrow> jstr \<Rightarrow> jstr" where
  "adjust_prompt lang d request =
     I18n.t lang (js ''dinner.adjust_prompt'')
       (Some [js ''date'' \<mapsto> day_date d, js ''id'' \<mapsto> dec_int (dinner_id d),
              js ''name'' \<mapsto> dish_name d, js ''request'' \<mapsto> request])"

definition submitAdjust :: "Lang \<Rightarrow> Dinner \<Rightarrow> adjust_box \<Rightarrow> jstr option \<times> adjust_box" where
  "submitAdjust lang d b =
     (let request = trim (adjustDraft b) in
      if \<not> truthy request then (None, b)
      else (Some (adjust_prompt lang d request), \<lparr>adjustOpen = False, adjustDraft = []\<rparr>))"

fun adjust_step :: "Lang \<Rightarrow> Dinner \<Rightarrow> adjust_event \<Rightarrow> adjust_box \<Rightarrow> jstr option \<times> adjust_box" where
  "adjust_step lang d ToggleAdjust b = (None, b\<lparr>adjustOpen := \<not> adjustOpen b\<rparr>)"
| "adjust_step lang d (TypeAdjust s) b = (None, b\<lparr>adjustDraft := s\<rparr>)"
| "adjust_step lang d SubmitAdjust b = submitAdjust lang d b"
| "adjust_step lang d DropAdjust b = (None, \<lparr>adjustOpen = False, adjustDraft = []\<rparr>)"

subsection \<open>The cart\<close>

text \<open>
  The amounts are the exact values of doubles; \<open>fadd\<close> is the addition of doubles, whose
  rounding the model leaves open.
\<close>

definition runningTotal :: "(rat \<Rightarrow> rat \<Rightarrow> rat) \<Rightarrow> CartItem list \<Rightarrow> rat" where
  "runningTotal fadd items =
     foldl (\<lambda>acc i. fadd acc (nullish (line_total (snapshot i)) 0)) 0 items"

definition showNote :: "CartItem list \<Rightarrow> bool" where
  "showNote items \<longleftrightarrow> (\<exists>i \<in> set items. truthy (reason_md i) \<and> trim (reason_md i) \<noteq> [])"

text \<open>\<open>String.replace\<close> of the first point by a comma.\<close>

fun replace_first :: "nat \<Rightarrow> nat \<Rightarrow> jstr \<Rightarrow> jstr" where
  "replace_first a b [] = []"
| "replace_first a b (x # xs) = (if x = a then b # xs else x # replace_first a b xs)"

text \<open>
  The positions that \<open>\B(?=(\d{3})+(?!\d))\<close> matches: between two word characters (or two
  others), before a run of digits whose length is a positive multiple of three. \<open>prev\<close>
  tells whether the code unit before is a word character.
\<close>

definition thousands_here :: "bool \<Rightarrow> jstr \<Rightarrow> bool" where
  "thousands_here prev s \<longleftrightarrow>
     (let run = length (takeWhile is_digit s) in
      (case s of [] \<Rightarrow> \<not> prev | c # _ \<Rightarrow> prev = is_word c) \<and> 0 < run \<and> run mod 3 = 0)"

fun group_thousands :: "bool \<Rightarrow> jstr \<Rightarrow> jstr" where
  "group_thousands prev [] = []"
| "group_thousands prev (c # s) =
     (if thousands_here prev (c # s) then [c_space] else []) @ c # group_thousands (is_word c) s"

definition formatKronor :: "rat \<Rightarrow> jstr" where
  "formatKronor v = group_thousands False (replace_first c_dot c_comma (to_fixed 2 v)) @ js '' kr''"

text \<open>\<open>replace(/\.?0+$/, "")\<close>: the zeros at the end, with a point before them.\<close>

definition drop_zeros :: "jstr \<Rightarrow> jstr" where
  "drop_zeros s =
     (let r = rev s; z = dropWhile (\<lambda>c. c = c_0) r in
      if length z = length r then s
      else case z of c # z' \<Rightarrow> rev (if c = c_dot then z' else z) | [] \<Rightarrow> [])"

definition formatQty :: "rat \<Rightarrow> jstr" where
  "formatQty q = (if of_int (floor q) = q then dec_int (floor q) else drop_zeros (to_fixed 2 q))"

record cart_row =
  row_title :: "jstr option"    \<comment> \<open>the name; the code alone is shown without one\<close>
  row_code :: jstr
  row_qty :: jstr
  row_price :: jstr
  row_note :: "jstr option"

definition cart_row_of :: "CartItem list \<Rightarrow> CartItem \<Rightarrow> cart_row" where
  "cart_row_of items i =
     (let name = nullish (snap_name (snapshot i)) [] in
      \<lparr>row_title = (if truthy name then Some name else None), row_code = product_code i,
       row_qty = formatQty (qty i),
       row_price = (case line_total (snapshot i) of
                      Some v \<Rightarrow> if v \<noteq> 0 then formatKronor v else [] | None \<Rightarrow> []),
       row_note = (if showNote items then Some (reason_md i) else None)\<rparr>)"

definition cart_header :: "(rat \<Rightarrow> rat \<Rightarrow> rat) \<Rightarrow> CartItem list \<Rightarrow> nat \<times> jstr option" where
  "cart_header fadd items =
     (length items,
      if runningTotal fadd items > 0 then Some (formatKronor (runningTotal fadd items)) else None)"

subsection \<open>Ordering and the lifecycle\<close>

lemma groupByDay_mset: "mset (groupByDay cmp ds) = mset ds"
  by (simp add: groupByDay_def)

lemma groupByDay_sorted: "Sorting_Algorithms.sorted (key day_date cmp) (groupByDay cmp ds)"
  by (simp add: groupByDay_def)

text \<open>Dinners of the same day keep the order in which the server sent them.\<close>

lemma groupByDay_stable:
  "filter (\<lambda>d. compare cmp day (day_date d) = Equiv) (groupByDay cmp ds) =
   filter (\<lambda>d. compare cmp day (day_date d) = Equiv) ds"
  using stable_sort [of "key day_date cmp" "undefined\<lparr>day_date := day\<rparr>" ds]
  by (simp add: groupByDay_def)

lemma pick_status_unconfirmed:
  "pick_status lang current st False = Some a \<Longrightarrow>
     current < st \<and> a = PatchWith (empty_patch\<lparr>p_status := Some st\<rparr>)"
  by (auto simp: pick_status_def backward_iff not_less split: if_splits)

lemma pick_question_iff: "pick_question lang current st \<noteq> None \<longleftrightarrow> st < current"
  by (auto simp: pick_question_def backward_iff)

text \<open>
  Dates are compared as strings; on the dates the server sends that is the calendar's
  order.
\<close>

lemma lost_dinners_days:
  assumes "four_digit_year v" and "list_all four_digit_year ds"
    and "map day_date (dinners w) = map (\<lambda>d. format_iso (Some d)) ds"
  shows "map day_date (lost_dinners w (format_iso (Some v))) =
    map (\<lambda>d. format_iso (Some d)) (filter (\<lambda>d. v < d) ds)"
proof -
  have "map day_date (lost_dinners w (format_iso (Some v))) =
      filter (js_less (format_iso (Some v))) (map day_date (dinners w))"
    by (simp add: lost_dinners_def filter_map comp_def)
  also have "\<dots> = map (\<lambda>d. format_iso (Some d)) (filter (\<lambda>d. v < d) ds)"
    unfolding assms(3) by (rule iso.filter_after [OF assms(1,2)])
  finally show ?thesis .
qed

lemma lost_none:
  assumes "four_digit_year v" and "list_all four_digit_year ds"
    and "map day_date (dinners w) = map (\<lambda>d. format_iso (Some d)) ds"
    and "lost_dinners w (format_iso (Some v)) = []"
  shows "list_all (\<lambda>d. d \<le> v) ds"
proof -
  have "filter (\<lambda>d. v < d) ds = []" using lost_dinners_days [OF assms(1-3)] assms(4) by simp
  then show ?thesis by (simp add: filter_empty_conv list_all_iff not_less)
qed

subsection \<open>The number format of the cart\<close>

fun digit_groups :: "jstr \<Rightarrow> jstr list" where
  "digit_groups [] = [[]]"
| "digit_groups (c # ds) =
     (if ds \<noteq> [] \<and> length ds mod 3 = 0 then [c] # digit_groups ds
      else (c # hd (digit_groups ds)) # tl (digit_groups ds))"

lemma digit_groups_nonempty [simp]: "digit_groups ds \<noteq> []"
  by (cases ds) simp_all

lemma digit_groups_concat: "concat (digit_groups ds) = ds"
proof (induction ds)
  case (Cons c ds)
  have "hd (digit_groups ds) @ concat (tl (digit_groups ds)) = concat (digit_groups ds)"
    by (cases "digit_groups ds") (use digit_groups_nonempty in simp_all)
  with Cons show ?case by simp
qed simp

lemma digit_groups_lengths:
  "ds \<noteq> [] \<Longrightarrow> length (hd (digit_groups ds)) = (length ds - 1) mod 3 + 1
     \<and> list_all (\<lambda>g. length g = 3) (tl (digit_groups ds))"
proof (induction ds)
  case (Cons c ds)
  show ?case
  proof (cases "ds = []")
    case False
    with Cons have IH: "length (hd (digit_groups ds)) = (length ds - 1) mod 3 + 1"
        "list_all (\<lambda>g. length g = 3) (tl (digit_groups ds))"
      by simp_all
    obtain k where k: "length ds = Suc k" using False by (cases ds) simp_all
    obtain g gs where gs: "digit_groups ds = g # gs" by (cases "digit_groups ds") simp_all
    show ?thesis
    proof (cases "length ds mod 3 = 0")
      case True
      then have "k mod 3 = 2" unfolding k by presburger
      then have "list_all (\<lambda>g. length g = 3) (digit_groups ds)"
        using IH by (simp add: gs k)
      with True False show ?thesis by simp
    next
      case ne: False
      then have "k mod 3 + 1 = Suc k mod 3" unfolding k by presburger
      with ne False IH show ?thesis by (simp add: k)
    qed
  qed simp
qed simp

lemma digit_word: "is_digit c \<Longrightarrow> is_word c"
  by (simp add: is_digit_def is_word_def)

lemma run_length:
  "list_all is_digit ds \<Longrightarrow> \<not> is_digit c \<Longrightarrow> takeWhile is_digit (ds @ c # rs) = ds"
  by (simp add: list_all_iff takeWhile_append2)

lemma group_digits:
  assumes "list_all is_digit ds" and c: "\<not> is_digit c"
  shows "ds \<noteq> [] \<Longrightarrow> group_thousands prev (ds @ c # rs) =
    (if prev \<and> length ds mod 3 = 0 then [c_space] else []) @ join_with [c_space] (digit_groups ds)
      @ group_thousands True (c # rs)"
  using assms(1)
proof (induction ds arbitrary: prev)
  case (Cons d ds)
  then have d: "is_word d" and ds: "list_all is_digit ds" by (simp_all add: digit_word)
  have here: "thousands_here prev (d # ds @ c # rs) \<longleftrightarrow> prev \<and> Suc (length ds) mod 3 = 0"
    using run_length [of "d # ds" c rs] Cons.prems c d by (simp add: thousands_here_def Let_def)
  show ?case
  proof (cases "ds = []")
    case True
    with here d show ?thesis by simp
  next
    case False
    obtain g gs where gs: "digit_groups ds = g # gs" by (cases "digit_groups ds") simp_all
    have "join_with [c_space] ((d # g) # gs) = d # join_with [c_space] (g # gs)"
      by (cases gs) simp_all
    then show ?thesis
      using Cons.IH [OF False ds, of True] here d False by (simp add: gs)
  qed
qed simp

definition cents :: "rat \<Rightarrow> nat" where
  "cents v = scaled 2 v"

definition last2 :: "nat \<Rightarrow> jstr" where
  "last2 n = [c_0 + n div 10, c_0 + n mod 10]"

lemma pad_last2: "n < 100 \<Longrightarrow> pad_start 2 c_0 (dec n) = last2 n"
proof -
  assume n: "n < 100"
  then have "n div 10 < 10" by (simp add: div_less_iff_less_mult)
  with n show ?thesis
    by (cases "n < 10") (simp_all add: pad_start_def last2_def dec.simps [of n] dec.simps [of "n div 10"])
qed

lemma replace_point:
  "list_all is_digit ds \<Longrightarrow> replace_first c_dot c_comma (ds @ c_dot # rs) = ds @ c_comma # rs"
  by (induction ds) (auto simp: is_digit_def)

lemma formatKronor_shape:
  assumes "0 \<le> v"
  shows "formatKronor v = join_with [c_space] (digit_groups (dec (cents v div 100))) @ [c_comma]
    @ last2 (cents v mod 100) @ js '' kr''"
proof -
  let ?n = "cents v" and ?D = "dec (cents v div 100)"
  have D: "list_all is_digit ?D" "?D \<noteq> []" by (auto simp: list_all_iff digits_dec)
  have "to_fixed 2 v = ?D @ c_dot # last2 (?n mod 100)"
    using assms by (simp add: to_fixed_pos cents_def fixed_digits_def pad_last2)
  then have "formatKronor v = group_thousands False (?D @ c_comma # last2 (?n mod 100)) @ js '' kr''"
    by (simp add: formatKronor_def replace_point [OF D(1)])
  also have "group_thousands False (?D @ c_comma # last2 (?n mod 100)) =
      join_with [c_space] (digit_groups ?D) @ group_thousands True (c_comma # last2 (?n mod 100))"
    using group_digits [OF D(1) _ D(2), of c_comma False] by (simp add: is_digit_def)
  also have "group_thousands True (c_comma # last2 (?n mod 100)) = c_comma # last2 (?n mod 100)"
  proof -
    have "?n mod 100 div 10 < 10" by (simp add: div_less_iff_less_mult)
    then show ?thesis by (simp add: last2_def thousands_here_def is_digit_def is_word_def Let_def)
  qed
  finally show ?thesis by simp
qed

subsection \<open>Properties\<close>


definition sample_plan :: WeekDetail where
  "sample_plan = \<lparr>week_id = 1, iso_week = [], start_date = format_iso (Some 19723), end_date = format_iso (Some 19729),
     delivery_date = None, order_date = None, week_status = Draft, dinner_count = 0, week_updated_at = [],
     notes_md = [], dinners = [], exceptions = [], retrospectives = [], cart_items = []\<rparr>"

lemma sample_years: "four_digit_year 19725" "four_digit_year 19729"
  by code_simp+

definition sample_dinner :: "int \<Rightarrow> Dinner" where
  "sample_dinner d = \<lparr>dinner_id = 1, day_date = format_iso (Some d), dish_id = None, dish_name = [],
     cuisine = None, servings = 4, sourcing = [], recipe_md = [], dinner_notes = [], rating = None,
     rating_notes = []\<rparr>"


text \<open>
  In the status menu, only a move forward is sent without a question; a question is asked
  exactly for a move back, and what is sent is the picked status alone.
\<close>

theorem backward_needs_confirmation:
  "(pick_question lang current st \<noteq> None \<longleftrightarrow> st < current) \<and>
   pick_status lang current st False =
     (if current < st then Some (PatchWith (empty_patch\<lparr>p_status := Some st\<rparr>)) else None) \<and>
   pick_status lang current st True =
     (if current \<noteq> st then Some (PatchWith (empty_patch\<lparr>p_status := Some st\<rparr>)) else None)"
  by (auto simp: pick_question_def pick_status_def backward_iff)

text \<open>
  The dinners of a week are shown ordered by day, none is lost or shown twice, and dinners
  of one day keep the order of the server.
\<close>

theorem dinners_by_day:
  "mset (groupByDay cmp ds) = mset ds \<and>
   Sorting_Algorithms.sorted (key day_date cmp) (groupByDay cmp ds) \<and>
   filter (\<lambda>d. compare cmp day (day_date d) = Equiv) (groupByDay cmp ds) =
     filter (\<lambda>d. compare cmp day (day_date d) = Equiv) ds"
  using groupByDay_mset groupByDay_sorted groupByDay_stable by blast



text \<open>
  What a week's page offers follows its status: only a draft has the buttons that change
  the menu, only an ordered week has ratings and the retrospective, and never both.
\<close>

theorem week_page_by_status:
  "(header_actions lang w \<noteq> [] \<longleftrightarrow> week_status w = Draft) \<and>
   (RetroSection \<in> set (week_sections cmp lang day w) \<longleftrightarrow> week_status w = Ordered) \<and>
   (\<forall>c. DinnerSection c \<in> set (week_sections cmp lang day w) \<longrightarrow>
      cp_dinner c \<in> set (dinners w) \<and> cp_rateable c = (week_status w = Ordered) \<and>
      cp_locked c = (week_status w \<noteq> Draft) \<and> \<not> (cp_dimmed c \<and> cp_active c))"
proof -
  have set: "set (groupByDay cmp (dinners w)) = set (dinners w)"
    using groupByDay_mset mset_eq_setD by blast
  have "RetroSection \<notin> dinner_section w day ` X" for X by (auto simp: dinner_section_def)
  then have "RetroSection \<in> set (week_sections cmp lang day w) \<longleftrightarrow> week_status w = Ordered"
    by (simp add: week_sections_def Let_def rateable_def)
  moreover have "cp_dinner c \<in> set (dinners w) \<and> cp_rateable c = (week_status w = Ordered) \<and>
      cp_locked c = (week_status w \<noteq> Draft) \<and> \<not> (cp_dimmed c \<and> cp_active c)"
    if "DinnerSection c \<in> set (week_sections cmp lang day w)" for c
  proof -
    have "DinnerSection c \<in> dinner_section w day ` set (groupByDay cmp (dinners w))"
      using that by (simp add: week_sections_def Let_def split: if_splits)
    then obtain d where "d \<in> set (dinners w)" "DinnerSection c = dinner_section w day d"
      by (auto simp: set)
    then show ?thesis by (simp add: dinner_section_def rateable_def locked_def)
  qed
  moreover have "header_actions lang w \<noteq> [] \<longleftrightarrow> week_status w = Draft"
    by (simp add: header_actions_def locked_def)
  ultimately show ?thesis by blast
qed

theorem week_page_by_status_witness:
  "header_actions En sample_plan \<noteq> [] \<and> RetroSection \<notin> set (week_sections flat En None sample_plan)"
  using week_page_by_status [of En sample_plan flat None] by (simp add: sample_plan_def)

end
