(* ===== verification/Saving.thy ===== *)
theory Saving
  imports Toast ApiTypes I18n
begin

text \<open>
  The two controls of web/src/components/WeekView.tsx that save in the background:
  \<open>WeekRetrospective\<close> (input debounced by 700 ms, failed saves retried with growing pauses,
  a manual retry in the toast) and \<open>RatingControl\<close>. The state holds the refs, the timers
  that run, the saves in flight and what the server has stored. An event is a keystroke, a
  timer that fires, a reply, a click on the toast's button, or a change of the week.
  Timers are numbered in the order they are set, as the handles of \<open>setTimeout\<close> are.
\<close>

subsection \<open>The retrospective\<close>

definition RETRO_DEBOUNCE_MS :: nat where "RETRO_DEBOUNCE_MS = 700"
definition RETRO_MAX_ATTEMPTS :: nat where "RETRO_MAX_ATTEMPTS = 3"
definition RETRO_BACKOFFS_MS :: "nat list" where "RETRO_BACKOFFS_MS = [1000, 3000, 9000]"

text \<open>A call of \<open>save\<close>: the week its closure captured and the text.\<close>

type_synonym save_call = "int \<times> jstr"

record timer =
  handle :: nat
  delay :: nat
  saves_what :: save_call

record retro =
  rw_week :: int
  rw_value :: jstr
  savedRef :: jstr
  dirtyRef :: bool
  debounceRef :: "nat option"
  retryRef :: "nat option"
  attemptsRef :: nat
  timers :: "timer list"
  next_handle :: nat
  in_flight :: "save_call list"
  board_state :: "save_call toast_state"
  server_text :: "int \<rightharpoonup> jstr"
  rw_lang :: Lang

definition retro_toast :: "int \<Rightarrow> jstr" where
  "retro_toast wk = js ''retro-'' @ dec_int wk"

text \<open>\<open>if (ref.current) window.clearTimeout(ref.current)\<close>; the ref keeps its value.\<close>

definition clear_timer :: "nat option \<Rightarrow> retro \<Rightarrow> retro" where
  "clear_timer ref s =
     (case ref of None \<Rightarrow> s | Some h \<Rightarrow> s\<lparr>timers := filter (\<lambda>tm. handle tm \<noteq> h) (timers s)\<rparr>)"

definition clear_both :: "retro \<Rightarrow> retro" where
  "clear_both s = clear_timer (retryRef s) (clear_timer (debounceRef s) s)"

definition set_timer :: "nat \<Rightarrow> save_call \<Rightarrow> retro \<Rightarrow> nat \<times> retro" where
  "set_timer ms c s =
     (next_handle s,
      s\<lparr>timers := timers s @ [\<lparr>handle = next_handle s, delay = ms, saves_what = c\<rparr>],
        next_handle := next_handle s + 1\<rparr>)"

definition drop_toast :: "int \<Rightarrow> retro \<Rightarrow> retro" where
  "drop_toast wk s = s\<lparr>board_state := dismiss (retro_toast wk) (board_state s)\<rparr>"

definition start_save :: "save_call \<Rightarrow> retro \<Rightarrow> retro" where
  "start_save c s = s\<lparr>in_flight := in_flight s @ [c]\<rparr>"

text \<open>The reset effect, on \<open>[initial, toastID]\<close>.\<close>

definition retro_reset :: "int \<Rightarrow> jstr \<Rightarrow> retro \<Rightarrow> retro" where
  "retro_reset wk initial s =
     drop_toast wk (clear_both (s\<lparr>rw_week := wk, rw_value := initial, savedRef := initial,
                                   dirtyRef := False, attemptsRef := 0\<rparr>))"

definition saved :: "save_call \<Rightarrow> retro \<Rightarrow> retro" where
  "saved c s =
     drop_toast (fst c) (s\<lparr>savedRef := snd c, dirtyRef := False, attemptsRef := 0,
                           server_text := (server_text s)(fst c \<mapsto> snd c)\<rparr>)"

definition save_failed :: "save_call \<Rightarrow> jstr \<Rightarrow> retro \<Rightarrow> retro" where
  "save_failed c msg s =
     (let n = attemptsRef s + 1; s1 = s\<lparr>attemptsRef := n\<rparr>; l = rw_lang s in
      if n < RETRO_MAX_ATTEMPTS then
        let s2 = s1\<lparr>board_state := toast_error_at (retro_toast (fst c))
                      (I18n.t l (js ''toast.save_failed_retrying'') None @ [c_space] @ msg, None)
                      (board_state s1)\<rparr>;
            ms = RETRO_BACKOFFS_MS ! min (n - 1) (length RETRO_BACKOFFS_MS - 1);
            (h, s3) = set_timer ms c s2
        in s3\<lparr>retryRef := Some h\<rparr>
      else
        s1\<lparr>board_state := toast_error_at (retro_toast (fst c))
             (I18n.t l (js ''toast.save_failed'') None @ js '': '' @ msg,
              Some \<lparr>label = I18n.t l (js ''toast.retry'') None, onClick = c\<rparr>)
             (board_state s1)\<rparr>)"

definition retro_change :: "jstr \<Rightarrow> retro \<Rightarrow> retro" where
  "retro_change nxt s =
     (let s1 = drop_toast (rw_week s)
                 (clear_both (s\<lparr>rw_value := nxt, dirtyRef := (nxt \<noteq> savedRef s)\<rparr>));
          (h, s2) = set_timer RETRO_DEBOUNCE_MS (rw_week s, nxt) (s1\<lparr>attemptsRef := 0\<rparr>)
      in s2\<lparr>debounceRef := Some h\<rparr>)"

text \<open>Leaving the page asks for a confirmation while \<open>dirtyRef\<close> is set.\<close>

definition unload_question :: "retro \<Rightarrow> jstr option" where
  "unload_question s =
     (if dirtyRef s then Some (I18n.t (rw_lang s) (js ''toast.unsaved_changes'') None) else None)"

datatype retro_event =
    Edit jstr
  | Fire nat                            \<comment> \<open>the timer of this handle\<close>
  | Settle save_call "jstr option"      \<comment> \<open>a reply: None for success\<close>
  | ClickRetry save_call
  | CloseToast
  | SwitchWeek int jstr
  | Unmount

definition offered :: "retro \<Rightarrow> save_call list" where
  "offered s = [onClick a. tt \<leftarrow> toasts (board_state s), a \<leftarrow> (case action tt of None \<Rightarrow> [] | Some a \<Rightarrow> [a])]"

fun retro_step :: "retro_event \<Rightarrow> retro \<Rightarrow> retro" where
  "retro_step (Edit nxt) s = retro_change nxt s"
| "retro_step (Fire h) s =
     (case find (\<lambda>tm. handle tm = h) (timers s) of
        None \<Rightarrow> s
      | Some tm \<Rightarrow> start_save (saves_what tm)
                   (s\<lparr>timers := filter (\<lambda>tm. handle tm \<noteq> h) (timers s)\<rparr>))"
| "retro_step (Settle c failure) s =
     (if c \<in> set (in_flight s) then
        let s1 = s\<lparr>in_flight := remove1 c (in_flight s)\<rparr> in
        (case failure of None \<Rightarrow> saved c s1 | Some msg \<Rightarrow> save_failed c msg s1)
      else s)"
| "retro_step (ClickRetry c) s =
     (if c \<in> set (offered s) then drop_toast (fst c) (start_save c (s\<lparr>attemptsRef := 0\<rparr>)) else s)"
| "retro_step CloseToast s = drop_toast (rw_week s) s"
| "retro_step (SwitchWeek wk initial) s = retro_reset wk initial s"
| "retro_step Unmount s = clear_both s"

definition retro_init :: "Lang \<Rightarrow> int \<Rightarrow> jstr \<Rightarrow> retro" where
  "retro_init l wk initial =
     \<lparr>rw_week = wk, rw_value = initial, savedRef = initial, dirtyRef = False, debounceRef = None,
      retryRef = None, attemptsRef = 0, timers = [], next_handle = 1, in_flight = [],
      board_state = init_toasts, server_text = [wk \<mapsto> initial], rw_lang = l\<rparr>"

subsection \<open>Edits that wait for the save in flight\<close>

text \<open>
  A run is calm when the text is edited only while no save is in flight, the week is
  changed only when nothing is pending (the new text being the server's), and the error
  toast is not closed by hand. In a calm run no edit is lost.
\<close>

definition pending :: "retro \<Rightarrow> save_call list" where
  "pending s = map saves_what (timers s) @ in_flight s"

fun calm_event :: "retro_event \<Rightarrow> retro \<Rightarrow> bool" where
  "calm_event (Edit nxt) s = (in_flight s = [])"
| "calm_event (SwitchWeek wk initial) s =
     (pending s = [] \<and> offered s = [] \<and> server_text s wk = Some initial)"
| "calm_event CloseToast s = False"
| "calm_event Unmount s = False"
| "calm_event _ s = True"

fun calm_run :: "retro_event list \<Rightarrow> retro \<Rightarrow> bool" where
  "calm_run [] s = True"
| "calm_run (e # es) s = (calm_event e s \<and> calm_run es (retro_step e s))"

definition retro_run :: "retro_event list \<Rightarrow> retro \<Rightarrow> retro" where
  "retro_run es s = fold retro_step es s"

definition toasts_ok :: "retro \<Rightarrow> bool" where
  "toasts_ok s \<longleftrightarrow> (\<forall>tt \<in> set (toasts (board_state s)). \<forall>a. action tt = Some a \<longrightarrow>
     toast_id tt = retro_toast (fst (onClick a)) \<and> onClick a = (rw_week s, rw_value s))"

definition timers_ok :: "retro \<Rightarrow> bool" where
  "timers_ok s \<longleftrightarrow> (\<forall>tm \<in> set (timers s). debounceRef s = Some (handle tm) \<or> retryRef s = Some (handle tm))"

definition calm_inv :: "retro \<Rightarrow> bool" where
  "calm_inv s \<longleftrightarrow>
     (pending s = [] \<or> pending s = [(rw_week s, rw_value s)]) \<and>
     (offered s \<noteq> [] \<longrightarrow> pending s = []) \<and>
     toasts_ok s \<and> timers_ok s \<and>
     (dirtyRef s \<longleftrightarrow> rw_value s \<noteq> savedRef s) \<and>
     (rw_value s \<noteq> savedRef s \<longrightarrow> pending s \<noteq> [] \<or> offered s \<noteq> []) \<and>
     server_text s (rw_week s) = Some (savedRef s)"

lemma offered_Nil: "offered s = [] \<longleftrightarrow> (\<forall>tt \<in> set (toasts (board_state s)). action tt = None)"
  by (auto simp: offered_def split: option.splits)

lemma offered_cong: "board_state s' = board_state s \<Longrightarrow> offered s' = offered s"
  by (simp add: offered_def)

lemma filter_all_refs:
  assumes "timers_ok s"
  shows "timers (clear_both s) = []"
  using assms
  by (auto simp: clear_both_def clear_timer_def timers_ok_def filter_empty_conv split: option.splits)

lemma clear_both_frame [simp]:
  "rw_week (clear_both s) = rw_week s" "rw_value (clear_both s) = rw_value s"
  "savedRef (clear_both s) = savedRef s" "dirtyRef (clear_both s) = dirtyRef s"
  "attemptsRef (clear_both s) = attemptsRef s" "in_flight (clear_both s) = in_flight s"
  "board_state (clear_both s) = board_state s" "server_text (clear_both s) = server_text s"
  "debounceRef (clear_both s) = debounceRef s" "retryRef (clear_both s) = retryRef s"
  "next_handle (clear_both s) = next_handle s" "rw_lang (clear_both s) = rw_lang s"
  by (simp_all add: clear_both_def clear_timer_def split: option.splits)

lemma drop_toast_offered:
  assumes "toasts_ok s" "board_state s' = board_state s"
  shows "offered (drop_toast (rw_week s) s') = []"
proof -
  have "action tt = None"
    if "tt \<in> set (toasts (board_state s))" "toast_id tt \<noteq> retro_toast (rw_week s)" for tt
    using assms(1) that by (cases "action tt") (auto simp: toasts_ok_def)
  then show ?thesis using assms(2) by (auto simp: offered_Nil drop_toast_def)
qed

lemma error_item_shown:
  "\<exists>tt \<in> set (toasts (toast_error_at i m b)). action tt = snd m"
proof -
  let ?item = "\<lparr>toast_id = i, variant = Error, message = fst m, action = snd m, duration = DEFAULTS Error\<rparr>"
  have "?item \<in> set (toasts (toast_error_at i m b))"
  proof (cases "find_index (\<lambda>tt. toast_id tt = i) (toasts b)")
    case None
    then show ?thesis
      using error_in_capQueue [of ?item "toasts b"] by (simp add: toast_error_at_def add_def)
  next
    case (Some k)
    with find_index_Some [OF Some] show ?thesis
      by (simp add: toast_error_at_def add_def set_update_memI)
  qed
  then show ?thesis by (rule rev_bexI) simp
qed

lemma error_at_toasts:
  assumes "tt \<in> set (toasts (toast_error_at i m b))"
  shows "tt \<in> set (toasts b) \<or> (toast_id tt = i \<and> action tt = snd m)"
proof -
  have "set (capQueue ts) \<subseteq> set ts" for ts :: "'a Toast list"
    using capQueue_subseq [of ts] by (auto dest: list_emb_set)
  then show ?thesis
    using assms
    by (fastforce simp: toast_error_at_def add_def Let_def split: option.splits
        dest: set_update_subset_insert [THEN subsetD])
qed

lemma drop_toast_frame [simp]:
  "rw_week (drop_toast k s) = rw_week s" "rw_value (drop_toast k s) = rw_value s"
  "savedRef (drop_toast k s) = savedRef s" "dirtyRef (drop_toast k s) = dirtyRef s"
  "in_flight (drop_toast k s) = in_flight s" "timers (drop_toast k s) = timers s"
  "server_text (drop_toast k s) = server_text s" "debounceRef (drop_toast k s) = debounceRef s"
  "retryRef (drop_toast k s) = retryRef s" "next_handle (drop_toast k s) = next_handle s"
  by (simp_all add: drop_toast_def)

lemma drop_toast_ok: "toasts_ok s \<Longrightarrow> toasts_ok (drop_toast k s)"
  by (auto simp: toasts_ok_def drop_toast_def)

lemma save_failed_frame [simp]:
  "rw_week (save_failed c msg s) = rw_week s" "rw_value (save_failed c msg s) = rw_value s"
  "savedRef (save_failed c msg s) = savedRef s" "dirtyRef (save_failed c msg s) = dirtyRef s"
  "server_text (save_failed c msg s) = server_text s" "in_flight (save_failed c msg s) = in_flight s"
  by (simp_all add: save_failed_def Let_def set_timer_def)

lemma no_offer_ok: "offered s = [] \<Longrightarrow> toasts_ok s"
  by (simp add: offered_Nil toasts_ok_def)

lemma offered_in: "toasts_ok s \<Longrightarrow> c \<in> set (offered s) \<Longrightarrow> c = (rw_week s, rw_value s)"
  by (fastforce simp: offered_def toasts_ok_def split: option.splits)

lemma calm_edit:
  assumes inv: "calm_inv s" and calm: "in_flight s = []"
  shows "calm_inv (retro_change nxt s)"
proof -
  let ?u = "clear_both (s\<lparr>rw_value := nxt, dirtyRef := (nxt \<noteq> savedRef s)\<rparr>)"
  have tk: "timers ?u = []"
    using inv by (intro filter_all_refs) (simp add: calm_inv_def timers_ok_def)
  have "offered (drop_toast (rw_week s) ?u) = []"
    using inv by (intro drop_toast_offered) (simp_all add: calm_inv_def)
  then have "offered (retro_change nxt s) = []"
    by (simp add: retro_change_def Let_def set_timer_def offered_def)
  moreover have "timers (retro_change nxt s) =
      [\<lparr>handle = next_handle s, delay = RETRO_DEBOUNCE_MS, saves_what = (rw_week s, nxt)\<rparr>]"
    using tk by (simp add: retro_change_def Let_def set_timer_def)
  ultimately show ?thesis
    using inv calm no_offer_ok
    by (simp add: calm_inv_def pending_def timers_ok_def)
      (simp add: retro_change_def Let_def set_timer_def)
qed

lemma calm_fire: "calm_inv s \<Longrightarrow> calm_inv (retro_step (Fire h) s)"
proof (cases "find (\<lambda>tm. handle tm = h) (timers s)")
  case (Some tm)
  assume inv: "calm_inv s"
  from Some have "tm \<in> set (timers s)" and h: "handle tm = h" by (auto simp: find_Some_iff)
  then have one: "timers s = [tm]" "in_flight s = []" "saves_what tm = (rw_week s, rw_value s)"
    using inv by (auto simp: calm_inv_def pending_def append_eq_Cons_conv)
  have "offered s = []" using inv one by (auto simp: calm_inv_def pending_def)
  with inv one show ?thesis
    by (simp add: Some h [symmetric] start_save_def calm_inv_def pending_def timers_ok_def
        toasts_ok_def offered_def)
qed simp

lemma calm_settle: "calm_inv s \<Longrightarrow> calm_inv (retro_step (Settle c failure) s)"
proof (cases "c \<in> set (in_flight s)")
  case True
  assume inv: "calm_inv s"
  then have one: "timers s = []" "in_flight s = [c]" "c = (rw_week s, rw_value s)"
    using True by (auto simp: calm_inv_def pending_def append_eq_Cons_conv)
  then have no: "offered s = []" using inv by (auto simp: calm_inv_def pending_def)
  let ?s = "s\<lparr>in_flight := []\<rparr>"
  show ?thesis
  proof (cases failure)
    case None
    have "toasts_ok (saved c ?s)" using no by (auto simp: saved_def drop_toast_def offered_Nil toasts_ok_def)
    moreover have "offered (saved c ?s) = []" using no by (auto simp: saved_def drop_toast_def offered_Nil)
    ultimately show ?thesis
      using one None by (simp add: calm_inv_def) (simp add: saved_def pending_def timers_ok_def)
  next
    case (Some msg)
    have none: "action tt = None" if "tt \<in> set (toasts (board_state s))" for tt
      using no that by (simp add: offered_Nil)
    let ?r = "save_failed c msg ?s"
    show ?thesis
    proof (cases "attemptsRef s + 1 < RETRO_MAX_ATTEMPTS")
      case True
      then have "pending ?r = [c]" "timers_ok ?r"
        using one by (simp_all add: save_failed_def Let_def set_timer_def pending_def timers_ok_def)
      moreover have "offered ?r = []"
        using True none by (auto simp: save_failed_def Let_def set_timer_def offered_Nil
            dest!: error_at_toasts)
      ultimately show ?thesis
        using inv one Some no_offer_ok [of ?r] by (simp add: calm_inv_def)
    next
      case False
      then have "pending ?r = []" "timers_ok ?r"
        using one by (simp_all add: save_failed_def Let_def pending_def timers_ok_def)
      moreover have "offered ?r \<noteq> []"
        using False error_item_shown [of "retro_toast (fst c)"] unfolding offered_Nil
        by (fastforce simp: save_failed_def Let_def)
      moreover have "toasts_ok ?r"
        using False none one by (auto simp: save_failed_def Let_def toasts_ok_def dest!: error_at_toasts)
      ultimately show ?thesis using inv one Some by (simp add: calm_inv_def)
    qed
  qed
qed simp

lemma calm_click: "calm_inv s \<Longrightarrow> calm_inv (retro_step (ClickRetry c) s)"
proof (cases "c \<in> set (offered s)")
  case True
  assume inv: "calm_inv s"
  then have c: "c = (rw_week s, rw_value s)" using True offered_in by (simp add: calm_inv_def)
  have p: "pending s = []" using inv True by (auto simp: calm_inv_def)
  let ?r = "drop_toast (rw_week s) (start_save c (s\<lparr>attemptsRef := 0\<rparr>))"
  have "offered ?r = []"
    using inv by (intro drop_toast_offered) (simp_all add: calm_inv_def start_save_def)
  then show ?thesis
    using inv True p c no_offer_ok [of ?r]
    by (simp add: calm_inv_def timers_ok_def) (simp add: start_save_def pending_def)
qed simp

lemma calm_switch:
  assumes inv: "calm_inv s" and calm: "calm_event (SwitchWeek wk initial) s"
  shows "calm_inv (retro_reset wk initial s)"
proof -
  let ?r = "retro_reset wk initial s"
  have "timers s = []" "in_flight s = []" "\<forall>tt \<in> set (toasts (board_state s)). action tt = None"
    using calm by (auto simp: pending_def offered_Nil)
  then have "timers ?r = []" "in_flight ?r = []" "offered ?r = []"
    by (auto simp: retro_reset_def drop_toast_def clear_both_def clear_timer_def offered_Nil split: option.splits)
  then show ?thesis
    using calm no_offer_ok [of ?r]
    by (simp add: calm_inv_def pending_def timers_ok_def) (simp add: retro_reset_def)
qed

lemma calm_step: "calm_inv s \<Longrightarrow> calm_event e s \<Longrightarrow> calm_inv (retro_step e s)"
proof (cases e)
  case (SwitchWeek wk initial)
  assume "calm_inv s" "calm_event e s"
  with calm_switch [of s wk initial] SwitchWeek show ?thesis by simp
qed (use calm_fire calm_settle calm_click in \<open>simp_all add: calm_edit\<close>)

lemma calm_run_inv: "calm_inv s \<Longrightarrow> calm_run es s \<Longrightarrow> calm_inv (retro_run es s)"
  by (induction es arbitrary: s) (simp_all add: retro_run_def calm_step)

lemma calm_init: "calm_inv (retro_init l wk initial)"
  by (simp add: calm_inv_def retro_init_def pending_def offered_Nil toasts_ok_def timers_ok_def
      init_toasts_def)

subsection \<open>Retries\<close>

text \<open>The pauses: at most two automatic retries follow a save, after one and three seconds.\<close>

definition delays_ok :: "retro \<Rightarrow> bool" where
  "delays_ok s \<longleftrightarrow> set (map delay (timers s)) \<subseteq> {700, 1000, 3000}"

lemma clear_delays: "delays_ok s \<Longrightarrow> delays_ok (clear_timer ref s)"
  by (auto simp: delays_ok_def clear_timer_def split: option.splits)

lemma backoff: "n < RETRO_MAX_ATTEMPTS \<Longrightarrow> RETRO_BACKOFFS_MS ! min (n - 1) (length RETRO_BACKOFFS_MS - 1) \<in> {1000, 3000}"
proof -
  assume "n < RETRO_MAX_ATTEMPTS"
  then have "n = 0 \<or> n = 1 \<or> n = 2" by (auto simp: RETRO_MAX_ATTEMPTS_def)
  then show ?thesis by (auto simp: RETRO_BACKOFFS_MS_def)
qed

lemma step_delays: "delays_ok s \<Longrightarrow> delays_ok (retro_step e s)"
proof (cases e)
  case (Edit nxt)
  assume "delays_ok s"
  then have "delays_ok (clear_both (s\<lparr>rw_value := nxt, dirtyRef := (nxt \<noteq> savedRef s)\<rparr>))"
    unfolding clear_both_def by (intro clear_delays) (simp add: delays_ok_def)
  then show ?thesis
    by (auto simp: Edit retro_change_def Let_def set_timer_def delays_ok_def RETRO_DEBOUNCE_MS_def)
next
  case (Settle c failure)
  assume ok: "delays_ok s"
  have "delays_ok (save_failed c msg s')" if "timers s' = timers s" for msg s'
    using ok that backoff [of "attemptsRef s' + 1"]
    by (auto simp: save_failed_def Let_def set_timer_def delays_ok_def)
  then show ?thesis
    using ok by (cases failure) (simp_all add: Settle Let_def saved_def delays_ok_def)
next
  case (SwitchWeek wk initial)
  assume "delays_ok s"
  then have "delays_ok (clear_both (s\<lparr>rw_week := wk, rw_value := initial, savedRef := initial,
      dirtyRef := False, attemptsRef := 0\<rparr>))"
    unfolding clear_both_def by (intro clear_delays) (simp add: delays_ok_def)
  then show ?thesis by (simp add: SwitchWeek retro_reset_def delays_ok_def)
next
  case Unmount
  then show "delays_ok s \<Longrightarrow> ?thesis" by (simp add: clear_both_def clear_delays)
qed (auto simp: delays_ok_def start_save_def split: option.splits)

lemma run_delays: "delays_ok s \<Longrightarrow> delays_ok (retro_run es s)"
  by (induction es arbitrary: s) (simp_all add: retro_run_def step_delays)

definition failing_save :: "int \<Rightarrow> jstr \<Rightarrow> retro_event list" where
  "failing_save wk nxt =
     [Edit nxt, Fire 1, Settle (wk, nxt) (Some []), Fire 2, Settle (wk, nxt) (Some []),
      Fire 3, Settle (wk, nxt) (Some [])]"

lemmas retro_eval = retro_run_def retro_init_def retro_change_def clear_both_def clear_timer_def
  set_timer_def drop_toast_def start_save_def saved_def save_failed_def Let_def dismiss_def
  toast_error_at_def add_def init_toasts_def capQueue_def MAX_VISIBLE_def RETRO_MAX_ATTEMPTS_def
  RETRO_BACKOFFS_MS_def RETRO_DEBOUNCE_MS_def offered_def

lemma three_attempts:
  "let s = retro_run (failing_save wk nxt) (retro_init l wk initial) in
     timers s = [] \<and> in_flight s = [] \<and> offered s = [(wk, nxt)]"
  by (simp add: failing_save_def retro_eval)

subsection \<open>The rating of a dinner\<close>

datatype rating_call = PutRating DinnerRating jstr | DeleteRating

record rating_timer =
  rt_handle :: nat
  rt_call :: "DinnerRating \<times> jstr"

record rating_control =
  rc_rating :: "DinnerRating option"
  rc_notes :: jstr
  timerRef :: "nat option"
  rc_timers :: "rating_timer list"
  rc_next :: nat
  rc_calls :: "rating_call list"     \<comment> \<open>sent and not answered\<close>
  rc_stored :: "(DinnerRating \<times> jstr) option"
  rc_refetches :: nat                \<comment> \<open>calls of onChanged\<close>
  rc_errors :: "jstr list"

definition persist :: "DinnerRating \<Rightarrow> jstr \<Rightarrow> rating_control \<Rightarrow> rating_control" where
  "persist r n s = s\<lparr>rc_calls := rc_calls s @ [PutRating r n]\<rparr>"

definition drop_timer :: "rating_control \<Rightarrow> rating_control" where
  "drop_timer s =
     (case timerRef s of None \<Rightarrow> s
      | Some h \<Rightarrow> s\<lparr>rc_timers := filter (\<lambda>tm. rt_handle tm \<noteq> h) (rc_timers s)\<rparr>)"

definition pickRating :: "DinnerRating \<Rightarrow> rating_control \<Rightarrow> rating_control" where
  "pickRating nxt s = persist nxt (rc_notes s) (drop_timer (s\<lparr>rc_rating := Some nxt\<rparr>))"

definition changeNotes :: "jstr \<Rightarrow> rating_control \<Rightarrow> rating_control" where
  "changeNotes nxt s =
     (let s1 = s\<lparr>rc_notes := nxt\<rparr> in
      case rc_rating s of
        None \<Rightarrow> s1
      | Some r \<Rightarrow>
          (let s2 = drop_timer s1 in
           s2\<lparr>rc_timers := rc_timers s2 @ [\<lparr>rt_handle = rc_next s, rt_call = (r, nxt)\<rparr>],
              timerRef := Some (rc_next s), rc_next := rc_next s + 1\<rparr>))"

definition clearRating :: "rating_control \<Rightarrow> rating_control" where
  "clearRating s = s\<lparr>rc_rating := None, rc_notes := [], rc_calls := rc_calls s @ [DeleteRating]\<rparr>"

datatype rating_event =
    Pick DinnerRating | TypeNotes jstr | ClearRating
  | FireNotes nat
  | RatingReply "jstr option"       \<comment> \<open>to the oldest call: None for success\<close>
  | Refetched "DinnerRating option" jstr

fun rating_step :: "rating_event \<Rightarrow> rating_control \<Rightarrow> rating_control" where
  "rating_step (Pick r) s = pickRating r s"
| "rating_step (TypeNotes n) s = changeNotes n s"
| "rating_step ClearRating s = clearRating s"
| "rating_step (FireNotes h) s =
     (case find (\<lambda>tm. rt_handle tm = h) (rc_timers s) of
        None \<Rightarrow> s
      | Some tm \<Rightarrow> persist (fst (rt_call tm)) (snd (rt_call tm))
                    (s\<lparr>rc_timers := filter (\<lambda>tm. rt_handle tm \<noteq> h) (rc_timers s)\<rparr>))"
| "rating_step (RatingReply failure) s =
     (case rc_calls s of
        [] \<Rightarrow> s
      | c # cs \<Rightarrow>
          (case failure of
             Some e \<Rightarrow> s\<lparr>rc_calls := cs, rc_errors := rc_errors s @ [e]\<rparr>
           | None \<Rightarrow>
               s\<lparr>rc_calls := cs, rc_refetches := rc_refetches s + 1,
                  rc_stored := (case c of PutRating r n \<Rightarrow> Some (r, n) | DeleteRating \<Rightarrow> None)\<rparr>))"
| "rating_step (Refetched r n) s = s\<lparr>rc_rating := r, rc_notes := n\<rparr>"

definition rating_run :: "rating_event list \<Rightarrow> rating_control \<Rightarrow> rating_control" where
  "rating_run es s = fold rating_step es s"

definition rating_init :: "DinnerRating option \<Rightarrow> jstr \<Rightarrow> rating_control" where
  "rating_init r n =
     \<lparr>rc_rating = r, rc_notes = n, timerRef = None, rc_timers = [], rc_next = 1, rc_calls = [],
      rc_stored = map_option (\<lambda>x. (x, n)) r, rc_refetches = 0, rc_errors = []\<rparr>"

text \<open>At most one notes timer runs, and it is the one that can be cancelled.\<close>

definition rating_inv :: "rating_control \<Rightarrow> bool" where
  "rating_inv s \<longleftrightarrow>
     rc_timers s = [] \<or> (\<exists>tm. rc_timers s = [tm] \<and> timerRef s = Some (rt_handle tm))"

lemma drop_timer_empty: "rating_inv s \<Longrightarrow> rc_timers (drop_timer s) = []"
  by (auto simp: rating_inv_def drop_timer_def split: option.splits)

lemma drop_timer_frame [simp]:
  "rc_rating (drop_timer s) = rc_rating s" "rc_notes (drop_timer s) = rc_notes s"
  "timerRef (drop_timer s) = timerRef s" "rc_calls (drop_timer s) = rc_calls s"
  "rc_next (drop_timer s) = rc_next s" "rc_stored (drop_timer s) = rc_stored s"
  by (simp_all add: drop_timer_def split: option.splits)

lemma rating_inv_cong:
  "rc_timers s' = rc_timers s \<Longrightarrow> timerRef s' = timerRef s \<Longrightarrow> rating_inv s' = rating_inv s"
  by (simp add: rating_inv_def)

lemma step_rating_inv: "rating_inv s \<Longrightarrow> rating_inv (rating_step e s)"
proof (cases e)
  case (Pick r)
  assume "rating_inv s"
  then have "rc_timers (drop_timer (s\<lparr>rc_rating := Some r\<rparr>)) = []"
    by (intro drop_timer_empty) (simp add: rating_inv_def)
  then show ?thesis by (simp add: Pick pickRating_def persist_def rating_inv_def)
next
  case (TypeNotes n)
  assume inv: "rating_inv s"
  then have "rc_timers (drop_timer (s\<lparr>rc_notes := n\<rparr>)) = []"
    by (intro drop_timer_empty) (simp add: rating_inv_def)
  with inv show ?thesis
    by (simp add: TypeNotes changeNotes_def Let_def rating_inv_def split: option.splits)
next
  case (FireNotes h)
  then show "rating_inv s \<Longrightarrow> ?thesis"
    by (cases "find (\<lambda>tm. rt_handle tm = h) (rc_timers s)")
      (auto simp: rating_inv_def persist_def split: if_splits)
qed (auto simp: rating_inv_def clearRating_def split: option.splits list.splits)

lemma run_rating_inv: "rating_inv s \<Longrightarrow> rating_inv (rating_run es s)"
  by (induction es arbitrary: s) (simp_all add: rating_run_def step_rating_inv)

lemma rating_init_inv: "rating_inv (rating_init r n)"
  by (simp add: rating_inv_def rating_init_def)

text \<open>A picked rating replaces a notes timer: the notes go out with it, once.\<close>

lemma pick_sends:
  "rating_inv s \<Longrightarrow> rc_timers (pickRating r s) = [] \<and> rc_calls (pickRating r s) = rc_calls s @ [PutRating r (rc_notes s)]"
  using drop_timer_empty [of "s\<lparr>rc_rating := Some r\<rparr>"]
  by (simp add: pickRating_def persist_def rating_inv_def)

text \<open>Notes without a rating are never sent.\<close>

lemma notes_alone:
  "rc_rating s = None \<Longrightarrow> changeNotes n s = s\<lparr>rc_notes := n\<rparr>"
  by (simp add: changeNotes_def Let_def)

subsection \<open>Properties\<close>

lemma calm_facts:
  assumes "calm_inv s"
  shows "(unload_question s \<noteq> None \<longleftrightarrow> server_text s (rw_week s) \<noteq> Some (rw_value s)) \<and>
    (pending s = [] \<and> offered s = [] \<longrightarrow> server_text s (rw_week s) = Some (rw_value s))"
proof -
  have "server_text s (rw_week s) = Some (savedRef s)" "dirtyRef s \<longleftrightarrow> rw_value s \<noteq> savedRef s"
      "rw_value s \<noteq> savedRef s \<longrightarrow> pending s \<noteq> [] \<or> offered s \<noteq> []"
    using assms unfolding calm_inv_def by blast+
  then show ?thesis by (auto simp: unload_question_def)
qed

text \<open>From a calm state, firing what waits and one accepted reply bring the text to the server.\<close>

lemma saved_facts:
  "server_text (saved c s) (fst c) = Some (snd c)" "rw_week (saved c s) = rw_week s"
  "rw_value (saved c s) = rw_value s"
  by (simp_all add: saved_def drop_toast_def)

lemma settle_saves:
  assumes "in_flight s = [(rw_week s, rw_value s)]"
  shows "let s' = retro_step (Settle (rw_week s, rw_value s) None) s in
    server_text s' (rw_week s') = Some (rw_value s') \<and> rw_value s' = rw_value s"
  using assms saved_facts [of "(rw_week s, rw_value s)" "s\<lparr>in_flight := []\<rparr>"] by (simp add: Let_def)

lemma calm_progress:
  assumes inv: "calm_inv s"
  shows "\<exists>es. length es \<le> 2 \<and> calm_run es s \<and> rw_value (retro_run es s) = rw_value s \<and>
    server_text (retro_run es s) (rw_week (retro_run es s)) = Some (rw_value s)"
proof -
  let ?c = "(rw_week s, rw_value s)"
  have reach: "\<exists>es. length es \<le> 2 \<and> calm_run es s \<and> rw_value (retro_run es s) = rw_value s \<and>
      server_text (retro_run es s) (rw_week (retro_run es s)) = Some (rw_value s)"
    if "in_flight (retro_step e s) = [?c]" "rw_week (retro_step e s) = rw_week s"
      "rw_value (retro_step e s) = rw_value s" "calm_event e s" for e
    using that settle_saves [of "retro_step e s"]
    by (intro exI [of _ "[e, Settle ?c None]"]) (simp add: retro_run_def Let_def)
  consider (idle) "pending s = []" "offered s = []" | (offer) "pending s = []" "offered s \<noteq> []"
    | (waiting) "pending s = [?c]"
    using inv by (auto simp: calm_inv_def)
  then show ?thesis
  proof cases
    case idle
    with calm_facts [OF inv] show ?thesis by (intro exI [of _ "[]"]) (simp add: retro_run_def)
  next
    case offer
    then obtain c where c: "c \<in> set (offered s)" by (cases "offered s") auto
    moreover have "c = ?c" using inv c by (auto simp: calm_inv_def dest: offered_in)
    ultimately show ?thesis using offer(1)
      by (intro reach [of "ClickRetry ?c"]) (simp_all add: pending_def start_save_def drop_toast_def)
  next
    case waiting
    show ?thesis
    proof (cases "timers s")
      case Nil
      with waiting have "in_flight s = [?c]" by (simp add: pending_def)
      then show ?thesis using settle_saves [of s]
        by (intro exI [of _ "[Settle ?c None]"]) (simp add: retro_run_def Let_def)
    next
      case (Cons tm tms)
      with waiting have "tms = []" "saves_what tm = ?c" "in_flight s = []" by (simp_all add: pending_def)
      with Cons show ?thesis by (intro reach [of "Fire (handle tm)"]) (simp_all add: start_save_def)
    qed
  qed
qed



text \<open>
  C22: The text can always still arrive: in whatever state such a session is, failed saves included,
  at most two further events, the firing of the waiting timer or a click on the offered retry
  and one reply of a server that accepts, put the text on the screen on the server.
\<close>

theorem calm_text_arrives:
  assumes "calm_run es (retro_init l wk initial)"
  shows "\<exists>es'. length es' \<le> 2 \<and> calm_run (es @ es') (retro_init l wk initial) \<and>
    (let s = retro_run es (retro_init l wk initial); s' = retro_run (es @ es') (retro_init l wk initial) in
       rw_value s' = rw_value s \<and> server_text s' (rw_week s') = Some (rw_value s))"
proof -
  let ?s = "retro_run es (retro_init l wk initial)"
  have app: "calm_run (es @ es') s \<longleftrightarrow> calm_run es s \<and> calm_run es' (retro_run es s)" for es' s
    by (induction es arbitrary: s) (simp_all add: retro_run_def)
  have "calm_inv ?s" by (rule calm_run_inv [OF calm_init assms])
  from calm_progress [OF this] show ?thesis
    using assms by (auto simp: app Let_def retro_run_def)
qed

theorem calm_text_arrives_witness:
  "\<exists>es'. length es' \<le> 2 \<and>
     (let s' = retro_run (failing_save 1 [97] @ es') (retro_init En 1 []) in
        server_text s' (rw_week s') = Some [97])"
proof -
  have v: "rw_value (retro_run (failing_save 1 [97]) (retro_init En 1 [])) = [97]"
    by (simp add: failing_save_def retro_eval)
  have "calm_run (failing_save 1 [97]) (retro_init En 1 [])" by (simp add: failing_save_def retro_eval)
  from calm_text_arrives [OF this] show ?thesis unfolding Let_def v by blast
qed


text \<open>
  The two races of typing while a save is under way. A reply to the older text clears the
  warning although the newer one is not stored; and the retry of an older text that failed
  overwrites the newer one after it was stored, with nothing left to repair it.
\<close>

definition early_reply :: "retro_event list" where
  "early_reply = [Edit [97], Fire 1, Edit [97, 98], Settle (1, [97]) None]"

definition stale_retry :: "retro_event list" where
  "stale_retry = [Edit [97], Fire 1, Edit [97, 98], Settle (1, [97]) (Some []), Fire 2,
     Settle (1, [97, 98]) None, Fire 3, Settle (1, [97]) None]"

lemma early_reply_clears_warning:
  "let s = retro_run early_reply (retro_init En 1 []) in
     rw_value s = [97, 98] \<and> server_text s 1 = Some [97] \<and> unload_question s = None"
  by (simp add: early_reply_def retro_eval unload_question_def)

lemma stale_retry_overwrites:
  "let s = retro_run stale_retry (retro_init En 1 []) in
     rw_value s = [97, 98] \<and> server_text s 1 = Some [97] \<and> unload_question s = None \<and>
     pending s = [] \<and> offered s = []"
  by (simp add: stale_retry_def retro_eval unload_question_def pending_def)

text \<open>
  A reload of the week brings the saved text back as a new initial text: what was typed after
  the save, and still waits for its timer, is gone from the screen and is never sent.
\<close>

definition reload_while_typing :: "retro_event list" where
  "reload_while_typing = [Edit [97], Fire 1, Settle (1, [97]) None, Edit [97, 98], SwitchWeek 1 [97]]"

lemma reload_drops_typing:
  "let s = retro_run reload_while_typing (retro_init En 1 []) in
     rw_value s = [97] \<and> server_text s 1 = Some [97] \<and> pending s = [] \<and> offered s = []"
  by (simp add: reload_while_typing_def retro_eval pending_def retro_reset_def)

text \<open>
  In the rating control at most one save of typed notes waits, and it is the one that can
  be cancelled; picking a rating cancels it and sends the rating with the notes as they
  stand, once; notes typed without a rating are not sent.
\<close>

theorem rating_saves:
  "(let s = rating_run es (rating_init r0 n0) in
     length (rc_timers s) \<le> 1 \<and>
     rc_timers (pickRating r s) = [] \<and>
     rc_calls (pickRating r s) = rc_calls s @ [PutRating r (rc_notes s)] \<and>
     (rc_rating s = None \<longrightarrow> rc_timers (changeNotes n s) = rc_timers s \<and> rc_calls (changeNotes n s) = rc_calls s))"
proof -
  have "rating_inv (rating_run es (rating_init r0 n0))" by (rule run_rating_inv [OF rating_init_inv])
  then show ?thesis
    using pick_sends [of "rating_run es (rating_init r0 n0)" r]
    by (auto simp: Let_def notes_alone rating_inv_def)
qed

theorem rating_saves_witness:
  "rc_calls (pickRating Loved (rating_run [TypeNotes [97]] (rating_init None []))) = [PutRating Loved [97]]"
  using rating_saves [of "[TypeNotes [97]]" None "[]" Loved "[]"]
  by (simp add: rating_run_def rating_init_def changeNotes_def Let_def)

text \<open>Clearing a rating leaves the timer of its notes running, which stores it again.\<close>

definition clear_race :: "rating_event list" where
  "clear_race = [Pick Loved, RatingReply None, TypeNotes [97], ClearRating, RatingReply None, FireNotes 1,
     RatingReply None]"

lemma cleared_rating_returns:
  "let s = rating_run clear_race (rating_init None []) in
     rc_rating s = None \<and> rc_stored s = Some (Loved, [97])"
  by (simp add: clear_race_def rating_run_def rating_init_def pickRating_def persist_def drop_timer_def
      changeNotes_def clearRating_def Let_def)

end
