(* ===== verification/PlanForms.thy ===== *)
theory PlanForms
  imports IsoDate ApiTypes
begin

text \<open>
  The two forms that make a plan: web/src/components/PlanNewForm.tsx and
  DuplicatePlanDialog.tsx. A promise that the form awaits is split in two: what the click
  hands over, and the state after the promise settled. \<open>now\<close> is the local date,
  \<open>midnight\<close> the local midnights (see IsoDate).
\<close>

subsection \<open>The form for a new plan\<close>

definition DEFAULT_DINNERS :: int where "DEFAULT_DINNERS = 7"

text \<open>\<open>Number.parseInt(s, 10)\<close>; None is NaN.\<close>

definition parse_int :: "jstr \<Rightarrow> int option" where
  "parse_int s =
     (let s1 = trim_start s;
          neg = starts_with [c_dash] s1;
          s2 = (if neg \<or> starts_with [43] s1 then drop 1 s1 else s1);
          ds = takeWhile is_digit s2;
          n = int (dec_value ds)
      in if ds = [] then None else Some (if neg then - n else n))"

text \<open>\<open>parseInt(...) || d\<close>: NaN and zero give the default.\<close>

definition int_or :: "int option \<Rightarrow> int \<Rightarrow> int" where
  "int_or i d = (case i of Some n \<Rightarrow> if n \<noteq> 0 then n else d | None \<Rightarrow> d)"

record plan_form =
  pf_startDate :: jstr
  pf_dinners :: int
  pf_notes :: jstr
  pf_busy :: bool

definition iso_today :: "int \<Rightarrow> jstr" where
  "iso_today now = format_iso (Some now)"

definition plan_init :: "int \<Rightarrow> plan_form" where
  "plan_init now =
     \<lparr>pf_startDate = add_days (iso_today now) (Some 1), pf_dinners = DEFAULT_DINNERS, pf_notes = [],
      pf_busy = False\<rparr>"

definition plan_settings :: "jstr + HouseholdSettings \<Rightarrow> plan_form \<Rightarrow> plan_form" where
  "plan_settings reply f = (case reply of Inr h \<Rightarrow> f\<lparr>pf_dinners := default_dinners h\<rparr> | Inl e \<Rightarrow> f)"

definition plan_endDate :: "plan_form \<Rightarrow> jstr" where
  "plan_endDate f = add_days (pf_startDate f) (Some (pf_dinners f - 1))"

definition plan_set_start :: "jstr \<Rightarrow> plan_form \<Rightarrow> plan_form" where
  "plan_set_start v f = (if truthy v then f\<lparr>pf_startDate := v\<rparr> else f)"

definition plan_set_dinners :: "jstr \<Rightarrow> plan_form \<Rightarrow> plan_form" where
  "plan_set_dinners txt f = f\<lparr>pf_dinners := int_or (parse_int txt) 7\<rparr>"

definition plan_submit :: "plan_form \<Rightarrow> WeekCreate option \<times> plan_form" where
  "plan_submit f =
     (if pf_busy f then (None, f)
      else (Some \<lparr>wc_start_date = pf_startDate f, wc_end_date = plan_endDate f,
                   wc_notes_md = trim (pf_notes f)\<rparr>, f\<lparr>pf_busy := True\<rparr>))"

definition plan_settled :: "plan_form \<Rightarrow> plan_form" where
  "plan_settled f = f\<lparr>pf_busy := False\<rparr>"

subsection \<open>The dialog that duplicates a plan\<close>

record dup_dialog =
  dd_startDate :: jstr
  dd_busy :: bool

definition dup_init :: dup_dialog where
  "dup_init = \<lparr>dd_startDate = [], dd_busy = False\<rparr>"

text \<open>The effect on \<open>[source]\<close>.\<close>

definition dup_source :: "int \<Rightarrow> WeekSummary option \<Rightarrow> dup_dialog \<Rightarrow> dup_dialog" where
  "dup_source now source d =
     (case source of
        None \<Rightarrow> d
      | Some _ \<Rightarrow> \<lparr>dd_startDate = add_days (iso_today now) (Some 1), dd_busy = False\<rparr>)"

definition dup_duration :: "(int \<Rightarrow> int) \<Rightarrow> WeekSummary \<Rightarrow> int option" where
  "dup_duration midnight source = days_between midnight (start_date source) (end_date source)"

definition dup_endDate :: "(int \<Rightarrow> int) \<Rightarrow> WeekSummary \<Rightarrow> dup_dialog \<Rightarrow> jstr" where
  "dup_endDate midnight source d = add_days (dd_startDate d) (dup_duration midnight source)"

definition canConfirm :: "dup_dialog \<Rightarrow> bool" where
  "canConfirm d \<longleftrightarrow> dd_startDate d \<noteq> [] \<and> \<not> dd_busy d"

definition dup_confirm :: "dup_dialog \<Rightarrow> jstr option \<times> dup_dialog" where
  "dup_confirm d =
     (if \<not> canConfirm d then (None, d) else (Some (dd_startDate d), d\<lparr>dd_busy := True\<rparr>))"

definition dup_settled :: "dup_dialog \<Rightarrow> dup_dialog" where
  "dup_settled d = d\<lparr>dd_busy := False\<rparr>"

subsection \<open>The periods\<close>

lemma iso_today_parse: "four_digit_year now \<Longrightarrow> parse_iso (iso_today now) = Some now"
  by (simp add: iso_today_def iso.parse_fmt)

lemma plan_init_start: "four_digit_year now \<Longrightarrow> pf_startDate (plan_init now) = format_iso (Some (now + 1))"
  by (simp add: plan_init_def iso_today_def add_days_format)

lemma plan_end_format:
  "four_digit_year d \<Longrightarrow> pf_startDate f = format_iso (Some d) \<Longrightarrow>
     plan_endDate f = format_iso (Some (d + (pf_dinners f - 1)))"
  by (simp add: plan_endDate_def add_days_format)

lemma dup_end_format:
  assumes "four_digit_year a" "four_digit_year b" "four_digit_year d"
    and "start_date source = format_iso (Some a)" "end_date source = format_iso (Some b)"
    and "dd_startDate f = format_iso (Some d)"
    and "\<bar>(midnight b - ms_per_day * b) - (midnight a - ms_per_day * a)\<bar> < 43200000"
  shows "dup_endDate midnight source f = format_iso (Some (d + (b - a)))"
proof -
  have "dup_duration midnight source = Some (b - a)"
    unfolding dup_duration_def assms(4,5)
    by (rule days_between_exact [OF iso.parse_fmt iso.parse_fmt]) (use assms in simp_all)
  then show ?thesis using assms(3,6) by (simp add: dup_endDate_def add_days_format)
qed

lemma int_or_pos: "int_or i 7 \<noteq> 0"
  by (simp add: int_or_def split: option.splits)

subsection \<open>Properties\<close>


definition sample_source :: WeekSummary where
  "sample_source = \<lparr>week_id = 1, iso_week = [], start_date = format_iso (Some 19723),
     end_date = format_iso (Some 19729), delivery_date = None, order_date = None, week_status = Draft,
     dinner_count = 0, week_updated_at = []\<rparr>"

lemma sample_days: "four_digit_year 19723" "four_digit_year 19729" "four_digit_year 19800"
    "four_digit_year 19806"
  by code_simp+


text \<open>
  The form for a new plan covers as many days as the number of dinners it asks for: the
  last day is that many days, less one, after the first; and the form is not submitted twice
  while the first request is under way.
\<close>

theorem plan_covers_dinners:
  assumes "four_digit_year d" and "pf_startDate f = format_iso (Some d)"
    and "plan_submit f = (Some w, f')"
  shows "wc_start_date w = format_iso (Some d) \<and> wc_end_date w = format_iso (Some (d + (pf_dinners f - 1)))
    \<and> fst (plan_submit f') = None"
  using assms plan_end_format [OF assms(1,2)] by (auto simp: plan_submit_def split: if_splits)

theorem plan_covers_dinners_witness:
  "wc_end_date (the (fst (plan_submit (plan_init 19799)))) = format_iso (Some 19806)"
proof -
  have start: "pf_startDate (plan_init 19799) = format_iso (Some 19800)"
    using plan_init_start [of 19799] by (simp add: sample_days) code_simp
  have "plan_submit (plan_init 19799) = (Some (the (fst (plan_submit (plan_init 19799)))), snd (plan_submit (plan_init 19799)))"
    by (simp add: plan_submit_def plan_init_def)
  from plan_covers_dinners [OF sample_days(3) start this] show ?thesis
    by (simp add: plan_init_def DEFAULT_DINNERS_def)
qed

end
