(* ===== verification/SettingsForm.thy ===== *)
theory SettingsForm
  imports Api PlanForms I18n
begin

text \<open>
  web/src/components/SettingsModal.tsx: changes to the household settings are shown at
  once, collected in \<open>pendingPatch\<close> and sent as one PATCH 400 ms after the last of them,
  or when the modal closes. The state holds the refs, the patches sent so far with those
  not answered yet, and the interface language. A change is a patch with one field. Main keeps
  the component mounted while the settings are closed, so its cleanup on unmounting never runs.
\<close>

definition SAVE_DEBOUNCE_MS :: nat where "SAVE_DEBOUNCE_MS = 400"

definition empty_settings_patch :: SettingsPatch where
  "empty_settings_patch =
     \<lparr>sp_default_dinners = None, sp_default_servings = None, sp_language = None,
      sp_llm_provider = None, sp_notes_md = None\<rparr>"

datatype setting_change =
    SetLanguage Lang | SetDinners jstr | SetServings jstr | SetNotes jstr

text \<open>The patch of a change; the number fields read the text of the input.\<close>

fun change_patch :: "setting_change \<Rightarrow> SettingsPatch" where
  "change_patch (SetLanguage l) = empty_settings_patch\<lparr>sp_language := Some l\<rparr>"
| "change_patch (SetDinners s) = empty_settings_patch\<lparr>sp_default_dinners := Some (int_or (parse_int s) 1)\<rparr>"
| "change_patch (SetServings s) = empty_settings_patch\<lparr>sp_default_servings := Some (int_or (parse_int s) 1)\<rparr>"
| "change_patch (SetNotes s) = empty_settings_patch\<lparr>sp_notes_md := Some s\<rparr>"

definition opt_over :: "'a option \<Rightarrow> 'a option \<Rightarrow> 'a option" where
  "opt_over new old = (case new of Some x \<Rightarrow> Some x | None \<Rightarrow> old)"

text \<open>\<open>{ ...a, ...b }\<close>, and the same over the settings that are shown.\<close>

definition merge_patch :: "SettingsPatch \<Rightarrow> SettingsPatch \<Rightarrow> SettingsPatch" where
  "merge_patch a b =
     \<lparr>sp_default_dinners = opt_over (sp_default_dinners b) (sp_default_dinners a),
      sp_default_servings = opt_over (sp_default_servings b) (sp_default_servings a),
      sp_language = opt_over (sp_language b) (sp_language a),
      sp_llm_provider = opt_over (sp_llm_provider b) (sp_llm_provider a),
      sp_notes_md = opt_over (sp_notes_md b) (sp_notes_md a)\<rparr>"

definition apply_settings :: "SettingsPatch \<Rightarrow> HouseholdSettings \<Rightarrow> HouseholdSettings" where
  "apply_settings p h =
     h\<lparr>default_dinners := nullish (sp_default_dinners p) (default_dinners h),
       default_servings := nullish (sp_default_servings p) (default_servings h),
       language := nullish (sp_language p) (language h),
       llm_provider := nullish (sp_llm_provider p) (llm_provider h),
       hs_notes_md := nullish (sp_notes_md p) (hs_notes_md h)\<rparr>"

record settings_modal =
  sm_open :: bool
  sm_settings :: "HouseholdSettings option"
  sm_loaded :: bool
  pendingPatch :: SettingsPatch
  saveTimer :: bool                   \<comment> \<open>the debounce timer runs\<close>
  sm_sent :: "SettingsPatch list"     \<comment> \<open>every PATCH so far, in order\<close>
  sm_awaited :: "SettingsPatch list"  \<comment> \<open>those not answered\<close>
  sm_lang :: Lang
  sm_errors :: "jstr list"

definition settings_init :: "Lang \<Rightarrow> settings_modal" where
  "settings_init l =
     \<lparr>sm_open = False, sm_settings = None, sm_loaded = False, pendingPatch = empty_settings_patch,
      saveTimer = False, sm_sent = [], sm_awaited = [], sm_lang = l, sm_errors = []\<rparr>"

definition flush :: "settings_modal \<Rightarrow> settings_modal" where
  "flush s =
     (let toSend = pendingPatch s;
          s1 = s\<lparr>pendingPatch := empty_settings_patch, saveTimer := False\<rparr> in
      if toSend = empty_settings_patch then s1
      else s1\<lparr>sm_sent := sm_sent s @ [toSend], sm_awaited := sm_awaited s @ [toSend]\<rparr>)"

definition flushed :: "SettingsPatch \<Rightarrow> jstr + HouseholdSettings \<Rightarrow> settings_modal \<Rightarrow> settings_modal" where
  "flushed toSend reply s =
     (case reply of
        Inl e \<Rightarrow> s\<lparr>sm_errors := sm_errors s @ [e]\<rparr>
      | Inr nxt \<Rightarrow>
          s\<lparr>sm_settings := Some nxt,
             sm_lang := (if sp_language toSend \<noteq> None then setLang (language nxt) (sm_lang s)
                         else sm_lang s)\<rparr>)"

definition scheduleSave :: "SettingsPatch \<Rightarrow> settings_modal \<Rightarrow> settings_modal" where
  "scheduleSave p s = s\<lparr>pendingPatch := merge_patch (pendingPatch s) p, saveTimer := True\<rparr>"

definition update :: "setting_change \<Rightarrow> settings_modal \<Rightarrow> settings_modal" where
  "update c s =
     (let p = change_patch c in
      scheduleSave p
        (s\<lparr>sm_settings := map_option (apply_settings p) (sm_settings s),
           sm_lang := (case sp_language p of Some l \<Rightarrow> setLang l (sm_lang s) | None \<Rightarrow> sm_lang s)\<rparr>))"

datatype settings_event =
    OpenSettings | CloseSettings
  | Loaded "jstr + HouseholdSettings"
  | Change setting_change
  | SaveTimer
  | PatchReply SettingsPatch "jstr + HouseholdSettings"

fun settings_step :: "settings_event \<Rightarrow> settings_modal \<Rightarrow> settings_modal" where
  "settings_step OpenSettings s = s\<lparr>sm_open := True, sm_loaded := False\<rparr>"
| "settings_step CloseSettings s =
     (let s1 = s\<lparr>sm_open := False\<rparr> in
      if pendingPatch s1 \<noteq> empty_settings_patch then flush s1 else s1)"
| "settings_step (Loaded reply) s =
     (case reply of
        Inr h \<Rightarrow> s\<lparr>sm_settings := Some h, sm_loaded := True\<rparr>
      | Inl e \<Rightarrow> s\<lparr>sm_errors := sm_errors s @ [e]\<rparr>)"
| "settings_step (Change c) s = update c s"
| "settings_step SaveTimer s = (if saveTimer s then flush s else s)"
| "settings_step (PatchReply p reply) s =
     (if p \<in> set (sm_awaited s) then flushed p reply (s\<lparr>sm_awaited := remove1 p (sm_awaited s)\<rparr>)
      else s)"

definition settings_run :: "settings_event list \<Rightarrow> settings_modal \<Rightarrow> settings_modal" where
  "settings_run es s = fold settings_step es s"

text \<open>\<open>SettingsVersion\<close>: a release \<open>d.d.d\<close> links to its page, another build shows its name.\<close>

definition is_release :: "jstr \<Rightarrow> bool" where
  "is_release v \<longleftrightarrow> length (split_on c_dot v) = 3 \<and> list_all all_digits (split_on c_dot v)"

definition version_label :: "jstr \<Rightarrow> jstr" where
  "version_label v = (if is_release v then [118] @ v else v)"

definition release_url :: "jstr \<Rightarrow> jstr" where
  "release_url v = js ''https://github.com/simonnordberg/veckomenyn/releases/tag/v'' @ v"

definition version_link :: "jstr \<Rightarrow> jstr option" where
  "version_link v = (if is_release v then Some (release_url v) else None)"

subsection \<open>Batching keeps every change\<close>

lemma opt_over_simps [simp]: "opt_over (Some x) o' = Some x" "opt_over None o' = o'"
  by (simp_all add: opt_over_def)

lemma merge_empty [simp]: "merge_patch p empty_settings_patch = p" "merge_patch empty_settings_patch p = p"
  by (simp_all add: merge_patch_def empty_settings_patch_def opt_over_def split: option.splits)

lemma nullish_over: "nullish (opt_over b a) h = nullish b (nullish a h)"
  by (cases b) simp_all

lemma apply_merge: "apply_settings (merge_patch a b) h = apply_settings b (apply_settings a h)"
  by (simp add: apply_settings_def merge_patch_def nullish_over)

lemma apply_empty [simp]: "apply_settings empty_settings_patch h = h"
  by (simp add: apply_settings_def empty_settings_patch_def)

definition changes_of :: "settings_event list \<Rightarrow> SettingsPatch list" where
  "changes_of es = concat (map (\<lambda>e. case e of Change c \<Rightarrow> [change_patch c] | _ \<Rightarrow> []) es)"

text \<open>What was sent, followed by what is pending.\<close>

definition outbox :: "settings_modal \<Rightarrow> HouseholdSettings \<Rightarrow> HouseholdSettings" where
  "outbox s h = apply_settings (pendingPatch s) (fold apply_settings (sm_sent s) h)"

lemma outbox_flush: "outbox (flush s) h = outbox s h"
  by (simp add: outbox_def flush_def Let_def)

lemma outbox_step: "outbox (settings_step e s) h = fold apply_settings (changes_of [e]) (outbox s h)"
proof (cases e)
  case CloseSettings
  then show ?thesis using outbox_flush [of "s\<lparr>sm_open := False\<rparr>"]
    by (simp add: changes_of_def Let_def) (simp add: outbox_def)
next
  case (Change c)
  then show ?thesis
    by (simp add: changes_of_def update_def scheduleSave_def outbox_def apply_merge Let_def)
next
  case SaveTimer
  then show ?thesis by (simp add: changes_of_def outbox_flush)
qed (simp_all add: changes_of_def outbox_def flushed_def split: sum.splits)

lemma outbox_run: "outbox (settings_run es s) h = fold apply_settings (changes_of es) (outbox s h)"
proof (induction es arbitrary: s)
  case (Cons e es)
  have "changes_of (e # es) = changes_of [e] @ changes_of es" by (simp add: changes_of_def)
  with Cons show ?case by (simp add: settings_run_def outbox_step)
qed (simp add: settings_run_def changes_of_def)

text \<open>Something pending always has its timer; a closed modal has nothing pending.\<close>

definition timer_inv :: "settings_modal \<Rightarrow> bool" where
  "timer_inv s \<longleftrightarrow> (pendingPatch s \<noteq> empty_settings_patch \<longrightarrow> saveTimer s)"

lemma timer_step: "timer_inv s \<Longrightarrow> timer_inv (settings_step e s)"
  by (cases e) (auto simp: timer_inv_def update_def scheduleSave_def flush_def flushed_def Let_def
      split: sum.splits)

lemma timer_run: "timer_inv s \<Longrightarrow> timer_inv (settings_run es s)"
  by (induction es arbitrary: s) (simp_all add: settings_run_def timer_step)

lemma close_flushes: "pendingPatch (settings_step CloseSettings s) = empty_settings_patch"
  by (simp add: flush_def Let_def)

subsection \<open>Properties\<close>

text \<open>
  C36: Batching loses no change and keeps their order: at any time, applying the patches sent so
  far and then the pending one gives what applying every change of the user, one by one,
  gives. A pending change always has its timer, and closing the modal leaves none pending.
\<close>

theorem settings_batching:
  "apply_settings (pendingPatch (settings_run es (settings_init l)))
     (fold apply_settings (sm_sent (settings_run es (settings_init l))) h)
     = fold apply_settings (changes_of es) h \<and>
   (saveTimer (settings_run es (settings_init l)) \<or>
    pendingPatch (settings_run es (settings_init l)) = empty_settings_patch) \<and>
   pendingPatch (settings_run (es @ [CloseSettings]) (settings_init l)) = empty_settings_patch"
proof -
  let ?s = "settings_run es (settings_init l)"
  have "outbox (settings_init l) h = h" by (simp add: outbox_def settings_init_def)
  then have "outbox ?s h = fold apply_settings (changes_of es) h" by (simp add: outbox_run)
  moreover have "timer_inv ?s"
    by (rule timer_run) (simp add: timer_inv_def settings_init_def)
  moreover have "settings_run (es @ [CloseSettings]) (settings_init l) = settings_step CloseSettings ?s"
    by (simp add: settings_run_def)
  ultimately show ?thesis
    using close_flushes [of ?s] by (auto simp: outbox_def timer_inv_def)
qed

end
