(* ===== verification/Html.thy ===== *)
theory Html
  imports I18n
begin

text \<open>
  What a component renders: a tree of elements with texts, attributes and handlers, as the JSX
  of the components builds it. A handler is the event that it hands to the component, of the
  type parameter \<open>'e\<close>. The tree keeps what a user can read and do: texts, labels, values,
  whether a control is disabled, and handlers. Icons, class names that do not depend on the
  state, and elements that only carry such class names are left out (their children stand in
  their place); of a class name that depends on the state, the part that tells the cases apart is
  kept.
\<close>

subsection \<open>Texts\<close>

text \<open>
  A text is put together from values and translations, as template literals do. \<open>Named\<close> is
  the translation of a name that the server sends: a key or, by the fallback of \<open>t\<close>, the name itself.
\<close>

datatype phrase = Lit jstr | Key jstr | KeyWith jstr "(jstr \<times> jstr) list" | Named jstr

fun say_phrase :: "Lang \<Rightarrow> phrase \<Rightarrow> jstr" where
  "say_phrase l (Lit s) = s"
| "say_phrase l (Key k) = I18n.t l k None"
| "say_phrase l (KeyWith k ps) = I18n.t l k (Some (map_of ps))"
| "say_phrase l (Named k) = I18n.t l k None"

definition say :: "Lang \<Rightarrow> phrase list \<Rightarrow> jstr" where
  "say l ps = concat (map (say_phrase l) ps)"

abbreviation tr :: "string \<Rightarrow> phrase list" where "tr k \<equiv> [Key (js k)]"

subsection \<open>Elements\<close>

record key_press =
  k_name :: jstr
  k_shift :: bool
  k_ctrl :: bool
  k_meta :: bool

text \<open>
  \<open>OnConfirm\<close> is a click whose handler asks a question first, with \<open>window.confirm\<close>: it has
  an event for yes and, where the handler still does something, one for no. \<open>OnSubmit\<close> is the
  form's handler, kept at its submit button: the browser runs it for a click on the button or Enter
  in a field, and only while the button is enabled.
\<close>

datatype 'e attr =
    Label "phrase list"          \<comment> \<open>\<open>aria-label\<close>\<close>
  | Title "phrase list" | Placeholder "phrase list" | Disabled bool | Val jstr | Checked bool
  | Role string | Type string | Href jstr | Class jstr
  | OnClick 'e | OnConfirm "phrase list" 'e "'e option" | OnChange "jstr \<Rightarrow> 'e" | OnPress "key_press \<Rightarrow> 'e list"
  | OnBlur 'e | OnSubmit 'e
  | Width rat                    \<comment> \<open>\<open>style.width\<close>, in percent\<close>

datatype 'e node = Txt "phrase list" | El string "'e attr list" "'e node list"

text \<open>What the user does to an element; a click includes the answer to its question.\<close>

datatype input = Click | Change jstr | Press key_press | Blur | Submit

fun attr_fires :: "input \<Rightarrow> 'e attr \<Rightarrow> 'e set" where
  "attr_fires Click (OnClick e) = {e}"
| "attr_fires Click (OnConfirm q yes no) = insert yes (set_option no)"
| "attr_fires (Change v) (OnChange f) = {f v}"
| "attr_fires (Press k) (OnPress f) = set (f k)"
| "attr_fires Blur (OnBlur e) = {e}"
| "attr_fires Submit (OnSubmit e) = {e}"
| "attr_fires _ _ = {}"

fun is_disabled :: "'e attr \<Rightarrow> bool" where
  "is_disabled (Disabled b) = b"
| "is_disabled _ = False"

text \<open>The events that an input can cause somewhere in a tree; a disabled control causes none.\<close>

fun fires :: "input \<Rightarrow> 'e node \<Rightarrow> 'e set" where
  "fires i (Txt ps) = {}"
| "fires i (El g as ns) =
     (if \<exists>a\<in>set as. is_disabled a then {} else \<Union> (attr_fires i ` set as)) \<union> \<Union> (fires i ` set ns)"

abbreviation fires_in :: "input \<Rightarrow> 'e node list \<Rightarrow> 'e set" where
  "fires_in i ns \<equiv> \<Union> (fires i ` set ns)"

text \<open>The texts of a tree in reading order, in a language.\<close>

fun reads :: "Lang \<Rightarrow> 'e node \<Rightarrow> jstr list" where
  "reads l (Txt ps) = [say l ps]"
| "reads l (El g as ns) = concat (map (reads l) ns)"

definition reads_all :: "Lang \<Rightarrow> 'e node list \<Rightarrow> jstr list" where
  "reads_all l ns = concat (map (reads l) ns)"

text \<open>\<open>{c && n}\<close> and \<open>{x && f x}\<close>\<close>

definition shown_if :: "bool \<Rightarrow> 'e node list \<Rightarrow> 'e node list" where
  "shown_if c ns = (if c then ns else [])"

definition shown_opt :: "'a option \<Rightarrow> ('a \<Rightarrow> 'e node list) \<Rightarrow> 'e node list" where
  "shown_opt x f = (case x of Some y \<Rightarrow> f y | None \<Rightarrow> [])"

lemma shown_sets [simp]:
  "set (shown_if c ns) = (if c then set ns else {})"
  "set (shown_opt x f) = (case x of Some y \<Rightarrow> set (f y) | None \<Rightarrow> {})"
  by (simp_all add: shown_if_def shown_opt_def split: option.split)

lemma shown_list_all [simp]:
  "list_all P (shown_if c ns) \<longleftrightarrow> (c \<longrightarrow> list_all P ns)"
  "list_all P (shown_opt x f) \<longleftrightarrow> (case x of Some y \<Rightarrow> list_all P (f y) | None \<Rightarrow> True)"
  by (simp_all add: shown_if_def shown_opt_def split: option.split)

lemma list_all_flat [simp]:
  "list_all P (concat xss) \<longleftrightarrow> list_all (list_all P) xss"
  "list_all P (map f xs) \<longleftrightarrow> list_all (\<lambda>x. P (f x)) xs"
  "list_all (\<lambda>x. True) xs"
  by (auto simp: list_all_iff)

text \<open>A child's tree inside of its parent's: its events are wrapped.\<close>

lemma attr_fires_map: "attr_fires i (map_attr f a) = f ` attr_fires i a"
  by (cases i; cases a) auto

lemma disabled_map [simp]: "is_disabled (map_attr f a) = is_disabled a"
  by (cases a) simp_all

lemma fires_map [simp]: "fires i (map_node f n) = f ` fires i n"
  by (induction i n rule: fires.induct) (simp_all add: attr_fires_map image_UN image_Un)

subsection \<open>Complete texts\<close>

text \<open>
  A phrase is complete when its key has a text of its own in every language, so that neither
  English nor the key is shown instead, and every token of that text has a value. A name from the
  server need not be a key, but if it is one, its text has no tokens.
\<close>

fun complete :: "phrase \<Rightarrow> bool" where
  "complete (Lit s) = True"
| "complete (Key k) = (\<forall>l. \<exists>raw. dictionaries l k = Some raw \<and> placeholders raw = [])"
| "complete (KeyWith k ps) =
     (\<forall>l. \<exists>raw. dictionaries l k = Some raw \<and> set (placeholders raw) \<subseteq> fst ` set ps)"
| "complete (Named k) = (\<forall>l raw. dictionaries l k = Some raw \<longrightarrow> placeholders raw = [])"

text \<open>A tree whose texts, labels and questions are all complete.\<close>

fun attr_complete :: "'e attr \<Rightarrow> bool" where
  "attr_complete (Label ps) = list_all complete ps"
| "attr_complete (Title ps) = list_all complete ps"
| "attr_complete (Placeholder ps) = list_all complete ps"
| "attr_complete (OnConfirm ps yes no) = list_all complete ps"
| "attr_complete _ = True"

fun texts_complete :: "'e node \<Rightarrow> bool" where
  "texts_complete (Txt ps) = list_all complete ps"
| "texts_complete (El g as ns) = (list_all attr_complete as \<and> list_all texts_complete ns)"

text \<open>The keys whose texts have tokens, with the tokens in the order of the English text.\<close>

definition token_table :: "(string \<times> string list) list" where
  "token_table =
     [(''plan.menu_runs_through'', [''end'']),
      (''week.set_label'', [''label'']),
      (''week.edit_label'', [''label'']),
      (''week.truncate_confirm'', [''count'']),
      (''week.unlock_confirm'', [''target'']),
      (''week.locked_hint'', [''status'']),
      (''week.add_dinner_prompt'', [''start'', ''end'']),
      (''week.regenerate_prompt'', [''start'', ''end'']),
      (''week.plan_dinners_prompt'', [''start'', ''end'']),
      (''dinner.adjust_prompt'', [''date'', ''id'', ''name'', ''request'']),
      (''editable.add_label'', [''label'']),
      (''lifecycle.build_cart_prompt'', [''start'', ''end'']),
      (''lifecycle.retrospective_prompt'', [''start'', ''end'']),
      (''prefs.confirm_delete'', [''category'']),
      (''update.available'', [''version'']),
      (''update.success'', [''from'', ''to'']),
      (''update.up_to_date'', [''version'']),
      (''update.found'', [''version'']),
      (''setup.step'', [''n'', ''total'']),
      (''setup.seed_done'', [''n''])]"

definition tokens_listed :: "(jstr \<times> jstr) list \<Rightarrow> bool" where
  "tokens_listed d \<longleftrightarrow>
     list_all (\<lambda>(k, v). placeholders v = [] \<or> (k, placeholders v) \<in> set (map (\<lambda>(n, ts). (js n, map js ts)) token_table)) d"

lemma tokens_listed_simps:
  "tokens_listed []"
  "tokens_listed ((k, v) # d) \<longleftrightarrow>
     (placeholders v = [] \<or> (k, placeholders v) \<in> set (map (\<lambda>(n, ts). (js n, map js ts)) token_table)) \<and> tokens_listed d"
  "tokens_listed (d @ d') \<longleftrightarrow> tokens_listed d \<and> tokens_listed d'"
  by (simp_all add: tokens_listed_def)

lemma listed_home: "tokens_listed en_home"
  by (simp add: en_home_def tokens_listed_simps token_simps is_word_def token_table_def del: placeholders.simps(2))

lemma listed_top_bar: "tokens_listed en_top_bar"
  by (simp add: en_top_bar_def tokens_listed_simps token_simps is_word_def token_table_def del: placeholders.simps(2))

lemma listed_plan_new_form: "tokens_listed en_plan_new_form"
  by (simp add: en_plan_new_form_def tokens_listed_simps token_simps is_word_def token_table_def del: placeholders.simps(2))

lemma listed_week_view: "tokens_listed en_week_view"
  by (simp add: en_week_view_def tokens_listed_simps token_simps is_word_def token_table_def del: placeholders.simps(2))

lemma listed_dinner_card: "tokens_listed en_dinner_card"
  by (simp add: en_dinner_card_def tokens_listed_simps token_simps is_word_def token_table_def del: placeholders.simps(2))

lemma listed_editable_placeholders: "tokens_listed en_editable_placeholders"
  by (simp add: en_editable_placeholders_def tokens_listed_simps token_simps is_word_def token_table_def del: placeholders.simps(2))

lemma listed_status_labels: "tokens_listed en_status_labels"
  by (simp add: en_status_labels_def tokens_listed_simps token_simps is_word_def token_table_def del: placeholders.simps(2))

lemma listed_settings_modal: "tokens_listed en_settings_modal"
  by (simp add: en_settings_modal_def tokens_listed_simps token_simps is_word_def token_table_def del: placeholders.simps(2))

lemma listed_weekdays: "tokens_listed en_weekdays"
  by (simp add: en_weekdays_def tokens_listed_simps token_simps is_word_def token_table_def del: placeholders.simps(2))

lemma listed_chat: "tokens_listed en_chat"
  by (simp add: en_chat_def tokens_listed_simps token_simps is_word_def token_table_def del: placeholders.simps(2))

lemma listed_calendar_popup: "tokens_listed en_calendar_popup"
  by (simp add: en_calendar_popup_def tokens_listed_simps token_simps is_word_def token_table_def del: placeholders.simps(2))

lemma listed_sidebar: "tokens_listed en_sidebar"
  by (simp add: en_sidebar_def tokens_listed_simps token_simps is_word_def token_table_def del: placeholders.simps(2))

lemma listed_duplicate_plan_dialog: "tokens_listed en_duplicate_plan_dialog"
  by (simp add: en_duplicate_plan_dialog_def tokens_listed_simps token_simps is_word_def token_table_def del: placeholders.simps(2))

lemma listed_lifecycle: "tokens_listed en_lifecycle"
  by (simp add: en_lifecycle_def tokens_listed_simps token_simps is_word_def token_table_def del: placeholders.simps(2))

lemma listed_cart_section: "tokens_listed en_cart_section"
  by (simp add: en_cart_section_def tokens_listed_simps token_simps is_word_def token_table_def del: placeholders.simps(2))

lemma listed_preferences_modal: "tokens_listed en_preferences_modal"
  by (simp add: en_preferences_modal_def tokens_listed_simps token_simps is_word_def token_table_def del: placeholders.simps(2))

lemma listed_integrations: "tokens_listed en_integrations"
  by (simp add: en_integrations_def tokens_listed_simps token_simps is_word_def token_table_def del: placeholders.simps(2))

lemma listed_provider_fields: "tokens_listed en_provider_fields"
  by (simp add: en_provider_fields_def tokens_listed_simps token_simps is_word_def token_table_def del: placeholders.simps(2))

lemma listed_preferences_modal_new_body_placeholder: "tokens_listed en_preferences_modal_new_body_placeholder"
  by (simp add: en_preferences_modal_new_body_placeholder_def tokens_listed_simps token_simps is_word_def token_table_def del: placeholders.simps(2))

lemma listed_print_preview: "tokens_listed en_print_preview"
  by (simp add: en_print_preview_def tokens_listed_simps token_simps is_word_def token_table_def del: placeholders.simps(2))

lemma listed_chat_drawer_aria_label: "tokens_listed en_chat_drawer_aria_label"
  by (simp add: en_chat_drawer_aria_label_def tokens_listed_simps token_simps is_word_def token_table_def del: placeholders.simps(2))

lemma listed_toast_notifications: "tokens_listed en_toast_notifications"
  by (simp add: en_toast_notifications_def tokens_listed_simps token_simps is_word_def token_table_def del: placeholders.simps(2))

lemma listed_per_dinner_rating: "tokens_listed en_per_dinner_rating"
  by (simp add: en_per_dinner_rating_def tokens_listed_simps token_simps is_word_def token_table_def del: placeholders.simps(2))

lemma listed_week_level_retrospective: "tokens_listed en_week_level_retrospective"
  by (simp add: en_week_level_retrospective_def tokens_listed_simps token_simps is_word_def token_table_def del: placeholders.simps(2))

lemma listed_usage: "tokens_listed en_usage"
  by (simp add: en_usage_def tokens_listed_simps token_simps is_word_def token_table_def del: placeholders.simps(2))

lemma listed_backups: "tokens_listed en_backups"
  by (simp add: en_backups_def tokens_listed_simps token_simps is_word_def token_table_def del: placeholders.simps(2))

lemma listed_update: "tokens_listed en_update"
  by (simp add: en_update_def tokens_listed_simps token_simps is_word_def token_table_def del: placeholders.simps(2))

lemma listed_setup: "tokens_listed en_setup"
  by (simp add: en_setup_def tokens_listed_simps token_simps is_word_def token_table_def del: placeholders.simps(2))

lemma all_listed: "tokens_listed en_dict"
  unfolding en_dict_def tokens_listed_simps
  by (intro conjI listed_home listed_top_bar listed_plan_new_form listed_week_view listed_dinner_card
    listed_editable_placeholders listed_status_labels listed_settings_modal listed_weekdays
    listed_chat listed_calendar_popup listed_sidebar listed_duplicate_plan_dialog
    listed_lifecycle listed_cart_section listed_preferences_modal listed_integrations
    listed_provider_fields listed_preferences_modal_new_body_placeholder listed_print_preview
    listed_chat_drawer_aria_label listed_toast_notifications listed_per_dinner_rating
    listed_week_level_retrospective listed_usage listed_backups listed_update listed_setup)

lemma group_keys:
  "fst ` set en_home \<subseteq> fst ` set en_dict"
  "fst ` set en_top_bar \<subseteq> fst ` set en_dict"
  "fst ` set en_plan_new_form \<subseteq> fst ` set en_dict"
  "fst ` set en_week_view \<subseteq> fst ` set en_dict"
  "fst ` set en_dinner_card \<subseteq> fst ` set en_dict"
  "fst ` set en_editable_placeholders \<subseteq> fst ` set en_dict"
  "fst ` set en_status_labels \<subseteq> fst ` set en_dict"
  "fst ` set en_settings_modal \<subseteq> fst ` set en_dict"
  "fst ` set en_weekdays \<subseteq> fst ` set en_dict"
  "fst ` set en_chat \<subseteq> fst ` set en_dict"
  "fst ` set en_calendar_popup \<subseteq> fst ` set en_dict"
  "fst ` set en_sidebar \<subseteq> fst ` set en_dict"
  "fst ` set en_duplicate_plan_dialog \<subseteq> fst ` set en_dict"
  "fst ` set en_lifecycle \<subseteq> fst ` set en_dict"
  "fst ` set en_cart_section \<subseteq> fst ` set en_dict"
  "fst ` set en_preferences_modal \<subseteq> fst ` set en_dict"
  "fst ` set en_integrations \<subseteq> fst ` set en_dict"
  "fst ` set en_provider_fields \<subseteq> fst ` set en_dict"
  "fst ` set en_preferences_modal_new_body_placeholder \<subseteq> fst ` set en_dict"
  "fst ` set en_print_preview \<subseteq> fst ` set en_dict"
  "fst ` set en_chat_drawer_aria_label \<subseteq> fst ` set en_dict"
  "fst ` set en_toast_notifications \<subseteq> fst ` set en_dict"
  "fst ` set en_per_dinner_rating \<subseteq> fst ` set en_dict"
  "fst ` set en_week_level_retrospective \<subseteq> fst ` set en_dict"
  "fst ` set en_usage \<subseteq> fst ` set en_dict"
  "fst ` set en_backups \<subseteq> fst ` set en_dict"
  "fst ` set en_update \<subseteq> fst ` set en_dict"
  "fst ` set en_setup \<subseteq> fst ` set en_dict"
  by (auto simp: en_dict_def)

text \<open>The tokens of a key, which are the same in both languages.\<close>

lemma key_tokens:
  "map_option placeholders (dictionaries l k) = map_option placeholders (map_of en_dict k)"
  using same_placeholders [of k] by (cases l) (simp_all add: dictionaries_def)

lemma listed_tokens:
  assumes "k \<in> fst ` set en_dict"
  obtains raw where "dictionaries l k = Some raw"
    "placeholders raw = [] \<or> (\<exists>n ts. (n, ts) \<in> set token_table \<and> k = js n \<and> placeholders raw = map js ts)"
proof -
  obtain v where v: "map_of en_dict k = Some v" "(k, v) \<in> set en_dict"
    using assms by (metis map_of_SomeD map_of_eq_None_iff not_None_eq)
  then have "placeholders v = [] \<or> (\<exists>n ts. (n, ts) \<in> set token_table \<and> k = js n \<and> placeholders v = map js ts)"
    using all_listed by (fastforce simp: tokens_listed_def list_all_iff)
  moreover obtain raw where "dictionaries l k = Some raw" "placeholders raw = placeholders v"
    using key_tokens [of l k] v(1) by auto
  ultimately show ?thesis using that by simp
qed

lemma complete_KeyI:
  assumes "js k \<in> fst ` set en_dict" and "k \<notin> fst ` set token_table"
  shows "complete (Key (js k))"
proof -
  have "\<exists>raw. dictionaries l (js k) = Some raw \<and> placeholders raw = []" for l
    using assms by (elim listed_tokens [of _ l]) (auto simp: image_iff)
  then show ?thesis by simp
qed

lemma complete_KeyWithI:
  assumes "js k \<in> fst ` set en_dict"
    and "list_all (\<lambda>(n, ts). n = k \<longrightarrow> js ` set ts \<subseteq> fst ` set ps) token_table"
  shows "complete (KeyWith (js k) ps)"
proof -
  have "\<exists>raw. dictionaries l (js k) = Some raw \<and> set (placeholders raw) \<subseteq> fst ` set ps" for l
    using assms(1)
    by (rule listed_tokens [of _ l]) (use assms(2) in \<open>fastforce simp: list_all_iff\<close>)
  then show ?thesis by simp
qed

lemma attr_complete_map [simp]: "attr_complete (map_attr f a) = attr_complete a"
  by (cases a) simp_all

lemma texts_complete_map [simp]: "texts_complete (map_node f n) = texts_complete n"
  by (induction n rule: texts_complete.induct) (auto simp: list_all_iff)

declare complete.simps(2-4) [simp del]

end
