(* ===== verification/MarkdownText.thy ===== *)
theory MarkdownText
  imports Html
begin

text \<open>
  web/src/components/Markdown.tsx: dropping the heading of a recipe that repeats the
  dish's name, and demoting headings. \<open>lower\<close> is \<open>toLowerCase\<close>, a Unicode case mapping.
  Rendering itself is the package react-markdown.
\<close>

subsection \<open>The leading heading\<close>

text \<open>
  The regular expression \<open>/^\s*#\s+([^\n]+)\n+/\<close>: \<open>after_hash\<close> gives the group and the
  length of the match behind the hash. The white space is taken greedily and given back
  one by one; giving back characters of the line never helps, as no newline is in it.
\<close>

definition heading_at :: "jstr \<Rightarrow> nat \<Rightarrow> (jstr \<times> nat) option" where
  "heading_at s k =
     (let rest = drop k s; line = takeWhile (\<lambda>c. c \<noteq> c_nl) rest;
          nls = takeWhile (\<lambda>c. c = c_nl) (drop (length line) rest) in
      if line \<noteq> [] \<and> nls \<noteq> [] then Some (line, k + length line + length nls) else None)"

fun first_match :: "('a \<Rightarrow> 'b option) \<Rightarrow> 'a list \<Rightarrow> 'b option" where
  "first_match f [] = None"
| "first_match f (x # xs) = (case f x of Some y \<Rightarrow> Some y | None \<Rightarrow> first_match f xs)"

definition after_hash :: "jstr \<Rightarrow> (jstr \<times> nat) option" where
  "after_hash s = first_match (heading_at s) (rev [1..<Suc (length (takeWhile is_ws s))])"

definition match_heading :: "jstr \<Rightarrow> (jstr \<times> nat) option" where
  "match_heading source =
     (let w = length (takeWhile is_ws source) in
      case drop w source of
        c # s \<Rightarrow>
          (if c = c_hash then
             (case after_hash s of Some (g, n) \<Rightarrow> Some (g, w + 1 + n) | None \<Rightarrow> None)
           else None)
      | [] \<Rightarrow> None)"

text \<open>\<open>replace(/\s+/g, r)\<close>.\<close>

function collapse_ws :: "jstr \<Rightarrow> jstr \<Rightarrow> jstr" where
  "collapse_ws r [] = []"
| "collapse_ws r (c # s) =
     (if is_ws c then r @ collapse_ws r (dropWhile is_ws s) else c # collapse_ws r s)"
  by pat_completeness auto
termination
  by (relation "measure (\<lambda>(r, s). length s)") (auto simp: le_imp_less_Suc length_dropWhile_le)

definition normalize :: "(jstr \<Rightarrow> jstr) \<Rightarrow> jstr \<Rightarrow> jstr" where
  "normalize lower s = collapse_ws [c_space] (lower (trim s))"

definition stripMatchingLeadingH1 :: "(jstr \<Rightarrow> jstr) \<Rightarrow> jstr \<Rightarrow> jstr \<Rightarrow> jstr" where
  "stripMatchingLeadingH1 lower source expected =
     (case match_heading source of
        None \<Rightarrow> source
      | Some (g, n) \<Rightarrow> if normalize lower g \<noteq> normalize lower expected then source else drop n source)"

text \<open>The text that is rendered, if any, and the level of a heading.\<close>

definition markdown_text :: "(jstr \<Rightarrow> jstr) \<Rightarrow> jstr \<Rightarrow> jstr option \<Rightarrow> jstr option" where
  "markdown_text lower source stripLeadingHeading =
     (if \<not> truthy source then None
      else case stripLeadingHeading of
          Some h \<Rightarrow> Some (if truthy h then stripMatchingLeadingH1 lower source h else source)
        | None \<Rightarrow> Some source)"

text \<open>\<open>shiftedHeadingComponents\<close> overrides the levels one to five; level six stays.\<close>

definition heading_level :: "nat \<Rightarrow> nat \<Rightarrow> nat" where
  "heading_level shift lvl =
     (if shift > 0 \<and> 1 \<le> lvl \<and> lvl \<le> 5 then min 6 (lvl + shift) else lvl)"

text \<open>The component; what the package makes of the text is one node with the text in it.\<close>

datatype MarkdownSize = DefaultSize | Compact

fun size_class :: "MarkdownSize \<Rightarrow> jstr" where
  "size_class DefaultSize = js ''prose-base''"
| "size_class Compact = js ''prose-sm''"

definition Markdown :: "(jstr \<Rightarrow> jstr) \<Rightarrow> MarkdownSize \<Rightarrow> jstr option \<Rightarrow> jstr \<Rightarrow> 'e node list" where
  "Markdown lower variant stripLeadingHeading source =
     (case markdown_text lower source stripLeadingHeading of
        None \<Rightarrow> []
      | Some txt \<Rightarrow> [El ''div'' [Class (size_class variant)] [El ''ReactMarkdown'' [] [Txt [Lit txt]]]])"

lemma markdown_inert [simp]: "fires_in i (Markdown lower v h s) = {}"
  by (cases "markdown_text lower s h") (simp_all add: Markdown_def)

lemma markdown_complete [simp]: "list_all texts_complete (Markdown lower v h s)"
  by (simp add: Markdown_def split: option.split)

subsection \<open>What stripping removes\<close>

lemma first_match_SomeD: "first_match f xs = Some y \<Longrightarrow> \<exists>x \<in> set xs. f x = Some y"
  by (induction xs) (auto split: option.splits)

lemma take_takeWhile: "k \<le> length (takeWhile P s) \<Longrightarrow> list_all P (take k s)"
proof -
  assume "k \<le> length (takeWhile P s)"
  then have "take k s = take k (takeWhile P s)"
    by (subst takeWhile_eq_take) (simp add: min_absorb1)
  moreover have "set (take k (takeWhile P s)) \<subseteq> set (takeWhile P s)" by (rule set_take_subset)
  ultimately show ?thesis by (auto simp: list_all_iff dest: set_takeWhileD)
qed

lemma takeWhile_drop: "takeWhile P s @ drop (length (takeWhile P s)) s = s"
  using takeWhile_dropWhile_id [of P s] by (simp add: dropWhile_eq_drop)

lemma after_hash_split:
  assumes "after_hash s = Some (g, n)"
  shows "\<exists>ws nls. s = ws @ g @ nls @ drop n s \<and> ws \<noteq> [] \<and> list_all is_ws ws
    \<and> g \<noteq> [] \<and> c_nl \<notin> set g \<and> nls \<noteq> [] \<and> list_all (\<lambda>c. c = c_nl) nls"
proof -
  from first_match_SomeD [OF assms [unfolded after_hash_def]]
  obtain k where k: "1 \<le> k" "k \<le> length (takeWhile is_ws s)" and h: "heading_at s k = Some (g, n)"
    by auto
  let ?rest = "drop k s"
  let ?nls = "takeWhile (\<lambda>c. c = c_nl) (drop (length g) ?rest)"
  from h have g: "g = takeWhile (\<lambda>c. c \<noteq> c_nl) ?rest" "g \<noteq> []" "?nls \<noteq> []"
      and n: "n = k + length g + length ?nls"
    by (auto simp: heading_at_def Let_def split: if_splits)
  let ?tail = "drop (length g) ?rest"
  have r1: "g @ ?tail = ?rest" unfolding g(1) by (rule takeWhile_drop)
  have r2: "?nls @ drop (length ?nls) ?tail = ?tail" by (rule takeWhile_drop)
  have r3: "drop (length ?nls) ?tail = drop n s" by (simp add: n add_ac)
  have "s = take k s @ g @ ?nls @ drop n s"
    unfolding r3 [symmetric] r2 r1 by simp
  moreover have "list_all is_ws (take k s)" "take k s \<noteq> []"
    using k take_takeWhile [OF k(2)] by (auto simp: Suc_le_eq)
  moreover have "c_nl \<notin> set g" using g(1) set_takeWhileD by fastforce
  moreover have "list_all (\<lambda>c. c = c_nl) ?nls" by (auto simp: list_all_iff dest: set_takeWhileD)
  ultimately show ?thesis using g by blast
qed

lemma match_heading_split:
  assumes "match_heading source = Some (g, n)"
  shows "\<exists>pre ws nls. source = pre @ [c_hash] @ ws @ g @ nls @ drop n source
    \<and> list_all is_ws pre \<and> list_all is_ws ws \<and> c_nl \<notin> set g \<and> list_all (\<lambda>c. c = c_nl) nls"
proof -
  let ?w = "takeWhile is_ws source"
  from assms obtain s m where s: "drop (length ?w) source = c_hash # s" and a: "after_hash s = Some (g, m)"
      and n: "n = length ?w + 1 + m"
    by (auto simp: match_heading_def Let_def split: list.splits if_splits option.splits)
  obtain ws nls where sp: "s = ws @ g @ nls @ drop m s" "list_all is_ws ws" "c_nl \<notin> set g"
      "list_all (\<lambda>c. c = c_nl) nls"
    using after_hash_split [OF a] by blast
  have src: "source = ?w @ c_hash # s"
    using takeWhile_drop [of is_ws source] unfolding s by simp
  have "drop n source = drop m s"
    by (subst src) (simp add: n)
  then have "source = ?w @ [c_hash] @ ws @ g @ nls @ drop n source"
    using src sp(1) by simp
  moreover have "list_all is_ws ?w" by (auto simp: list_all_iff dest: set_takeWhileD)
  ultimately show ?thesis using sp(2-4) by blast
qed

lemma strip_cases:
  "stripMatchingLeadingH1 lower source expected = source \<or>
   (\<exists>pre ws g nls. source = pre @ [c_hash] @ ws @ g @ nls @ stripMatchingLeadingH1 lower source expected
      \<and> list_all is_ws (pre @ ws) \<and> list_all (\<lambda>c. c = c_nl) nls
      \<and> normalize lower g = normalize lower expected)"
proof (cases "match_heading source")
  case (Some a)
  obtain g n where a: "a = (g, n)" by (cases a)
  show ?thesis
  proof (cases "normalize lower g = normalize lower expected")
    case True
    then have r: "stripMatchingLeadingH1 lower source expected = drop n source"
      using Some by (simp add: stripMatchingLeadingH1_def a)
    obtain pre ws nls where "source = pre @ [c_hash] @ ws @ g @ nls @ drop n source"
        "list_all is_ws pre" "list_all is_ws ws" "list_all (\<lambda>c. c = c_nl) nls"
      using match_heading_split [OF Some [unfolded a]] by blast
    with True have "source = pre @ [c_hash] @ ws @ g @ nls @ drop n source
        \<and> list_all is_ws (pre @ ws) \<and> list_all (\<lambda>c. c = c_nl) nls
        \<and> normalize lower g = normalize lower expected"
      by (simp only: list_all_append)
    then show ?thesis unfolding r by blast
  qed (use Some in \<open>simp add: stripMatchingLeadingH1_def a\<close>)
qed (simp add: stripMatchingLeadingH1_def)

lemma heading_level_mono: "a \<le> b \<Longrightarrow> heading_level shift a \<le> heading_level shift b \<or> a = 0 \<or> 6 < b"
  by (auto simp: heading_level_def)

lemma heading_level_bound: "lvl \<le> 6 \<Longrightarrow> heading_level shift lvl \<le> 6"
  by (simp add: heading_level_def)

subsection \<open>Properties\<close>

text \<open>
  Dropping a repeated heading loses no other text: the source is unchanged, or what was
  cut off its front is one first-level heading with the white space around it, and its text
  is the dish's name up to case and white space.
\<close>

theorem strip_only_heading:
  "stripMatchingLeadingH1 lower source expected = source \<or>
   (\<exists>pre ws g nls. source = pre @ [c_hash] @ ws @ g @ nls @ stripMatchingLeadingH1 lower source expected
      \<and> list_all is_ws (pre @ ws) \<and> list_all (\<lambda>c. c = c_nl) nls
      \<and> normalize lower g = normalize lower expected)"
  by (rule strip_cases)

end
