(* ===== verification/Preferences.thy ===== *)
theory Preferences
  imports Api MarkdownText I18n
begin

text \<open>
  web/src/components/PreferencesModal.tsx: the list of preference categories with an editor.
  Each handler that awaits the server takes the replies as arguments, in the order of its
  requests; its buttons are disabled (\<open>pending\<close>) meanwhile. The effect on
  \<open>[selected, prefs]\<close> that fills the draft is \<open>draft_effect\<close>.
\<close>

record prefs_modal =
  pm_prefs :: "Preference list option"
  pm_selected :: "jstr option"
  pm_draft :: jstr
  pm_pending :: bool
  pm_newCategory :: jstr
  pm_errors :: "jstr list"
  pm_notices :: nat

definition prefs_init :: prefs_modal where
  "prefs_init = \<lparr>pm_prefs = None, pm_selected = None, pm_draft = [], pm_pending = False,
     pm_newCategory = [], pm_errors = [], pm_notices = 0\<rparr>"

definition sel_truthy :: "jstr option \<Rightarrow> bool" where
  "sel_truthy s \<longleftrightarrow> (case s of Some c \<Rightarrow> truthy c | None \<Rightarrow> False)"

definition draft_effect :: "prefs_modal \<Rightarrow> prefs_modal" where
  "draft_effect s =
     (case (pm_selected s, pm_prefs s) of
        (Some c, Some ps) \<Rightarrow>
          (if truthy c then
             s\<lparr>pm_draft := (case find (\<lambda>x. category x = c) ps of Some p \<Rightarrow> body_md p | None \<Rightarrow> [])\<rparr>
           else s)
      | _ \<Rightarrow> s)"

definition prefs_error :: "jstr \<Rightarrow> prefs_modal \<Rightarrow> prefs_modal" where
  "prefs_error e s = s\<lparr>pm_errors := pm_errors s @ [e]\<rparr>"

text \<open>\<open>refresh\<close>; \<open>sel\<close> is the selection that its closure captured. It never rejects.\<close>

definition prefs_refresh :: "jstr option \<Rightarrow> jstr + Preference list \<Rightarrow> prefs_modal \<Rightarrow> prefs_modal" where
  "prefs_refresh sel reply s =
     (case reply of
        Inl e \<Rightarrow> prefs_error e s
      | Inr rows \<Rightarrow>
          (let s1 = s\<lparr>pm_prefs := Some rows\<rparr> in
           draft_effect
             (if \<not> sel_truthy sel \<and> rows \<noteq> []
              then s1\<lparr>pm_selected := Some (category (hd rows)), pm_draft := body_md (hd rows)\<rparr>
              else s1)))"

definition prefs_select :: "jstr \<Rightarrow> prefs_modal \<Rightarrow> prefs_modal" where
  "prefs_select c s = (if pm_selected s = Some c then s else draft_effect (s\<lparr>pm_selected := Some c\<rparr>))"

text \<open>The request of \<open>save\<close>, and the state after its reply.\<close>

definition prefs_save :: "prefs_modal \<Rightarrow> (jstr \<times> jstr) option \<times> prefs_modal" where
  "prefs_save s =
     (case pm_selected s of
        None \<Rightarrow> (None, s)
      | Some c \<Rightarrow> if truthy c then (Some (c, pm_draft s), s\<lparr>pm_pending := True\<rparr>) else (None, s))"

definition prefs_saved :: "jstr + Preference \<Rightarrow> prefs_modal \<Rightarrow> prefs_modal" where
  "prefs_saved reply s =
     (case reply of
        Inl e \<Rightarrow> (prefs_error e s)\<lparr>pm_pending := False\<rparr>
      | Inr nxt \<Rightarrow>
          draft_effect
            (s\<lparr>pm_prefs := map_option (map (\<lambda>p. if category p = category nxt then nxt else p)) (pm_prefs s),
               pm_notices := pm_notices s + 1, pm_pending := False\<rparr>))"

text \<open>The category that \<open>createNew\<close> makes of the input; \<open>lower\<close> is \<open>toLowerCase\<close>.\<close>

definition new_category :: "(jstr \<Rightarrow> jstr) \<Rightarrow> jstr \<Rightarrow> jstr" where
  "new_category lower s = collapse_ws (js ''_'') (lower (trim s))"

definition create_pref :: "(jstr \<Rightarrow> jstr) \<Rightarrow> prefs_modal \<Rightarrow> (jstr \<times> jstr) option \<times> prefs_modal" where
  "create_pref lower s =
     (let cat = new_category lower (pm_newCategory s) in
      if \<not> truthy cat then (None, s) else (Some (cat, []), s\<lparr>pm_pending := True\<rparr>))"

definition created_pref ::
    "jstr \<Rightarrow> jstr option \<Rightarrow> jstr + Preference \<Rightarrow> jstr + Preference list \<Rightarrow> prefs_modal \<Rightarrow> prefs_modal" where
  "created_pref cat sel saveReply listReply s =
     (case saveReply of
        Inl e \<Rightarrow> (prefs_error e s)\<lparr>pm_pending := False\<rparr>
      | Inr _ \<Rightarrow>
          (let s1 = prefs_refresh sel listReply (s\<lparr>pm_newCategory := []\<rparr>)
           in draft_effect (s1\<lparr>pm_selected := Some cat, pm_draft := [], pm_pending := False\<rparr>)))"

definition remove_pref :: "bool \<Rightarrow> prefs_modal \<Rightarrow> jstr option \<times> prefs_modal" where
  "remove_pref confirmed s =
     (case pm_selected s of
        None \<Rightarrow> (None, s)
      | Some c \<Rightarrow>
          if truthy c \<and> confirmed then (Some c, s\<lparr>pm_pending := True\<rparr>) else (None, s))"

definition removed_pref ::
    "jstr option \<Rightarrow> jstr + unit \<Rightarrow> jstr + Preference list \<Rightarrow> prefs_modal \<Rightarrow> prefs_modal" where
  "removed_pref sel deleteReply listReply s =
     (case deleteReply of
        Inl e \<Rightarrow> (prefs_error e s)\<lparr>pm_pending := False\<rparr>
      | Inr _ \<Rightarrow> (prefs_refresh sel listReply (s\<lparr>pm_selected := None\<rparr>))\<lparr>pm_pending := False\<rparr>)"

definition create_disabled :: "prefs_modal \<Rightarrow> bool" where
  "create_disabled s \<longleftrightarrow> pm_pending s \<or> \<not> truthy (trim (pm_newCategory s))"

text \<open>The stored preferences, as \<open>PUT\<close> and \<open>DELETE\<close> change them.\<close>

definition put_pref :: "jstr \<times> jstr \<Rightarrow> (jstr \<rightharpoonup> jstr) \<Rightarrow> jstr \<rightharpoonup> jstr" where
  "put_pref kv st = st(fst kv \<mapsto> snd kv)"

subsection \<open>Category names\<close>

lemma collapse_ws_chars: "c \<in> set (collapse_ws r s) \<Longrightarrow> c \<in> set r \<or> (c \<in> set s \<and> \<not> is_ws c)"
proof (induction r s rule: collapse_ws.induct)
  case (2 r c' s)
  then show ?case by (auto split: if_splits dest: set_dropWhileD)
qed simp

lemma new_category_no_ws: "c \<in> set (new_category lower s) \<Longrightarrow> \<not> is_ws c"
  unfolding new_category_def by (drule collapse_ws_chars) (auto simp: js_def is_ws_def)

lemma new_category_nonempty:
  assumes "\<And>x. lower x = [] \<longleftrightarrow> x = []"
  shows "new_category lower s = [] \<longleftrightarrow> trim s = []"
proof -
  have "collapse_ws (js ''_'') x = [] \<longleftrightarrow> x = []" for x
    by (cases x) (simp_all add: js_def)
  then show ?thesis using assms by (simp add: new_category_def)
qed

text \<open>After a save the list shows the saved text, and so does the editor.\<close>

lemma saved_shows:
  assumes "pm_selected s = Some (category p)" "truthy (category p)"
    and "pm_prefs s = Some ps" "category p \<in> category ` set ps"
  shows "pm_draft (prefs_saved (Inr p) s) = body_md p"
proof -
  let ?f = "\<lambda>q. if category q = category p then p else q"
  have "find (\<lambda>x. category x = category p) (map ?f ps) = Some p"
    using assms(4) by (induction ps) auto
  then show ?thesis using assms(1-3) by (simp add: prefs_saved_def draft_effect_def)
qed

lemma removed_unselects:
  assumes "pm_selected s = Some c" "truthy c" "rows \<noteq> []"
  shows "pm_selected (removed_pref (Some c) (Inr ()) (Inr rows) s) = None"
  using assms by (simp add: removed_pref_def prefs_refresh_def sel_truthy_def draft_effect_def Let_def)

subsection \<open>Properties\<close>

text \<open>
  A new category's name is never empty and has no white space in it, whatever was typed
  and whatever the case mapping does, and nothing is sent for a blank input.
\<close>

theorem category_names:
  assumes "create_pref lower s = (Some (cat, body), s')"
  shows "cat \<noteq> [] \<and> (\<forall>c \<in> set cat. \<not> is_ws c) \<and> body = [] \<and> pm_pending s'"
  using assms new_category_no_ws [of _ lower "pm_newCategory s"]
  by (auto simp: create_pref_def Let_def split: if_splits)

theorem category_names_witness:
  "fst (create_pref (\<lambda>s. s) (prefs_init\<lparr>pm_newCategory := [97, 32, 98]\<rparr>)) = Some ([97, 95, 98], []) \<and>
   (\<forall>c \<in> set [97, 95, 98]. \<not> is_ws c)"
proof -
  have eq: "create_pref (\<lambda>s. s) (prefs_init\<lparr>pm_newCategory := [97, 32, 98]\<rparr>) =
      (Some ([97, 95, 98], []), prefs_init\<lparr>pm_newCategory := [97, 32, 98], pm_pending := True\<rparr>)"
    by (simp add: create_pref_def new_category_def trim_def is_ws_def js_def prefs_init_def)
  from category_names [OF this] eq show ?thesis by simp
qed

text \<open>Creating a category that exists stores an empty text over the one it has.\<close>

lemma creating_existing_wipes:
  assumes "create_pref lower s = (Some req, s')" and "st (new_category lower (pm_newCategory s)) = Some text"
  shows "put_pref req st (new_category lower (pm_newCategory s)) = Some []"
  using assms by (auto simp: create_pref_def put_pref_def Let_def split: if_splits)

end
