(* ===== verification/Updates.thy ===== *)
theory Updates
  imports SettingsForm
begin

text \<open>
  web/src/components/UpdateBanner.tsx and UpdatesSection.tsx: the banner that offers an
  update, its dismissal (kept in localStorage), the update itself with the polling that
  waits for the new version, the notice after the reload (a marker in sessionStorage), and
  the settings section. Times are in milliseconds.
\<close>

datatype ApplyState = ApIdle | ApApplying | ApWaiting | ApFailed

record banner =
  bn_status :: "UpdateStatus option"
  dismissed :: jstr
  stored_dismissed :: "jstr option"     \<comment> \<open>localStorage, veckomenyn.update.dismissed\<close>
  marker :: "jstr option"               \<comment> \<open>sessionStorage, veckomenyn.update.upgraded_from\<close>
  copied :: bool
  applyState :: ApplyState
  applyError :: "jstr option"
  upgradedFrom :: "jstr option"
  upgradedTo :: "jstr option"

definition banner_init :: "jstr option \<Rightarrow> jstr option \<Rightarrow> banner" where
  "banner_init stored mk =
     \<lparr>bn_status = None, dismissed = nullish stored [], stored_dismissed = stored, marker = mk,
      copied = False, applyState = ApIdle, applyError = None, upgradedFrom = None, upgradedTo = None\<rparr>"

text \<open>After a reload: the version is asked for only when a (non-empty) marker was left.\<close>

definition version_reply :: "jstr + VersionInfo \<Rightarrow> banner \<Rightarrow> banner" where
  "version_reply reply s =
     (case marker s of
        None \<Rightarrow> s
      | Some src \<Rightarrow>
          (if \<not> truthy src then s
           else case reply of
               Inl e \<Rightarrow> s
             | Inr v \<Rightarrow>
                 (let s1 = (if truthy (version v) \<and> version v \<noteq> src
                            then s\<lparr>upgradedFrom := Some src, upgradedTo := Some (version v)\<rparr> else s)
                  in s1\<lparr>marker := None\<rparr>)))"

text \<open>The effect that lets the banner reappear for another version.\<close>

definition reappear :: "banner \<Rightarrow> banner" where
  "reappear s =
     (case bn_status s of
        None \<Rightarrow> s
      | Some st \<Rightarrow>
          (if truthy (us_latest st) \<and> truthy (dismissed s) \<and> us_latest st \<noteq> dismissed s
           then s\<lparr>stored_dismissed := None, dismissed := []\<rparr> else s))"

definition status_reply :: "jstr + UpdateStatus \<Rightarrow> banner \<Rightarrow> banner" where
  "status_reply reply s =
     (case reply of Inl e \<Rightarrow> s | Inr st \<Rightarrow> reappear (s\<lparr>bn_status := Some st\<rparr>))"

definition shows_banner :: "banner \<Rightarrow> bool" where
  "shows_banner s \<longleftrightarrow>
     (case bn_status s of None \<Rightarrow> False | Some st \<Rightarrow> has_update st \<and> dismissed s \<noteq> us_latest st)"

definition shows_success :: "banner \<Rightarrow> (jstr \<times> jstr) option" where
  "shows_success s =
     (case upgradedTo s of
        None \<Rightarrow> None
      | Some tgt \<Rightarrow>
          if truthy tgt \<and> upgradedFrom s \<noteq> Some tgt then Some (nullish (upgradedFrom s) (js ''?''), tgt)
          else None)"

definition dismiss_success :: "banner \<Rightarrow> banner" where
  "dismiss_success s = s\<lparr>upgradedFrom := None, upgradedTo := None\<rparr>"

text \<open>The banner's buttons exist only while it shows, so \<open>status\<close> is not null in them.\<close>

definition banner_dismiss :: "banner \<Rightarrow> banner" where
  "banner_dismiss s =
     (case bn_status s of
        None \<Rightarrow> s
      | Some st \<Rightarrow> reappear (s\<lparr>stored_dismissed := Some (us_latest st), dismissed := us_latest st\<rparr>))"

definition banner_copy :: "bool \<Rightarrow> banner \<Rightarrow> banner" where
  "banner_copy granted s = (if granted then s\<lparr>copied := True\<rparr> else s)"

definition copy_timer :: "banner \<Rightarrow> banner" where
  "copy_timer s = s\<lparr>copied := False\<rparr>"

definition apply_start :: "UpdateStatus \<Rightarrow> banner \<Rightarrow> banner" where
  "apply_start st s = s\<lparr>applyState := ApApplying, applyError := None, marker := Some (us_current st)\<rparr>"

definition apply_reply :: "jstr + unit \<Rightarrow> banner \<Rightarrow> banner" where
  "apply_reply reply s =
     (case reply of
        Inl e \<Rightarrow> s\<lparr>marker := None, applyError := Some e, applyState := ApFailed\<rparr>
      | Inr _ \<Rightarrow> s\<lparr>applyState := ApWaiting\<rparr>)"

definition apply_timeout :: "Lang \<Rightarrow> banner \<Rightarrow> banner" where
  "apply_timeout l s =
     s\<lparr>applyError := Some (I18n.t l (js ''update.apply_timeout'') None), applyState := ApFailed\<rparr>"

text \<open>
  The polling: \<open>tick\<close> at time \<open>now\<close> with the version that is then reported. The list
  holds the ticks in their order; a tick that neither ends the wait nor fails sets the
  next one two seconds after its reply.
\<close>

datatype wait = Waiting | TimedOut | Reloads

definition tick :: "jstr \<Rightarrow> int \<Rightarrow> int \<Rightarrow> jstr + VersionInfo \<Rightarrow> wait" where
  "tick target started now reply =
     (if now - started > 5 * 60 * 1000 then TimedOut
      else case reply of
          Inr v \<Rightarrow> if version v = target then Reloads else Waiting
        | Inl e \<Rightarrow> Waiting)"

fun polling :: "jstr \<Rightarrow> int \<Rightarrow> (int \<times> (jstr + VersionInfo)) list \<Rightarrow> wait" where
  "polling target started [] = Waiting"
| "polling target started ((now, reply) # ticks) =
     (case tick target started now reply of Waiting \<Rightarrow> polling target started ticks | w \<Rightarrow> w)"

text \<open>The times that \<open>setTimeout\<close> allows: the first after three seconds, then two apart.\<close>

fun spaced :: "int \<Rightarrow> int list \<Rightarrow> bool" where
  "spaced t0 [] = True"
| "spaced t0 (x # xs) = (t0 \<le> x \<and> spaced (x + 2000) xs)"

definition compareURL :: "UpdateStatus \<Rightarrow> jstr option" where
  "compareURL st =
     (if is_release (us_current st) \<and> is_release (us_latest st) then
        Some (js ''https://github.com/simonnordberg/veckomenyn/compare/v'' @ us_current st @ js ''...v''
              @ us_latest st)
      else None)"

subsection \<open>The settings section\<close>

record updates_section =
  ud_cfg :: "UpdateConfig option"
  ud_error :: "jstr option"
  ud_busy :: bool
  ud_checking :: bool
  checkResult :: "UpdateStatus option"
  ud_events :: nat                   \<comment> \<open>UPDATES_REFRESHED_EVENT, dispatched\<close>

definition ud_loaded :: "jstr + UpdateConfig \<Rightarrow> updates_section \<Rightarrow> updates_section" where
  "ud_loaded reply s = (case reply of Inr c \<Rightarrow> s\<lparr>ud_cfg := Some c\<rparr> | Inl e \<Rightarrow> s\<lparr>ud_error := Some e\<rparr>)"

definition onToggle :: "updates_section \<Rightarrow> updates_section" where
  "onToggle s = s\<lparr>ud_busy := True, ud_error := None\<rparr>"

definition toggled :: "jstr + UpdateConfig \<Rightarrow> updates_section \<Rightarrow> updates_section" where
  "toggled reply s =
     (case reply of Inr c \<Rightarrow> s\<lparr>ud_cfg := Some c, ud_busy := False\<rparr>
      | Inl e \<Rightarrow> s\<lparr>ud_error := Some e, ud_busy := False\<rparr>)"

definition onCheck :: "updates_section \<Rightarrow> updates_section" where
  "onCheck s = s\<lparr>ud_checking := True, ud_error := None, checkResult := None\<rparr>"

definition checked :: "jstr + UpdateStatus \<Rightarrow> updates_section \<Rightarrow> updates_section" where
  "checked reply s =
     (case reply of
        Inr st \<Rightarrow> s\<lparr>checkResult := Some st, ud_events := ud_events s + 1, ud_checking := False\<rparr>
      | Inl e \<Rightarrow> s\<lparr>ud_error := Some e, ud_checking := False\<rparr>)"

definition check_text :: "Lang \<Rightarrow> updates_section \<Rightarrow> jstr option" where
  "check_text l s =
     (case checkResult s of
        Some st \<Rightarrow>
          if ud_checking s then None
          else if has_update st
            then Some (I18n.t l (js ''update.found'') (Some [js ''version'' \<mapsto> us_latest st]))
            else Some (I18n.t l (js ''update.up_to_date'') (Some [js ''version'' \<mapsto> us_current st]))
      | None \<Rightarrow> None)"

definition toggle_disabled :: "updates_section \<Rightarrow> bool" where
  "toggle_disabled s \<longleftrightarrow> (case ud_cfg s of Some c \<Rightarrow> \<not> uc_can_apply c \<or> ud_busy s | None \<Rightarrow> True)"

subsection \<open>Dismissing and reappearing\<close>

text \<open>What localStorage holds is what the component shows.\<close>

definition dismiss_inv :: "banner \<Rightarrow> bool" where
  "dismiss_inv s \<longleftrightarrow> dismissed s = nullish (stored_dismissed s) []"

datatype banner_event =
    StatusReply "jstr + UpdateStatus" | VersionReply "jstr + VersionInfo" | DismissBanner
  | DismissSuccess | CopyCommand bool | CopyTimer | ApplyStart UpdateStatus
  | ApplyReply "jstr + unit" | ApplyTimeout Lang

fun banner_step :: "banner_event \<Rightarrow> banner \<Rightarrow> banner" where
  "banner_step (StatusReply r) s = status_reply r s"
| "banner_step (VersionReply r) s = version_reply r s"
| "banner_step DismissBanner s = banner_dismiss s"
| "banner_step DismissSuccess s = dismiss_success s"
| "banner_step (CopyCommand g) s = banner_copy g s"
| "banner_step CopyTimer s = copy_timer s"
| "banner_step (ApplyStart st) s = apply_start st s"
| "banner_step (ApplyReply r) s = apply_reply r s"
| "banner_step (ApplyTimeout l) s = apply_timeout l s"

definition banner_run :: "banner_event list \<Rightarrow> banner \<Rightarrow> banner" where
  "banner_run es s = fold banner_step es s"

text \<open>A version other than the one dismissed is never hidden.\<close>

definition hidden_ok :: "banner \<Rightarrow> bool" where
  "hidden_ok s \<longleftrightarrow>
     (\<forall>st. bn_status s = Some st \<and> truthy (us_latest st) \<and> truthy (dismissed s) \<longrightarrow> us_latest st = dismissed s)"

lemma banner_step_inv:
  "dismiss_inv s \<Longrightarrow> hidden_ok s \<Longrightarrow> dismiss_inv (banner_step e s) \<and> hidden_ok (banner_step e s)"
  by (cases e)
    (auto simp: dismiss_inv_def hidden_ok_def status_reply_def version_reply_def reappear_def Let_def
      banner_dismiss_def dismiss_success_def banner_copy_def copy_timer_def apply_start_def
      apply_reply_def apply_timeout_def split: option.splits sum.splits)

lemma banner_run_inv:
  "dismiss_inv s \<Longrightarrow> hidden_ok s \<Longrightarrow> dismiss_inv (banner_run es s) \<and> hidden_ok (banner_run es s)"
  by (induction es arbitrary: s) (simp_all add: banner_run_def banner_step_inv)

lemma banner_init_inv: "dismiss_inv (banner_init stored mk)" "hidden_ok (banner_init stored mk)"
  by (simp_all add: dismiss_inv_def hidden_ok_def banner_init_def)

subsection \<open>The wait ends\<close>

lemma spaced_last: "spaced t0 xs \<Longrightarrow> i < length xs \<Longrightarrow> t0 + 2000 * int i \<le> xs ! i"
proof (induction xs arbitrary: t0 i)
  case (Cons x xs)
  show ?case
  proof (cases i)
    case (Suc j)
    with Cons.prems Cons.IH [of "x + 2000" j] show ?thesis by simp
  qed (use Cons.prems in simp)
qed simp

lemma polling_late:
  "(now, reply) \<in> set ticks \<Longrightarrow> now - started > 300000 \<Longrightarrow> polling target started ticks \<noteq> Waiting"
proof (induction ticks)
  case (Cons tk ticks)
  then show ?case by (cases tk) (auto simp: tick_def split: wait.splits)
qed simp

lemma polling_ends:
  assumes "spaced (started + 3000) (map fst ticks)" and "150 \<le> length ticks"
  shows "polling target started ticks \<noteq> Waiting"
proof -
  have "started + 3000 + 2000 * int 149 \<le> map fst ticks ! 149"
    using assms by (intro spaced_last) simp_all
  then have "fst (ticks ! 149) - started > 300000" using assms(2) by simp
  moreover have "(fst (ticks ! 149), snd (ticks ! 149)) \<in> set ticks" using assms(2) by simp
  ultimately show ?thesis by (rule polling_late [rotated])
qed

lemma polling_reloads:
  "polling target started ticks = Reloads \<Longrightarrow> \<exists>(now, reply) \<in> set ticks. \<exists>v. reply = Inr v \<and> version v = target"
proof (induction ticks)
  case (Cons tk ticks)
  obtain now reply where tk: "tk = (now, reply)" by (cases tk)
  show ?case
  proof (cases "tick target started now reply")
    case Waiting
    with Cons show ?thesis by (auto simp: tk)
  qed (use Cons.prems in \<open>auto simp: tk tick_def split: sum.splits if_splits\<close>)
qed simp

subsection \<open>Properties\<close>

text \<open>
  C37: Waiting for an update ends: with the pauses of the timers, after at most 150 polls the
  page has reloaded or given up, and it reloads only when the server reported the version
  that was waited for.
\<close>

theorem update_wait_ends:
  assumes "spaced (started + 3000) (map fst ticks)" and "150 \<le> length ticks"
  shows "polling target started ticks = TimedOut \<or>
    (polling target started ticks = Reloads \<and> (\<exists>now v. (now, Inr v) \<in> set ticks \<and> version v = target))"
  using polling_ends [OF assms, of target] polling_reloads [of target started ticks]
  by (cases "polling target started ticks") auto

definition sample_ticks :: "(int \<times> (jstr + VersionInfo)) list" where
  "sample_ticks = map (\<lambda>i. (3000 + 2000 * int i, Inl [])) [0..<150]"

theorem update_wait_ends_witness: "polling (js ''1.2.3'') 0 sample_ticks = TimedOut"
proof -
  have sp: "spaced t0 (map (\<lambda>i. t0 + 2000 * (int i - int m)) [m..<n])" for t0 :: int and m n
  proof (induction "n - m" arbitrary: m t0)
    case (Suc k)
    then have lt: "m < n" "k = n - Suc m" by simp_all
    have "map (\<lambda>i. t0 + 2000 * (int i - int m)) [Suc m..<n] =
        map (\<lambda>i. (t0 + 2000) + 2000 * (int i - int (Suc m))) [Suc m..<n]"
      by simp
    then show ?case
      using Suc(1) [OF lt(2), of "t0 + 2000"] by (simp add: upt_conv_Cons [OF lt(1)])
  qed simp
  have "map fst sample_ticks = map (\<lambda>i. 3000 + 2000 * (int i - int 0)) [0..<150]"
    by (simp add: sample_ticks_def)
  then have "spaced (0 + 3000) (map fst sample_ticks)" using sp [of 3000 0 150] by simp
  moreover have "150 \<le> length sample_ticks" by (simp add: sample_ticks_def)
  moreover have "\<not> (\<exists>now v. (now, Inr v) \<in> set sample_ticks)" by (auto simp: sample_ticks_def)
  ultimately show ?thesis using update_wait_ends [of 0 sample_ticks "js ''1.2.3''"] by blast
qed

text \<open>
  Dismissing the banner hides that version and no other: after any sequence of events, when
  an update is available and its version is not the one that the browser has stored as
  dismissed, the banner shows; and it is hidden right after its dismissal.
\<close>

theorem dismissal_is_per_version:
  assumes "bn_status (banner_run es (banner_init stored mk)) = Some st" and "has_update st"
    and "us_latest st \<noteq> []"
  shows "let s = banner_run es (banner_init stored mk) in
    (shows_banner s \<longleftrightarrow> stored_dismissed s \<noteq> Some (us_latest st)) \<and> \<not> shows_banner (banner_dismiss s)"
proof -
  have "dismiss_inv (banner_run es (banner_init stored mk))"
    using banner_run_inv [OF banner_init_inv] by blast
  then show ?thesis
    using assms by (auto simp: Let_def shows_banner_def dismiss_inv_def banner_dismiss_def reappear_def
        nullish_def split: option.splits)
qed

definition sample_update :: UpdateStatus where
  "sample_update = \<lparr>us_current = js ''1.0.0'', us_latest = js ''1.1.0'', has_update = True, us_url = [],
     us_can_apply = True, auto_enabled = False\<rparr>"

theorem dismissal_is_per_version_witness:
  "shows_banner (banner_run [StatusReply (Inr sample_update)] (banner_init (Some (js ''1.0.9'')) None))"
  using dismissal_is_per_version [of "[StatusReply (Inr sample_update)]" "Some (js ''1.0.9'')" None sample_update]
  by (simp add: banner_run_def banner_init_def status_reply_def reappear_def sample_update_def Let_def)

end
