(* ===== verification/Maintenance.thy ===== *)
theory Maintenance
  imports SettingsForm JsNumber RouteNav
begin

text \<open>
  web/src/components/BackupsSection.tsx (the list of backups with its configuration) and
  SetupWizard.tsx (the first-run wizard). A handler that awaits the server is split into
  what it does at once and what its reply does.
\<close>

subsection \<open>Backups\<close>

datatype BackupBusy = BkIdle | BkTaking | BkSaving

record backups_ui =
  bk_list :: "Backup list option"
  bk_cfg :: "BackupConfig option"
  bk_error :: "jstr option"
  bk_busy :: BackupBusy

definition backups_init :: backups_ui where
  "backups_init = \<lparr>bk_list = None, bk_cfg = None, bk_error = None, bk_busy = BkIdle\<rparr>"

text \<open>\<open>Promise.all\<close> of two requests: it rejects with the one that failed first.\<close>

definition promise_all :: "bool \<Rightarrow> jstr + 'a \<Rightarrow> jstr + 'b \<Rightarrow> jstr + 'a \<times> 'b" where
  "promise_all second_first a b =
     (case (a, b) of
        (Inr x, Inr y) \<Rightarrow> Inr (x, y)
      | (Inl e, Inr _) \<Rightarrow> Inl e
      | (Inr _, Inl e) \<Rightarrow> Inl e
      | (Inl e, Inl e') \<Rightarrow> Inl (if second_first then e' else e))"

definition bk_refresh :: "jstr + Backup list \<times> BackupConfig \<Rightarrow> backups_ui \<Rightarrow> backups_ui" where
  "bk_refresh reply s =
     (case reply of
        Inr (l, c) \<Rightarrow> s\<lparr>bk_list := Some l, bk_cfg := Some c, bk_error := None\<rparr>
      | Inl e \<Rightarrow> s\<lparr>bk_error := Some e\<rparr>)"

definition onTake :: "backups_ui \<Rightarrow> backups_ui" where
  "onTake s = s\<lparr>bk_busy := BkTaking, bk_error := None\<rparr>"

text \<open>
  What the reply to \<open>takeBackup\<close> and to \<open>deleteBackup\<close> does, and whether \<open>refresh\<close> is called next; the
  button stays busy until the refresh has ended, which never throws.
\<close>

definition taken :: "jstr + Backup \<Rightarrow> backups_ui \<Rightarrow> bool \<times> backups_ui" where
  "taken reply s =
     (case reply of
        Inr _ \<Rightarrow> (True, s)
      | Inl e \<Rightarrow> (False, s\<lparr>bk_error := Some e, bk_busy := BkIdle\<rparr>))"

definition take_refreshed :: "jstr + Backup list \<times> BackupConfig \<Rightarrow> backups_ui \<Rightarrow> backups_ui" where
  "take_refreshed reply s = (bk_refresh reply s)\<lparr>bk_busy := BkIdle\<rparr>"

definition onDelete :: "bool \<Rightarrow> backups_ui \<Rightarrow> bool \<times> backups_ui" where
  "onDelete confirmed s = (if \<not> confirmed then (False, s) else (True, s\<lparr>bk_error := None\<rparr>))"

definition bk_deleted :: "jstr + unit \<Rightarrow> backups_ui \<Rightarrow> bool \<times> backups_ui" where
  "bk_deleted reply s = (case reply of Inr _ \<Rightarrow> (True, s) | Inl e \<Rightarrow> (False, s\<lparr>bk_error := Some e\<rparr>))"

text \<open>The patch that is sent: \<open>nightly_enabled\<close> or \<open>nightly_keep\<close>.\<close>

datatype bk_patch = PatchEnabled bool | PatchKeep int

definition onToggleNightly :: "bool \<Rightarrow> backups_ui \<Rightarrow> bk_patch option \<times> backups_ui" where
  "onToggleNightly enabled s = (Some (PatchEnabled enabled), s\<lparr>bk_busy := BkSaving, bk_error := None\<rparr>)"

definition onChangeKeep :: "int option \<Rightarrow> backups_ui \<Rightarrow> bk_patch option \<times> backups_ui" where
  "onChangeKeep keep s =
     (case keep of
        None \<Rightarrow> (None, s)
      | Some k \<Rightarrow>
          if k \<le> 0 then (None, s)
          else (Some (PatchKeep k), s\<lparr>bk_busy := BkSaving, bk_error := None\<rparr>))"

definition bk_patched :: "jstr + BackupConfig \<Rightarrow> backups_ui \<Rightarrow> backups_ui" where
  "bk_patched reply s =
     (case reply of Inr c \<Rightarrow> s\<lparr>bk_cfg := Some c\<rparr> | Inl e \<Rightarrow> s\<lparr>bk_error := Some e\<rparr>)\<lparr>bk_busy := BkIdle\<rparr>"

definition take_disabled :: "backups_ui \<Rightarrow> bool" where
  "take_disabled s \<longleftrightarrow>
     (case bk_cfg s of Some c \<Rightarrow> \<not> can_write c \<or> bk_busy s \<noteq> BkIdle | None \<Rightarrow> True)"

fun reason_str :: "BackupReason \<Rightarrow> jstr" where
  "reason_str PreMigration = js ''pre-migration''"
| "reason_str Manual = js ''manual''"
| "reason_str Nightly = js ''nightly''"
| "reason_str NoReason = []"

definition reason_label :: "Lang \<Rightarrow> BackupReason \<Rightarrow> jstr" where
  "reason_label l r =
     (if truthy (reason_str r) then I18n.t l (js ''backups.reason.'' @ reason_str r) None else reason_str r)"

definition formatSize :: "nat \<Rightarrow> jstr" where
  "formatSize bytes =
     (if bytes < 1024 then dec bytes @ js '' B''
      else if bytes < 1024 * 1024 then to_fixed 1 (of_nat bytes / 1024) @ js '' KB''
      else if bytes < 1024 * 1024 * 1024 then to_fixed 1 (of_nat bytes / (1024 * 1024)) @ js '' MB''
      else to_fixed 2 (of_nat bytes / (1024 * 1024 * 1024)) @ js '' GB'')"

subsection \<open>The set-up wizard\<close>

datatype Step = Welcome | ApiKey | Seed | DoneStep

definition STEPS :: "Step list" where "STEPS = [Welcome, ApiKey, Seed]"

datatype WizardBusy = WzIdle | WzSaving | WzSeeding

record wizard =
  wz_step :: Step
  wz_apiKey :: jstr
  wz_busy :: WizardBusy
  seededCount :: "int option"
  wz_error :: "jstr option"
  wz_finished :: nat                 \<comment> \<open>calls of onComplete\<close>
  wz_hist :: history

definition wizard_init :: "history \<Rightarrow> wizard" where
  "wizard_init h = \<lparr>wz_step = Welcome, wz_apiKey = [], wz_busy = WzIdle, seededCount = None,
     wz_error = None, wz_finished = 0, wz_hist = h\<rparr>"

fun step_index :: "Step list \<Rightarrow> Step \<Rightarrow> int" where
  "step_index [] s = -1"
| "step_index (x # xs) s = (if x = s then 0 else if step_index xs s = -1 then -1 else step_index xs s + 1)"

definition finish :: "wizard \<Rightarrow> wizard" where
  "finish s = s\<lparr>wz_finished := wz_finished s + 1, wz_hist := navigate RHome True (wz_hist s)\<rparr>"

definition next_wizard :: "wizard \<Rightarrow> wizard" where
  "next_wizard s =
     (let i = step_index STEPS (wz_step s) in
      if 0 \<le> i \<and> i < int (length STEPS) - 1 then s\<lparr>wz_step := STEPS ! nat (i + 1)\<rparr> else finish s)"

definition back_wizard :: "wizard \<Rightarrow> wizard" where
  "back_wizard s =
     (let i = step_index STEPS (wz_step s) in
      if i > 0 then s\<lparr>wz_step := STEPS ! nat (i - 1)\<rparr> else s)"

text \<open>The key that is sent, trimmed; \<open>key_saved\<close> is the reply.\<close>

definition saveKey :: "wizard \<Rightarrow> jstr option \<times> wizard" where
  "saveKey s =
     (if \<not> truthy (trim (wz_apiKey s)) then (None, s)
      else (Some (trim (wz_apiKey s)), s\<lparr>wz_busy := WzSaving, wz_error := None\<rparr>))"

definition key_saved :: "jstr + unit \<Rightarrow> wizard \<Rightarrow> wizard" where
  "key_saved reply s =
     (case reply of Inr _ \<Rightarrow> next_wizard s | Inl e \<Rightarrow> s\<lparr>wz_error := Some e\<rparr>)\<lparr>wz_busy := WzIdle\<rparr>"

definition onSeed :: "wizard \<Rightarrow> wizard" where
  "onSeed s = s\<lparr>wz_busy := WzSeeding, wz_error := None\<rparr>"

definition seeded :: "jstr + int \<Rightarrow> wizard \<Rightarrow> wizard" where
  "seeded reply s =
     (case reply of Inr n \<Rightarrow> s\<lparr>seededCount := Some n\<rparr> | Inl e \<Rightarrow> s\<lparr>wz_error := Some e\<rparr>)\<lparr>wz_busy := WzIdle\<rparr>"

text \<open>
  The steps that the buttons and the replies make, with the conditions under which a
  button is enabled or shown. \<open>accepted\<close> counts the keys that the server accepted.
\<close>

inductive wizard_step :: "wizard \<times> nat \<Rightarrow> wizard \<times> nat \<Rightarrow> bool" where
  wz_next: "wz_step s = Welcome \<Longrightarrow> wizard_step (s, n) (next_wizard s, n)"
| wz_back: "wz_busy s = WzIdle \<Longrightarrow> wizard_step (s, n) (back_wizard s, n)"
| wz_type: "wz_step s = ApiKey \<Longrightarrow> wizard_step (s, n) (s\<lparr>wz_apiKey := k\<rparr>, n)"
| wz_save: "wz_step s = ApiKey \<Longrightarrow> wz_busy s = WzIdle \<Longrightarrow> wizard_step (s, n) (snd (saveKey s), n)"
| wz_saved: "wz_busy s = WzSaving \<Longrightarrow> wizard_step (s, n) (key_saved (Inr ()) s, n + 1)"
| wz_refused: "wz_busy s = WzSaving \<Longrightarrow> wizard_step (s, n) (key_saved (Inl e) s, n)"
| wz_seed: "wz_step s = Seed \<Longrightarrow> wz_busy s = WzIdle \<Longrightarrow> seededCount s = None \<Longrightarrow>
    wizard_step (s, n) (onSeed s, n)"
| wz_seeded: "wz_busy s = WzSeeding \<Longrightarrow> wizard_step (s, n) (seeded reply s, n)"
| wz_finish: "wz_step s = Seed \<Longrightarrow> wizard_step (s, n) (finish s, n)"

inductive wizard_reachable :: "wizard \<times> nat \<Rightarrow> bool" where
  wz_start: "wizard_reachable (wizard_init h, 0)"
| wz_more: "wizard_reachable p \<Longrightarrow> wizard_step p p' \<Longrightarrow> wizard_reachable p'"

inductive_cases wizard_stepE: "wizard_step (s, n) p'"

subsection \<open>The wizard's order\<close>

lemma wizard_moves:
  "next_wizard s = (case wz_step s of Welcome \<Rightarrow> s\<lparr>wz_step := ApiKey\<rparr> | ApiKey \<Rightarrow> s\<lparr>wz_step := Seed\<rparr>
     | _ \<Rightarrow> finish s)"
  "back_wizard s = (case wz_step s of ApiKey \<Rightarrow> s\<lparr>wz_step := Welcome\<rparr> | Seed \<Rightarrow> s\<lparr>wz_step := ApiKey\<rparr>
     | _ \<Rightarrow> s)"
  by (cases "wz_step s"; simp add: next_wizard_def back_wizard_def STEPS_def Let_def)+

text \<open>A key in flight keeps the wizard on its step; the last step needs an accepted key.\<close>

definition wizard_inv :: "wizard \<times> nat \<Rightarrow> bool" where
  "wizard_inv p \<longleftrightarrow>
     (wz_busy (fst p) = WzSaving \<longrightarrow> wz_step (fst p) = ApiKey) \<and>
     (wz_busy (fst p) = WzSeeding \<longrightarrow> wz_step (fst p) = Seed) \<and>
     (wz_step (fst p) = Seed \<longrightarrow> 0 < snd p) \<and>
     (0 < wz_finished (fst p) \<longrightarrow> 0 < snd p) \<and> wz_step (fst p) \<noteq> DoneStep"

lemma wizard_step_inv: "wizard_step p p' \<Longrightarrow> wizard_inv p \<Longrightarrow> wizard_inv p'"
  by (induction rule: wizard_step.induct)
    (auto simp: wizard_inv_def wizard_moves saveKey_def key_saved_def onSeed_def seeded_def finish_def
      split: Step.splits sum.splits if_splits)

lemma wizard_reachable_inv: "wizard_reachable p \<Longrightarrow> wizard_inv p"
proof (induction rule: wizard_reachable.induct)
  case (wz_start h)
  show ?case by (simp add: wizard_inv_def wizard_init_def)
qed (rule wizard_step_inv)

subsection \<open>Sizes\<close>

lemma size_KB:
  assumes "1024 \<le> b" "b < 1024 * 1024"
  shows "formatSize b = fixed_digits 1 (scaled 1 (of_nat b / 1024)) @ js '' KB''"
  using assms by (simp add: formatSize_def to_fixed_pos)

subsection \<open>Properties\<close>

text \<open>
  The wizard is not finished without a key: its last step is reached, and its completion is
  reported, only after the server accepted an API key; and while a key is being saved the
  wizard stays on that step.
\<close>

theorem wizard_needs_key:
  assumes "wizard_reachable (s, accepted)"
  shows "(wz_step s = Seed \<or> 0 < wz_finished s \<longrightarrow> 0 < accepted) \<and> (wz_busy s = WzSaving \<longrightarrow> wz_step s = ApiKey)"
  using wizard_reachable_inv [OF assms] by (auto simp: wizard_inv_def)

definition sample_wizard :: wizard where
  "sample_wizard = (wizard_init \<lparr>back_entries = [], pathname = js ''/setup'', forward_entries = []\<rparr>)
     \<lparr>wz_step := ApiKey, wz_apiKey := [107], wz_busy := WzSaving\<rparr>"

lemma sample_wizard_reachable: "wizard_reachable (key_saved (Inr ()) sample_wizard, 1)"
proof -
  let ?w = "wizard_init \<lparr>back_entries = [], pathname = js ''/setup'', forward_entries = []\<rparr>"
  have "wizard_reachable (next_wizard ?w, 0)"
    by (rule wz_more [OF wz_start wz_next]) (simp add: wizard_init_def)
  then have "wizard_reachable ((next_wizard ?w)\<lparr>wz_apiKey := [107]\<rparr>, 0)"
    by (rule wz_more) (rule wz_type, simp add: next_wizard_def wizard_init_def STEPS_def)
  then have "wizard_reachable (snd (saveKey ((next_wizard ?w)\<lparr>wz_apiKey := [107]\<rparr>)), 0)"
    by (rule wz_more) (rule wz_save, simp_all add: next_wizard_def wizard_init_def STEPS_def)
  also have "snd (saveKey ((next_wizard ?w)\<lparr>wz_apiKey := [107]\<rparr>)) = sample_wizard"
    by (simp add: sample_wizard_def saveKey_def next_wizard_def wizard_init_def STEPS_def trim_def is_ws_def)
  finally have "wizard_reachable (key_saved (Inr ()) sample_wizard, 0 + 1)"
    by (rule wz_more) (rule wz_saved, simp add: sample_wizard_def)
  then show ?thesis by simp
qed

theorem wizard_needs_key_witness: "wz_step (key_saved (Inr ()) sample_wizard) = Seed \<and> 0 < (1::nat)"
proof -
  have "wz_step (key_saved (Inr ()) sample_wizard) = Seed"
    by (simp add: sample_wizard_def key_saved_def next_wizard_def wizard_init_def STEPS_def)
  with wizard_needs_key [OF sample_wizard_reachable] show ?thesis by simp
qed

text \<open>
  A backup's size is printed in the unit that it reaches, rounded to a tenth of a kilobyte:
  the printed number is within half a tenth of the size.
\<close>

theorem size_in_kilobytes:
  assumes "1024 \<le> b" and "b < 1024 * 1024"
  shows "\<exists>n. formatSize b = dec (n div 10) @ [c_dot] @ dec (n mod 10) @ js '' KB''
    \<and> \<bar>of_nat n - (of_nat b / 1024 * 10 :: rat)\<bar> \<le> 1 / 2"
proof -
  let ?n = "scaled 1 (of_nat b / 1024)"
  have len: "length (dec (n mod 10)) = 1" for n by (simp add: dec.simps [of "n mod 10"])
  then have "formatSize b = dec (?n div 10) @ [c_dot] @ dec (?n mod 10) @ js '' KB''"
    by (simp add: size_KB [OF assms] fixed_digits_def pad_start_def)
  moreover have "\<bar>of_nat ?n - (of_nat b / 1024 * 10 :: rat)\<bar> \<le> 1 / 2"
    using scaled_near [of "of_nat b / 1024" 1] by simp
  ultimately show ?thesis by blast
qed

theorem size_in_kilobytes_witness: "\<exists>n. formatSize 1536 = dec (n div 10) @ [c_dot] @ dec (n mod 10) @ js '' KB''"
  using size_in_kilobytes [of 1536] by auto

text \<open>Just below a megabyte the rounding prints 1024.0 KB.\<close>

lemma size_rounds_up: "formatSize 1048575 = dec 1024 @ [c_dot] @ dec 0 @ js '' KB''"
proof -
  have "floor (of_nat 1048575 / 1024 * 10 ^ 1 + 1 / 2 :: rat) = 10240" by (rule floor_unique) simp_all
  then have "scaled 1 (of_nat 1048575 / 1024) = 10240" unfolding scaled_def by simp
  then show ?thesis by (simp add: size_KB fixed_digits_def pad_start_def dec.simps [of 0])
qed

end
