(* ===== verification/Integrations.thy ===== *)
theory Integrations
  imports Api I18n Toast
begin

text \<open>
  web/src/components/IntegrationsSection.tsx: the list of providers, the card that selects
  and tests the language-model provider, and the forms of the providers' settings. A
  config is a map from field keys to texts. Secrets never reach the client: the server
  sends \<open>sentinel\<close> in their place, and a form that is saved sends it back unchanged.
\<close>

subsection \<open>The list\<close>

record integrations =
  ig_known :: "ProviderKindInfo list"
  ig_providers :: "Provider list"
  ig_sentinel :: jstr
  ig_errors :: "jstr list"            \<comment> \<open>error toasts\<close>

definition ig_init :: integrations where
  "ig_init = \<lparr>ig_known = [], ig_providers = [], ig_sentinel = [], ig_errors = []\<rparr>"

definition ig_refresh :: "jstr + ProvidersEnvelope \<Rightarrow> integrations \<Rightarrow> integrations" where
  "ig_refresh reply s =
     (case reply of
        Inl e \<Rightarrow> s\<lparr>ig_errors := ig_errors s @ [e]\<rparr>
      | Inr env \<Rightarrow> s\<lparr>ig_known := env_known env, ig_providers := env_providers env,
                     ig_sentinel := env_sentinel env\<rparr>)"

definition llmKinds :: "integrations \<Rightarrow> ProviderKindInfo list" where
  "llmKinds s = filter (\<lambda>k. pk_category k = CatLlm) (ig_known s)"

definition otherKinds :: "integrations \<Rightarrow> ProviderKindInfo list" where
  "otherKinds s = filter (\<lambda>k. pk_category k \<noteq> CatLlm) (ig_known s)"

definition provider_for :: "Provider list \<Rightarrow> ProviderKindInfo \<Rightarrow> Provider" where
  "provider_for ps info =
     (case find (\<lambda>x. pr_kind x = pk_kind info) ps of
        Some p \<Rightarrow> p
      | None \<Rightarrow> \<lparr>pr_kind = pk_kind info, pr_enabled = False, pr_config = Map.empty, pr_updated_at = None\<rparr>)"

subsection \<open>Selecting and testing\<close>

record llm_card =
  activeKind :: jstr
  switching :: bool
  testing :: bool
  testResult :: "(bool \<times> jstr) option"
  lc_errors :: "jstr list"

definition llm_init :: "ProviderKindInfo list \<Rightarrow> llm_card" where
  "llm_init kinds =
     \<lparr>activeKind = (case kinds of k # _ \<Rightarrow> pk_kind k | [] \<Rightarrow> []), switching = False, testing = False,
      testResult = None, lc_errors = []\<rparr>"

definition llm_loaded :: "jstr + HouseholdSettings \<Rightarrow> llm_card \<Rightarrow> llm_card" where
  "llm_loaded reply s =
     (case reply of
        Inr h \<Rightarrow> if truthy (llm_provider h) then s\<lparr>activeKind := llm_provider h\<rparr> else s
      | Inl e \<Rightarrow> s)"

definition selectProvider :: "jstr \<Rightarrow> llm_card \<Rightarrow> jstr option \<times> llm_card" where
  "selectProvider newKind s =
     (if switching s \<or> newKind = activeKind s then (None, s)
      else (Some newKind, s\<lparr>switching := True, testResult := None\<rparr>))"

definition selected_provider :: "jstr \<Rightarrow> jstr + HouseholdSettings \<Rightarrow> llm_card \<Rightarrow> llm_card" where
  "selected_provider newKind reply s =
     (case reply of
        Inr _ \<Rightarrow> s\<lparr>activeKind := newKind\<rparr>
      | Inl e \<Rightarrow> s\<lparr>lc_errors := lc_errors s @ [e]\<rparr>)\<lparr>switching := False\<rparr>"

definition runTest :: "llm_card \<Rightarrow> llm_card" where
  "runTest s = s\<lparr>testing := True, testResult := None\<rparr>"

text \<open>An absent \<open>model\<close> or \<open>reply\<close> prints as \<open>undefined\<close> in the template literal.\<close>

definition test_reply :: "Lang \<Rightarrow> jstr + TestProviderResult \<Rightarrow> llm_card \<Rightarrow> llm_card" where
  "test_reply l reply s =
     s\<lparr>testResult := Some (case reply of
         Inl e \<Rightarrow> (False, e)
       | Inr r \<Rightarrow>
           if tp_ok r then
             (True, nullish (tp_model r) (js ''undefined'') @ js '': '' @ [34]
                    @ nullish (tp_reply r) (js ''undefined'') @ [34])
           else (False, nullish (tp_error r) (I18n.t l (js ''provider.test_unknown_error'') None))),
       testing := False\<rparr>"

subsection \<open>The forms\<close>

type_synonym config = "jstr \<rightharpoonup> jstr"

text \<open>A falsy entry (absent or empty) of a select field takes the field's default.\<close>

definition default_field :: "config \<Rightarrow> ProviderField \<Rightarrow> config" where
  "default_field c f =
     (if f_type f = FSelect \<and> nullish (c (f_key f)) [] = [] then
        (case f_default f of
           Some d \<Rightarrow> if truthy d then c(f_key f \<mapsto> d) else c
         | None \<Rightarrow> c)
      else c)"

definition initialConfig :: "ProviderField list \<Rightarrow> config \<Rightarrow> config" where
  "initialConfig fds c = foldl default_field c fds"

definition fields_dirty :: "ProviderField list \<Rightarrow> config \<Rightarrow> config \<Rightarrow> bool" where
  "fields_dirty fds cfg stored \<longleftrightarrow>
     (\<exists>f \<in> set fds. nullish (cfg (f_key f)) [] \<noteq> nullish (stored (f_key f)) [])"

record provider_form =
  fm_enabled :: bool
  fm_config :: config
  fm_pending :: bool
  fm_errors :: "jstr list"
  fm_notices :: nat
  fm_refreshes :: nat

text \<open>
  \<open>checks_enabled\<close> distinguishes the two forms: \<open>ProviderCard\<close> has the checkbox and sends
  \<open>enabled\<close>, \<open>LLMProviderFields\<close> does not.
\<close>

definition form_init :: "ProviderField list \<Rightarrow> Provider \<Rightarrow> provider_form" where
  "form_init fds p =
     \<lparr>fm_enabled = pr_enabled p, fm_config = initialConfig fds (pr_config p), fm_pending = False,
      fm_errors = [], fm_notices = 0, fm_refreshes = 0\<rparr>"

definition form_provider :: "ProviderField list \<Rightarrow> Provider \<Rightarrow> provider_form \<Rightarrow> provider_form" where
  "form_provider fds p s =
     s\<lparr>fm_enabled := pr_enabled p, fm_config := initialConfig fds (pr_config p)\<rparr>"

definition form_edit :: "jstr \<Rightarrow> jstr \<Rightarrow> provider_form \<Rightarrow> provider_form" where
  "form_edit k v s = s\<lparr>fm_config := (fm_config s)(k \<mapsto> v)\<rparr>"

definition form_dirty :: "bool \<Rightarrow> ProviderField list \<Rightarrow> Provider \<Rightarrow> provider_form \<Rightarrow> bool" where
  "form_dirty checks_enabled fds p s \<longleftrightarrow>
     (checks_enabled \<and> fm_enabled s \<noteq> pr_enabled p) \<or> fields_dirty fds (fm_config s) (pr_config p)"

text \<open>The body of the PATCH: \<open>enabled\<close> if sent, and the whole config.\<close>

definition form_save ::
    "bool \<Rightarrow> ProviderField list \<Rightarrow> Provider \<Rightarrow> provider_form \<Rightarrow> (bool option \<times> config) option \<times> provider_form" where
  "form_save checks_enabled fds p s =
     (if fm_pending s \<or> \<not> form_dirty checks_enabled fds p s then (None, s)
      else (Some (if checks_enabled then Some (fm_enabled s) else None, fm_config s),
            s\<lparr>fm_pending := True\<rparr>))"

definition form_saved :: "jstr + unit \<Rightarrow> provider_form \<Rightarrow> provider_form" where
  "form_saved reply s =
     (case reply of
        Inr _ \<Rightarrow> s\<lparr>fm_notices := fm_notices s + 1, fm_refreshes := fm_refreshes s + 1\<rparr>
      | Inl e \<Rightarrow> s\<lparr>fm_errors := fm_errors s @ [e]\<rparr>)\<lparr>fm_pending := False\<rparr>"

definition secret_hint :: "jstr \<Rightarrow> config \<Rightarrow> ProviderField \<Rightarrow> bool" where
  "secret_hint sentinel cfg f \<longleftrightarrow>
     f_type f = FPassword \<and> sentinel \<noteq> [] \<and> cfg (f_key f) = Some sentinel"

definition field_value :: "config \<Rightarrow> ProviderField \<Rightarrow> jstr" where
  "field_value cfg f =
     (if f_type f = FSelect then nullish (cfg (f_key f)) (nullish (f_default f) [])
      else nullish (cfg (f_key f)) [])"

subsection \<open>Defaults, secrets\<close>

lemma default_field_other: "default_field c f k = (if k = f_key f \<and> f_type f = FSelect \<and> nullish (c k) [] = []
    \<and> nullish (f_default f) [] \<noteq> [] then f_default f else c k)"
  by (auto simp: default_field_def split: option.splits)

text \<open>The defaults fill only empty select fields: every other entry stays as it is.\<close>

lemma initialConfig_keeps:
  "nullish (c k) [] \<noteq> [] \<or> (\<forall>f \<in> set fds. f_key f = k \<longrightarrow> f_type f \<noteq> FSelect) \<Longrightarrow>
     initialConfig fds c k = c k"
  unfolding initialConfig_def
proof (induction fds arbitrary: c)
  case (Cons f fds)
  have "default_field c f k = c k" using Cons.prems by (auto simp: default_field_other)
  with Cons.prems Cons.IH [of "default_field c f"] show ?case by auto
qed simp

lemma default_idem: "default_field (default_field c f) f = default_field c f"
  by (auto simp: default_field_def split: option.splits)

text \<open>A stored secret is shown as set and sent back as the sentinel when another field changes.\<close>

lemma secret_kept:
  assumes "f \<in> set fds" "\<forall>g \<in> set fds. f_key g = f_key f \<longrightarrow> f_type g \<noteq> FSelect"
    and "f_type f = FPassword" "pr_config p (f_key f) = Some sentinel" "sentinel \<noteq> []"
    and "k \<noteq> f_key f"
    and "form_save ce fds p (form_edit k v (form_init fds p)) = (Some (en, body), s')"
  shows "body (f_key f) = Some sentinel \<and> secret_hint sentinel (fm_config (form_init fds p)) f"
proof -
  have "initialConfig fds (pr_config p) (f_key f) = Some sentinel"
    using initialConfig_keeps [of "pr_config p" "f_key f" fds] assms by simp
  then show ?thesis
    using assms by (auto simp: form_save_def form_edit_def form_init_def secret_hint_def split: if_splits)
qed

text \<open>Saving is offered only for a change, and not twice at a time.\<close>

lemma form_save_iff:
  "fst (form_save ce fds p s) \<noteq> None \<longleftrightarrow> \<not> fm_pending s \<and> form_dirty ce fds p s"
  by (simp add: form_save_def)

lemma form_save_once: "fst (form_save ce fds p (snd (form_save ce fds p s))) \<noteq> None \<Longrightarrow>
    fst (form_save ce fds p s) = None"
  by (auto simp: form_save_def split: if_splits)

text \<open>An untouched form with a default that is not stored is dirty, so the default can be saved.\<close>

lemma default_dirty:
  assumes "f \<in> set fds" "f_type f = FSelect" "f_default f = Some d" "d \<noteq> []"
    and "pr_config p (f_key f) = None" "distinct (map f_key fds)"
  shows "form_dirty ce fds p (form_init fds p)"
proof -
  have "initialConfig fds c (f_key f) = Some d" if "c (f_key f) = None" for c
    using assms(1,6) that unfolding initialConfig_def
  proof (induction fds arbitrary: c)
    case (Cons g gs)
    show ?case
    proof (cases "g = f")
      case True
      have "default_field c f (f_key f) = Some d"
        using Cons.prems assms by (simp add: default_field_other)
      then show ?thesis
        using initialConfig_keeps [of "default_field c f" "f_key f" gs] assms(4) True
        by (simp add: initialConfig_def)
    next
      case False
      with Cons.prems have "f_key g \<noteq> f_key f" by auto
      then have "default_field c g (f_key f) = None"
        using Cons.prems by (simp add: default_field_other)
      with Cons False show ?thesis by simp
    qed
  qed simp
  with assms show ?thesis
    by (auto simp: form_dirty_def fields_dirty_def form_init_def intro!: bexI [of _ f])
qed

subsection \<open>Properties\<close>

text \<open>
  Saving a change of another field leaves a stored secret alone: the form of a provider
  shows it as set and sends the sentinel that the server sent in its place.
\<close>

theorem secret_is_kept:
  assumes "f \<in> set fds" and "distinct (map f_key fds)"
    and "f_type f = FPassword" and "pr_config p (f_key f) = Some sentinel" and "sentinel \<noteq> []"
    and "k \<noteq> f_key f"
    and "form_save ce fds p (form_edit k v (form_init fds p)) = (Some (en, body), s')"
  shows "body (f_key f) = Some sentinel \<and> secret_hint sentinel (fm_config (form_init fds p)) f"
proof -
  have "\<forall>g \<in> set fds. f_key g = f_key f \<longrightarrow> f_type g \<noteq> FSelect"
    using assms(1-3) by (auto simp: distinct_map inj_on_def)
  from secret_kept [OF assms(1) this assms(3-7)] show ?thesis .
qed

definition sample_field :: "string \<Rightarrow> FieldType \<Rightarrow> ProviderField" where
  "sample_field k ty = \<lparr>f_key = js k, f_label = [], f_type = ty, f_options = None, f_default = None,
     f_placeholder = None, f_required = None, f_hint = None\<rparr>"

definition sample_provider :: Provider where
  "sample_provider = \<lparr>pr_kind = js ''anthropic'', pr_enabled = True,
     pr_config = [js ''api_key'' \<mapsto> js ''***''], pr_updated_at = None\<rparr>"

theorem secret_is_kept_witness:
  "\<exists>en body s'. form_save True [sample_field ''api_key'' FPassword, sample_field ''model'' FText] sample_provider
       (form_edit (js ''model'') (js ''m'') (form_init [sample_field ''api_key'' FPassword, sample_field ''model'' FText]
         sample_provider)) = (Some (en, body), s') \<and> body (js ''api_key'') = Some (js ''***'')"
proof -
  let ?f = "sample_field ''api_key'' FPassword" and ?g = "sample_field ''model'' FText"
  let ?s = "form_edit (js ''model'') (js ''m'') (form_init [?f, ?g] sample_provider)"
  have eq: "form_save True [?f, ?g] sample_provider ?s =
      (Some (Some (fm_enabled ?s), fm_config ?s), ?s\<lparr>fm_pending := True\<rparr>)"
    by (simp add: form_save_def form_dirty_def fields_dirty_def form_edit_def form_init_def sample_field_def
        sample_provider_def)
  have "fm_config ?s (f_key ?f) = Some (js ''***'') \<and>
      secret_hint (js ''***'') (fm_config (form_init [?f, ?g] sample_provider)) ?f"
    by (rule secret_is_kept [OF _ _ _ _ _ _ eq]) (simp_all add: sample_field_def sample_provider_def)
  with eq show ?thesis by (simp add: sample_field_def)
qed

end
