(* ===== verification/Theme.thy ===== *)
theory Theme
  imports ExternalStore
begin

text \<open>
  web/src/lib/theme.ts: the theme preference in localStorage, what it resolves to under
  the system's colour scheme, and the class and style of the root element. Also the
  toggle button of App.tsx and the suspension of dark mode by the print view
  (PrintableWeek.tsx). The browser exists (\<open>window\<close> and \<open>document\<close> are defined).
\<close>

datatype Theme = ThSystem | ThLight | ThDark

datatype Resolved = ResLight | ResDark

record theme_state =
  stored :: "jstr option"          \<comment> \<open>localStorage, key wf:theme\<close>
  prefers_dark :: bool             \<comment> \<open>matchMedia("(prefers-color-scheme: dark)")\<close>
  html_dark :: bool                \<comment> \<open>the class "dark" of the root element\<close>
  color_scheme :: "Resolved option"

fun theme_str :: "Theme \<Rightarrow> jstr" where
  "theme_str ThSystem = js ''system''"
| "theme_str ThLight = js ''light''"
| "theme_str ThDark = js ''dark''"

definition read_theme :: "theme_state \<Rightarrow> Theme" where
  "read_theme s =
     (if stored s = Some (js ''light'') then ThLight
      else if stored s = Some (js ''dark'') then ThDark else ThSystem)"

definition resolveTheme :: "bool \<Rightarrow> Theme \<Rightarrow> Resolved" where
  "resolveTheme prefersDark t =
     (case t of ThLight \<Rightarrow> ResLight | ThDark \<Rightarrow> ResDark
      | ThSystem \<Rightarrow> if prefersDark then ResDark else ResLight)"

definition apply_theme :: "Theme \<Rightarrow> theme_state \<Rightarrow> theme_state" where
  "apply_theme t s =
     (let r = resolveTheme (prefers_dark s) t in
      s\<lparr>html_dark := (r = ResDark), color_scheme := Some r\<rparr>)"

definition setTheme :: "Theme \<Rightarrow> theme_state \<Rightarrow> theme_state" where
  "setTheme t s =
     apply_theme t (s\<lparr>stored := (if t = ThSystem then None else Some (theme_str t))\<rparr>)"

definition initTheme :: "theme_state \<Rightarrow> theme_state" where
  "initTheme s = apply_theme (read_theme s) s"

text \<open>The listener that initTheme registers for changes of the system's scheme.\<close>

definition os_change :: "bool \<Rightarrow> theme_state \<Rightarrow> theme_state" where
  "os_change dark s =
     (let s' = s\<lparr>prefers_dark := dark\<rparr> in
      if read_theme s' = ThSystem then apply_theme ThSystem s' else s')"

definition useTheme :: "theme_state \<Rightarrow> Theme \<times> Resolved" where
  "useTheme s = (read_theme s, resolveTheme (prefers_dark s) (read_theme s))"

text \<open>The toggle button: system, light, dark, system.\<close>

definition next_theme :: "Theme \<Rightarrow> Theme" where
  "next_theme t = (if t = ThSystem then ThLight else if t = ThLight then ThDark else ThSystem)"

text \<open>The effect of the print view: what it saves on mount, and its clean-up.\<close>

record print_saved =
  hadDark :: bool
  prevScheme :: "Resolved option"

definition print_mount :: "theme_state \<Rightarrow> print_saved \<times> theme_state" where
  "print_mount s = (\<lparr>hadDark = html_dark s, prevScheme = color_scheme s\<rparr>,
                    s\<lparr>html_dark := False, color_scheme := Some ResLight\<rparr>)"

definition print_unmount :: "print_saved \<Rightarrow> theme_state \<Rightarrow> theme_state" where
  "print_unmount sv s =
     s\<lparr>html_dark := (if hadDark sv then True else html_dark s), color_scheme := prevScheme sv\<rparr>"

subsection \<open>The root element follows the preference\<close>

definition theme_inv :: "theme_state \<Rightarrow> bool" where
  "theme_inv s \<longleftrightarrow>
     html_dark s = (snd (useTheme s) = ResDark) \<and> color_scheme s = Some (snd (useTheme s))"

lemma read_setTheme [simp]: "read_theme (setTheme t s) = t"
  by (cases t) (simp_all add: read_theme_def setTheme_def apply_theme_def Let_def)

lemma apply_theme_fields [simp]:
  "stored (apply_theme t s) = stored s" "prefers_dark (apply_theme t s) = prefers_dark s"
  "read_theme (apply_theme t s) = read_theme s"
  by (simp_all add: apply_theme_def Let_def read_theme_def)

lemma init_theme_inv: "theme_inv (initTheme s)"
  by (simp add: initTheme_def theme_inv_def useTheme_def)
    (simp add: apply_theme_def Let_def)

lemma setTheme_inv: "theme_inv (setTheme t s)"
  unfolding theme_inv_def useTheme_def read_setTheme
  by (simp add: setTheme_def apply_theme_def Let_def)

lemma os_change_inv: "theme_inv s \<Longrightarrow> theme_inv (os_change d s)"
  by (cases "read_theme s")
    (simp_all add: os_change_def Let_def theme_inv_def useTheme_def read_theme_def apply_theme_def
      resolveTheme_def split: if_splits)

datatype theme_op = SetTheme Theme | OsChange bool

fun theme_step :: "theme_op \<Rightarrow> theme_state \<Rightarrow> theme_state" where
  "theme_step (SetTheme t) s = setTheme t s"
| "theme_step (OsChange d) s = os_change d s"

text \<open>Both operations call every listener.\<close>

definition theme_notifies :: "theme_op \<Rightarrow> theme_state \<Rightarrow> bool" where
  "theme_notifies a s = True"

lemma theme_step_inv: "theme_inv s \<Longrightarrow> theme_inv (theme_step a s)"
  by (cases a) (simp_all add: setTheme_inv os_change_inv)

text \<open>
  The snapshot that \<open>useTheme\<close> subscribes to is the stored theme alone; what it resolves to is
  computed when a component renders.
\<close>

interpretation theme_store: external_store theme_step theme_notifies read_theme
  by unfold_locales (simp add: theme_notifies_def)

lemma run_theme_inv: "theme_inv s \<Longrightarrow> theme_inv (theme_store.run as s)"
  by (induction as arbitrary: s) (auto simp: theme_step_inv)

lemma print_restores:
  "print_unmount (fst (print_mount s)) (snd (print_mount s)) = s"
  by (simp add: print_mount_def print_unmount_def)

subsection \<open>Properties\<close>

text \<open>
  The document follows the theme: after initialisation and any sequence of theme choices and
  changes of the system's preference, the page is dark exactly when the resolved theme is, and
  a component has the theme that is stored. Leaving the print view restores the document.
\<close>

theorem theme_follows:
  "theme_inv (theme_store.run ops (initTheme s)) \<and>
   theme_store.observe ops s' (read_theme s') = read_theme (theme_store.run ops s') \<and>
   print_unmount (fst (print_mount s)) (snd (print_mount s)) = s"
  using run_theme_inv [OF init_theme_inv] theme_store.observe_current print_restores by blast

end
