(* ===== verification/Views.thy ===== *)
theory Views
  imports Toast I18n SettingsForm Theme
begin

text \<open>
  The components that load something and show it: WeeksSidebar.tsx, HomeView.tsx,
  UsageModal.tsx and PrintableWeek.tsx, and the toasts' viewport, ToastViewport.tsx. All
  but the print view load in an effect whose cleanup sets a \<open>cancelled\<close> flag: the record
  \<open>fetch\<close> is that pattern. Each run of the effect has a token, and a reply counts only for
  the latest run.
\<close>

subsection \<open>Loading in an effect\<close>

record 'v fetch =
  ft_token :: nat
  ft_live :: bool               \<comment> \<open>the latest run is not cleaned up\<close>
  ft_pending :: "nat list"
  ft_value :: "'v option"
  ft_error :: "jstr option"

definition fetch_init :: "'v option \<Rightarrow> 'v fetch" where
  "fetch_init v = \<lparr>ft_token = 0, ft_live = False, ft_pending = [], ft_value = v, ft_error = None\<rparr>"

definition fetch_run :: "'v fetch \<Rightarrow> 'v fetch" where
  "fetch_run s =
     s\<lparr>ft_token := ft_token s + 1, ft_live := True, ft_pending := ft_pending s @ [ft_token s + 1]\<rparr>"

definition fetch_cleanup :: "'v fetch \<Rightarrow> 'v fetch" where
  "fetch_cleanup s = s\<lparr>ft_live := False\<rparr>"

text \<open>A failure leaves the value as it was.\<close>

definition fetch_reply :: "nat \<Rightarrow> jstr + 'v \<Rightarrow> 'v fetch \<Rightarrow> 'v fetch" where
  "fetch_reply tok reply s =
     (let s0 = s\<lparr>ft_pending := remove1 tok (ft_pending s)\<rparr> in
      if tok \<noteq> ft_token s \<or> \<not> ft_live s then s0
      else case reply of Inr v \<Rightarrow> s0\<lparr>ft_value := Some v\<rparr> | Inl e \<Rightarrow> s0\<lparr>ft_error := Some e\<rparr>)"

datatype 'v fetch_event = Rerun | Cleanup | Reply nat "jstr + 'v"

fun fetch_step :: "'v fetch_event \<Rightarrow> 'v fetch \<Rightarrow> 'v fetch" where
  "fetch_step Rerun s = fetch_run s"
| "fetch_step Cleanup s = fetch_cleanup s"
| "fetch_step (Reply tok r) s = (if tok \<in> set (ft_pending s) then fetch_reply tok r s else s)"

definition fetch_exec :: "'v fetch_event list \<Rightarrow> 'v fetch \<Rightarrow> 'v fetch" where
  "fetch_exec es s = fold fetch_step es s"

text \<open>Every run waits for one reply, under its own token.\<close>

definition fetch_inv :: "'v fetch \<Rightarrow> bool" where
  "fetch_inv s \<longleftrightarrow> distinct (ft_pending s) \<and> (\<forall>tok \<in> set (ft_pending s). tok \<le> ft_token s)"

lemma fetch_step_inv: "fetch_inv s \<Longrightarrow> fetch_inv (fetch_step e s)"
  by (cases e)
    (auto simp: fetch_inv_def fetch_run_def fetch_cleanup_def fetch_reply_def Let_def
      dest: notin_set_remove1 split: sum.splits)

lemma fetch_exec_inv: "fetch_inv s \<Longrightarrow> fetch_inv (fetch_exec es s)"
  by (induction es arbitrary: s) (simp_all add: fetch_exec_def fetch_step_inv)

text \<open>
  After a new run nothing that was asked for before can change what is shown: only the
  reply to the new run can.
\<close>

lemma old_replies:
  assumes "fetch_inv s" and "list_all (\<lambda>e. \<exists>tok r. e = Reply tok r \<and> tok \<noteq> ft_token s + 1) es"
  shows "ft_value (fetch_exec es (fetch_run s)) = ft_value s \<and>
    ft_error (fetch_exec es (fetch_run s)) = ft_error s"
proof -
  have "ft_value (fetch_exec es u) = ft_value u \<and> ft_error (fetch_exec es u) = ft_error u"
    if "ft_token u = ft_token s + 1" for u
    using assms(2) that
  proof (induction es arbitrary: u)
    case (Cons e es)
    then obtain tok r where e: "e = Reply tok r" "tok \<noteq> ft_token u" by auto
    let ?u = "fetch_step e u"
    have "ft_token ?u = ft_token u" "ft_value ?u = ft_value u" "ft_error ?u = ft_error u"
      using e by (simp_all add: fetch_reply_def)
    with Cons show ?case by (simp add: fetch_exec_def)
  qed (simp add: fetch_exec_def)
  from this [of "fetch_run s"] show ?thesis by (simp add: fetch_run_def)
qed

lemma new_reply:
  "fetch_inv s \<Longrightarrow> ft_value (fetch_step (Reply (ft_token s + 1) (Inr v)) (fetch_run s)) = Some v"
  by (simp add: fetch_run_def fetch_reply_def Let_def)

subsection \<open>The sidebar and the home page\<close>

type_synonym weeks_fetch = "WeekSummary list fetch"

text \<open>The sidebar starts with an empty list and keeps an error; the home page starts with none.\<close>

definition sidebar_init :: weeks_fetch where
  "sidebar_init = fetch_run (fetch_init (Some []))"

definition sidebar_empty :: "weeks_fetch \<Rightarrow> bool" where
  "sidebar_empty s \<longleftrightarrow> nullish (ft_value s) [] = [] \<and> opt_or (ft_error s) [] = []"

record sidebar_row =
  sr_id :: int
  sr_selected :: bool
  sr_period :: jstr
  sr_dinners :: int
  sr_status :: WeekStatus

definition sidebar_row_of :: "(jstr \<Rightarrow> jstr) \<Rightarrow> int option \<Rightarrow> WeekSummary \<Rightarrow> sidebar_row" where
  "sidebar_row_of dayShort selected w =
     \<lparr>sr_id = week_id w, sr_selected = (selected = Some (week_id w)),
      sr_period = formatPeriod dayShort (start_date w) (end_date w),
      sr_dinners = dinner_count w, sr_status = week_status w\<rparr>"

definition sidebar_rows :: "(jstr \<Rightarrow> jstr) \<Rightarrow> int option \<Rightarrow> weeks_fetch \<Rightarrow> sidebar_row list" where
  "sidebar_rows dayShort selected s = map (sidebar_row_of dayShort selected) (nullish (ft_value s) [])"

fun statusColor :: "WeekStatus \<Rightarrow> jstr" where
  "statusColor Draft = js ''text-stone-500 dark:text-stone-400''"
| "statusColor CartBuilt = js ''text-amber-700 dark:text-amber-400''"
| "statusColor Ordered = js ''text-emerald-700 dark:text-emerald-400''"

definition home_init :: weeks_fetch where
  "home_init = fetch_run (fetch_init None)"

definition home_empty :: "weeks_fetch \<Rightarrow> bool" where
  "home_empty s \<longleftrightarrow> ft_value s = Some []"

definition home_rows :: "weeks_fetch \<Rightarrow> WeekSummary list" where
  "home_rows s = nullish (ft_value s) []"

subsection \<open>Usage\<close>

text \<open>Opening the modal clears what it showed and loads; closing it cleans up.\<close>

definition usage_open :: "'v fetch \<Rightarrow> 'v fetch" where
  "usage_open s = fetch_run (s\<lparr>ft_value := None, ft_error := None\<rparr>)"

definition cacheHitRate :: "UsageTotals \<Rightarrow> rat" where
  "cacheHitRate u =
     (let served = cache_read_input_tokens u;
          allInput = input_tokens u + cache_creation_input_tokens u + cache_read_input_tokens u in
      if allInput = 0 then 0 else of_int served / of_int allInput)"

text \<open>The widths of the daily bars, in percent; no bars when nothing was spent.\<close>

definition max_cost :: "UsageDay list \<Rightarrow> rat" where
  "max_cost days = foldl (\<lambda>m d. max m (ud_cost_usd d)) 0 days"

definition daily_bars :: "UsageDay list \<Rightarrow> (jstr \<times> rat) list option" where
  "daily_bars days =
     (if max_cost days = 0 then None
      else Some (map (\<lambda>d. (ud_date d, ud_cost_usd d / max_cost days * 100)) days))"

lemma cacheHitRate_bounds:
  assumes "0 \<le> input_tokens u" "0 \<le> cache_creation_input_tokens u" "0 \<le> cache_read_input_tokens u"
  shows "0 \<le> cacheHitRate u \<and> cacheHitRate u \<le> 1"
proof -
  let ?s = "cache_read_input_tokens u"
  let ?a = "input_tokens u + cache_creation_input_tokens u + cache_read_input_tokens u"
  have a: "0 \<le> ?s" "?s \<le> ?a" using assms by simp_all
  show ?thesis
  proof (cases "?a = 0")
    case False
    then have "0 < (of_int ?a :: rat)" using a by (simp only: of_int_0_less_iff)
    moreover have "(of_int ?s :: rat) \<le> of_int ?a" "0 \<le> (of_int ?s :: rat)" using a by (simp_all only: of_int_le_iff of_int_0_le_iff)
    ultimately have "0 \<le> (of_int ?s / of_int ?a :: rat)" "(of_int ?s / of_int ?a :: rat) \<le> 1"
      by (simp_all only: divide_le_eq_1_pos zero_le_divide_iff less_imp_le simp_thms)
    then show ?thesis using False by (simp only: cacheHitRate_def Let_def if_False simp_thms)
  qed (simp add: cacheHitRate_def)
qed

lemma foldl_max_ge: "m \<le> foldl (\<lambda>m d. max m (f d)) m xs" for m :: rat
proof (induction xs arbitrary: m)
  case (Cons x xs)
  from Cons [of "max m (f x)"] show ?case by simp
qed simp

lemma foldl_max_mem: "x \<in> set xs \<Longrightarrow> f x \<le> foldl (\<lambda>m d. max m (f d)) m xs" for m :: rat
proof (induction xs arbitrary: m)
  case (Cons y ys)
  show ?case
  proof (cases "x = y")
    case True
    have "f x \<le> max m (f x)" by simp
    also have "\<dots> \<le> foldl (\<lambda>m d. max m (f d)) (max m (f x)) ys" by (rule foldl_max_ge)
    finally show ?thesis by (simp add: True)
  qed (use Cons in simp)
qed simp

lemma daily_bars_bounds:
  assumes "daily_bars days = Some bars" and "\<And>d. d \<in> set days \<Longrightarrow> 0 \<le> ud_cost_usd d"
  shows "map fst bars = map ud_date days \<and> (\<forall>(day, pct) \<in> set bars. 0 \<le> pct \<and> pct \<le> 100)"
proof -
  have m: "0 < max_cost days" and bars: "bars = map (\<lambda>d. (ud_date d, ud_cost_usd d / max_cost days * 100)) days"
    using assms(1) foldl_max_ge [of 0 ud_cost_usd days]
    by (auto simp: daily_bars_def max_cost_def order_le_less split: if_splits)
  have "0 \<le> ud_cost_usd d / max_cost days * 100 \<and> ud_cost_usd d / max_cost days * 100 \<le> 100"
    if "d \<in> set days" for d
  proof -
    have "ud_cost_usd d \<le> max_cost days" unfolding max_cost_def by (rule foldl_max_mem [OF that])
    then show ?thesis using m assms(2) [OF that] by (simp add: pos_divide_le_eq)
  qed
  then show ?thesis by (auto simp: bars comp_def)
qed

subsection \<open>The print view\<close>

text \<open>
  It loads without a \<open>cancelled\<close> flag: whatever reply comes last is shown. An error, once
  set, hides the week.
\<close>

record print_view =
  pv_week :: "WeekDetail option"
  pv_error :: "jstr option"

definition print_reply :: "jstr + WeekDetail \<Rightarrow> print_view \<Rightarrow> print_view" where
  "print_reply reply s =
     (case reply of Inr w \<Rightarrow> s\<lparr>pv_week := Some w\<rparr> | Inl e \<Rightarrow> s\<lparr>pv_error := Some e\<rparr>)"

datatype PrintShows = PrintError jstr | PrintLoading | PrintWeek WeekDetail

definition print_shows :: "print_view \<Rightarrow> PrintShows" where
  "print_shows s =
     (case pv_error s of
        Some e \<Rightarrow> if truthy e then PrintError e
                  else (case pv_week s of None \<Rightarrow> PrintLoading | Some w \<Rightarrow> PrintWeek w)
      | None \<Rightarrow> (case pv_week s of None \<Rightarrow> PrintLoading | Some w \<Rightarrow> PrintWeek w))"

text \<open>The sourcing of a dinner: \<open>place: what\<close>, joined; the table shows a dash for none.\<close>

definition sourcing_text :: "Dinner \<Rightarrow> jstr" where
  "sourcing_text d = join_with (js ''; '') (map (\<lambda>(k, v). k @ js '': '' @ v) (sourcing d))"

definition sourcing_cell :: "Dinner \<Rightarrow> jstr" where
  "sourcing_cell d = str_or (sourcing_text d) (js ''-'')"

subsection \<open>The viewport of the toasts\<close>

text \<open>Escape dismisses the newest toast; a toast with a positive duration leaves by itself.\<close>

definition escape_key :: "'a toast_state \<Rightarrow> 'a toast_state" where
  "escape_key s = (if toasts s = [] then s else dismiss (toast_id (last (toasts s))) s)"

definition times_out :: "'a Toast \<Rightarrow> int option" where
  "times_out tt = (if duration tt \<le> 0 then None else Some (duration tt))"

definition toast_timer :: "jstr \<Rightarrow> 'a toast_state \<Rightarrow> 'a toast_state" where
  "toast_timer i s = dismiss i s"

text \<open>The action's button: what it runs, and the queue afterwards.\<close>

definition click_action :: "'a Toast \<Rightarrow> 'a toast_state \<Rightarrow> 'a option \<times> 'a toast_state" where
  "click_action tt s =
     (case action tt of None \<Rightarrow> (None, s) | Some a \<Rightarrow> (Some (onClick a), dismiss (toast_id tt) s))"

lemma escape_removes_last:
  assumes "toast_inv s" "toasts s \<noteq> []"
  shows "toasts (escape_key s) = butlast (toasts s)"
proof -
  let ?l = "last (toasts s)" and ?b = "butlast (toasts s)"
  have sp: "toasts s = ?b @ [?l]" using assms(2) by simp
  have "distinct (map toast_id (?b @ [?l]))" using assms(1) sp by (simp add: toast_inv_def)
  then have "toast_id ?l \<notin> toast_id ` set ?b" by simp
  then have "toast_id x \<noteq> toast_id ?l" if "x \<in> set ?b" for x
    using imageI [OF that, of toast_id] by metis
  then have "filter (\<lambda>x. toast_id x \<noteq> toast_id ?l) (?b @ [?l]) = ?b"
    by (simp add: filter_id_conv)
  then show ?thesis using assms(2) sp by (simp add: escape_key_def)
qed

lemma error_stays: "opt_duration opts = None \<Longrightarrow>
    \<forall>tt \<in> set (toasts (snd (add Error msg opts s))) - set (toasts s). times_out tt = None"
proof -
  have "set (capQueue ts) \<subseteq> set ts" for ts :: "'a Toast list"
    using capQueue_subseq [of ts] by (auto dest: list_emb_set)
  then show "opt_duration opts = None \<Longrightarrow> ?thesis"
    by (fastforce simp: add_def Let_def times_out_def split: option.splits
        dest: set_update_subset_insert [THEN subsetD])
qed

subsection \<open>Properties\<close>

text \<open>
  A list never falls back to older data: after the effect ran again (the refresh key
  changed), replies to earlier requests change neither the value nor the error shown, in
  whatever order they arrive, and the reply to the new request is shown.
\<close>

theorem latest_load_wins:
  assumes "list_all (\<lambda>e. \<exists>tok r. e = Reply tok r \<and> tok \<noteq> ft_token s + 1) es"
    and "s = fetch_exec es0 (fetch_init v0)"
  shows "ft_value (fetch_exec es (fetch_run s)) = ft_value s \<and>
    ft_error (fetch_exec es (fetch_run s)) = ft_error s \<and>
    ft_value (fetch_step (Reply (ft_token s + 1) (Inr v)) (fetch_run s)) = Some v"
proof -
  have "fetch_inv s"
    unfolding assms(2) by (rule fetch_exec_inv) (simp add: fetch_inv_def fetch_init_def)
  with old_replies [OF this assms(1)] new_reply [OF this, of v] show ?thesis by (simp only: simp_thms)
qed

theorem latest_load_wins_witness:
  "ft_value (fetch_exec [Reply 1 (Inr [2])] (fetch_run (fetch_run (fetch_init (Some [1::nat]))))) = Some [1]"
  using latest_load_wins [of "fetch_run (fetch_init (Some [1::nat]))" "[Reply 1 (Inr [2])]" "[Rerun]" "Some [1]" "[]"]
  by (simp add: fetch_exec_def fetch_init_def fetch_run_def)

text \<open>
  The usage figures are proportions: the cache hit rate lies between 0 and 1, and every
  bar of the daily costs between 0 and 100 percent, one bar per day in the order of the days.
\<close>

theorem usage_proportions:
  assumes "0 \<le> input_tokens u" and "0 \<le> cache_creation_input_tokens u" and "0 \<le> cache_read_input_tokens u"
    and "daily_bars days = Some bars" and "list_all (\<lambda>d. 0 \<le> ud_cost_usd d) days"
  shows "0 \<le> cacheHitRate u \<and> cacheHitRate u \<le> 1 \<and> map fst bars = map ud_date days \<and>
    (\<forall>(day, pct) \<in> set bars. 0 \<le> pct \<and> pct \<le> 100)"
  using cacheHitRate_bounds [OF assms(1-3)] daily_bars_bounds [OF assms(4)] assms(5)
  by (auto simp: list_all_iff)

theorem usage_proportions_witness:
  "0 \<le> cacheHitRate \<lparr>cost_usd = 1, input_tokens = 1, cache_creation_input_tokens = 1,
     cache_read_input_tokens = 2, output_tokens = 1, calls = 1\<rparr>"
proof -
  have "daily_bars [\<lparr>ud_date = [], ud_cost_usd = 2, ud_calls = 1\<rparr>] = Some [([], 100)]"
    by (simp add: daily_bars_def max_cost_def)
  from usage_proportions [OF _ _ _ this] show ?thesis by simp
qed

text \<open>
  Escape removes the newest toast and no other, from a queue with distinct ids as every
  sequence of operations leaves it.
\<close>

theorem escape_dismisses_newest:
  assumes "toasts (toast_store.run ops init_toasts) \<noteq> []"
  shows "toasts (escape_key (toast_store.run ops init_toasts)) = butlast (toasts (toast_store.run ops init_toasts))"
proof -
  have "toast_inv (toast_store.run ops s)" if "toast_inv s" for s :: "'a toast_state"
    using that by (induction ops arbitrary: s) (simp_all add: step_toast_inv)
  then show ?thesis using assms init_toast_inv by (intro escape_removes_last)
qed

theorem escape_dismisses_newest_witness:
  "toasts (escape_key (toast_store.run [Add Info [97] no_opts, Add Error [98] no_opts] (init_toasts :: unit toast_state)))
     = butlast (toasts (toast_store.run [Add Info [97] no_opts, Add Error [98] no_opts] init_toasts))"
  by (rule escape_dismisses_newest)
    (simp add: add_def init_toasts_def no_opts_def capQueue_def MAX_VISIBLE_def Let_def dec.simps)

end
