(* ===== verification/Texts.thy ===== *)
theory Texts
  imports Html
begin

text \<open>
  The texts without tokens, by the groups of the dictionary, and those with tokens, given values
  for all of them: each is complete in every language. The views' proofs use these facts for
  the keys they show.
\<close>

named_theorems text_keys \<open>completeness of the keys\<close>

subsection \<open>Comparing literals\<close>

lemma neq_tail: "cs \<noteq> ds \<Longrightarrow> c # cs \<noteq> c # ds" by simp
lemma neq_head: "c \<noteq> d \<Longrightarrow> c # cs \<noteq> d # ds" by simp
lemma neq_nil: "[] \<noteq> d # ds" "d # ds \<noteq> []" by simp_all
lemma notin_Cons: "k \<noteq> x \<Longrightarrow> k \<notin> set xs \<Longrightarrow> k \<notin> set (x # xs)" by simp
lemma notin_Nil: "k \<notin> set []" by simp

lemma plain_text:
  "js k \<in> set (map fst d) \<Longrightarrow> fst ` set d \<subseteq> fst ` set en_dict \<Longrightarrow> k \<notin> set (map fst token_table) \<Longrightarrow>
    complete (Key (js k))"
  by (rule complete_KeyI) auto

lemma filled_text:
  assumes "(k, ts) \<in> set token_table" and "distinct (map fst token_table)" and "js k \<in> set (map fst d)"
    and "fst ` set d \<subseteq> fst ` set en_dict" and "js ` set ts \<subseteq> fst ` set ps"
  shows "complete (KeyWith (js k) ps)"
proof (rule complete_KeyWithI)
  show "js k \<in> fst ` set en_dict" using assms(3,4) by auto
  have "us = ts" if "(k, us) \<in> set token_table" for us
    by (rule eq_key_imp_eq_value [OF assms(2) that assms(1)])
  then show "list_all (\<lambda>(n, ts). n = k \<longrightarrow> js ` set ts \<subseteq> fst ` set ps) token_table"
    using assms(5) unfolding list_all_iff by blast
qed

lemmas notin_intros = notin_Cons notin_Nil

lemma token_keys_distinct: "distinct (map fst token_table)"
  unfolding token_table_def list.map fst_conv distinct.simps
  by (intro conjI TrueI; ((rule notin_Cons, ((rule neq_tail)+)?, ((rule neq_head, simp; fail) | rule neq_nil))+)?, rule notin_Nil)

subsection \<open>The groups\<close>

lemma plain_home [text_keys]:
  "complete (Key (js ''home.title''))"
  "complete (Key (js ''home.subtitle''))"
  "complete (Key (js ''home.plan_new''))"
  "complete (Key (js ''home.plan_first''))"
  "complete (Key (js ''home.your_weeks''))"
  "complete (Key (js ''home.empty_title''))"
  "complete (Key (js ''home.empty_body''))"
  "complete (Key (js ''home.loop_step_plan''))"
  "complete (Key (js ''home.loop_step_cart''))"
  "complete (Key (js ''home.loop_step_order''))"
  "complete (Key (js ''home.loop_step_retro''))"
  by - (rule plain_text [OF _ group_keys(1), unfolded en_home_def token_table_def list.map fst_conv],
     ((rule list.set_intros(1) | rule list.set_intros(2))+),
     ((rule notin_Cons, ((rule neq_tail)+)?, ((rule neq_head, simp; fail) | rule neq_nil))+, rule notin_Nil))+

lemma plain_top_bar [text_keys]:
  "complete (Key (js ''topbar.brand_home''))"
  "complete (Key (js ''topbar.working''))"
  "complete (Key (js ''topbar.stop''))"
  "complete (Key (js ''topbar.refresh''))"
  "complete (Key (js ''topbar.settings''))"
  "complete (Key (js ''topbar.open_chat''))"
  "complete (Key (js ''topbar.close_chat''))"
  by - (rule plain_text [OF _ group_keys(2), unfolded en_top_bar_def token_table_def list.map fst_conv],
     ((rule list.set_intros(1) | rule list.set_intros(2))+),
     ((rule notin_Cons, ((rule neq_tail)+)?, ((rule neq_head, simp; fail) | rule neq_nil))+, rule notin_Nil))+

lemma plain_plan_new_form [text_keys]:
  "complete (Key (js ''plan.title''))"
  "complete (Key (js ''plan.subtitle''))"
  "complete (Key (js ''plan.start_date''))"
  "complete (Key (js ''plan.num_dinners''))"
  "complete (Key (js ''plan.notes''))"
  "complete (Key (js ''plan.notes_hint''))"
  "complete (Key (js ''plan.notes_placeholder''))"
  "complete (Key (js ''plan.submit''))"
  "complete (Key (js ''plan.submitting''))"
  "complete (Key (js ''plan.cancel''))"
  by - (rule plain_text [OF _ group_keys(3), unfolded en_plan_new_form_def token_table_def list.map fst_conv],
     ((rule list.set_intros(1) | rule list.set_intros(2))+),
     ((rule notin_Cons, ((rule neq_tail)+)?, ((rule neq_head, simp; fail) | rule neq_nil))+, rule notin_Nil))+

lemma plain_week_view [text_keys]:
  "complete (Key (js ''week.add_dinner''))"
  "complete (Key (js ''week.regenerate''))"
  "complete (Key (js ''week.print''))"
  "complete (Key (js ''week.notes_label''))"
  "complete (Key (js ''week.notes_placeholder''))"
  "complete (Key (js ''print.preview_hint''))"
  "complete (Key (js ''print.print_button''))"
  "complete (Key (js ''print.overview''))"
  "complete (Key (js ''print.day''))"
  "complete (Key (js ''print.dinner''))"
  "complete (Key (js ''print.pers''))"
  "complete (Key (js ''print.source''))"
  "complete (Key (js ''week.no_dinners''))"
  "complete (Key (js ''week.plan_dinners''))"
  "complete (Key (js ''week.this_week''))"
  "complete (Key (js ''week.retrospective''))"
  "complete (Key (js ''week.clone_next''))"
  by - (rule plain_text [OF _ group_keys(4), unfolded en_week_view_def token_table_def list.map fst_conv],
     ((rule list.set_intros(1) | rule list.set_intros(2))+),
     ((rule notin_Cons, ((rule neq_tail)+)?, ((rule neq_head, simp; fail) | rule neq_nil))+, rule notin_Nil))+

lemma plain_dinner_card [text_keys]:
  "complete (Key (js ''dinner.adjust''))"
  "complete (Key (js ''dinner.adjust_placeholder''))"
  "complete (Key (js ''dinner.adjust_hint''))"
  "complete (Key (js ''dinner.adjust_send''))"
  "complete (Key (js ''dinner.adjust_cancel''))"
  "complete (Key (js ''dinner.recipe''))"
  "complete (Key (js ''dinner.servings''))"
  "complete (Key (js ''dinner.untitled''))"
  by - (rule plain_text [OF _ group_keys(5), unfolded en_dinner_card_def token_table_def list.map fst_conv],
     ((rule list.set_intros(1) | rule list.set_intros(2))+),
     ((rule notin_Cons, ((rule neq_tail)+)?, ((rule neq_head, simp; fail) | rule neq_nil))+, rule notin_Nil))+

lemma plain_status_labels [text_keys]:
  "complete (Key (js ''status.draft''))"
  "complete (Key (js ''status.cart_built''))"
  "complete (Key (js ''status.ordered''))"
  by - (rule plain_text [OF _ group_keys(7), unfolded en_status_labels_def token_table_def list.map fst_conv],
     ((rule list.set_intros(1) | rule list.set_intros(2))+),
     ((rule notin_Cons, ((rule neq_tail)+)?, ((rule neq_head, simp; fail) | rule neq_nil))+, rule notin_Nil))+

lemma plain_settings_modal [text_keys]:
  "complete (Key (js ''settings.title''))"
  "complete (Key (js ''settings.language''))"
  "complete (Key (js ''settings.language_sv''))"
  "complete (Key (js ''settings.language_en''))"
  "complete (Key (js ''settings.delivery_weekday''))"
  "complete (Key (js ''settings.delivery_weekday_hint''))"
  "complete (Key (js ''settings.order_offset''))"
  "complete (Key (js ''settings.order_offset_hint''))"
  "complete (Key (js ''settings.num_dinners''))"
  "complete (Key (js ''settings.num_dinners_hint''))"
  "complete (Key (js ''settings.default_servings''))"
  "complete (Key (js ''settings.default_servings_hint''))"
  "complete (Key (js ''settings.notes''))"
  "complete (Key (js ''settings.save''))"
  "complete (Key (js ''settings.saving''))"
  "complete (Key (js ''settings.loading''))"
  "complete (Key (js ''settings.close''))"
  "complete (Key (js ''settings.theme''))"
  "complete (Key (js ''settings.theme_system''))"
  "complete (Key (js ''settings.theme_light''))"
  "complete (Key (js ''settings.theme_dark''))"
  "complete (Key (js ''topbar.theme''))"
  by - (rule plain_text [OF _ group_keys(8), unfolded en_settings_modal_def token_table_def list.map fst_conv],
     ((rule list.set_intros(1) | rule list.set_intros(2))+),
     ((rule notin_Cons, ((rule neq_tail)+)?, ((rule neq_head, simp; fail) | rule neq_nil))+, rule notin_Nil))+

lemma plain_weekdays [text_keys]:
  "complete (Key (js ''weekday.monday''))"
  "complete (Key (js ''weekday.tuesday''))"
  "complete (Key (js ''weekday.wednesday''))"
  "complete (Key (js ''weekday.thursday''))"
  "complete (Key (js ''weekday.friday''))"
  "complete (Key (js ''weekday.saturday''))"
  "complete (Key (js ''weekday.sunday''))"
  by - (rule plain_text [OF _ group_keys(9), unfolded en_weekdays_def token_table_def list.map fst_conv],
     ((rule list.set_intros(1) | rule list.set_intros(2))+),
     ((rule notin_Cons, ((rule neq_tail)+)?, ((rule neq_head, simp; fail) | rule neq_nil))+, rule notin_Nil))+

lemma plain_chat [text_keys]:
  "complete (Key (js ''chat.title''))"
  "complete (Key (js ''chat.placeholder''))"
  "complete (Key (js ''chat.send''))"
  "complete (Key (js ''chat.thinking''))"
  "complete (Key (js ''chat.deliberating.pondering''))"
  "complete (Key (js ''chat.deliberating.simmering''))"
  "complete (Key (js ''chat.deliberating.tasting''))"
  "complete (Key (js ''chat.deliberating.chopping''))"
  "complete (Key (js ''chat.deliberating.plating''))"
  "complete (Key (js ''chat.deliberating.cookbook''))"
  "complete (Key (js ''chat.deliberating.marinating''))"
  "complete (Key (js ''chat.deliberating.whisking''))"
  "complete (Key (js ''chat.deliberating.browning''))"
  "complete (Key (js ''chat.deliberating.pantry''))"
  "complete (Key (js ''chat.deliberating.kneading''))"
  "complete (Key (js ''chat.deliberating.garnishing''))"
  "complete (Key (js ''chat.deliberating.watched_pot''))"
  "complete (Key (js ''chat.cancelled''))"
  "complete (Key (js ''chat.clear''))"
  "complete (Key (js ''chat.clear_confirm''))"
  "complete (Key (js ''chat.empty''))"
  by - (rule plain_text [OF _ group_keys(10), unfolded en_chat_def token_table_def list.map fst_conv],
     ((rule list.set_intros(1) | rule list.set_intros(2))+),
     ((rule notin_Cons, ((rule neq_tail)+)?, ((rule neq_head, simp; fail) | rule neq_nil))+, rule notin_Nil))+

lemma plain_calendar_popup [text_keys]:
  "complete (Key (js ''calendar.today''))"
  "complete (Key (js ''calendar.clear''))"
  "complete (Key (js ''calendar.prev_month''))"
  "complete (Key (js ''calendar.next_month''))"
  "complete (Key (js ''topbar.preferences''))"
  by - (rule plain_text [OF _ group_keys(11), unfolded en_calendar_popup_def token_table_def list.map fst_conv],
     ((rule list.set_intros(1) | rule list.set_intros(2))+),
     ((rule notin_Cons, ((rule neq_tail)+)?, ((rule neq_head, simp; fail) | rule neq_nil))+, rule notin_Nil))+

lemma plain_sidebar [text_keys]:
  "complete (Key (js ''sidebar.history''))"
  "complete (Key (js ''sidebar.current''))"
  "complete (Key (js ''sidebar.empty''))"
  "complete (Key (js ''sidebar.dinners_short''))"
  "complete (Key (js ''sidebar.new_week''))"
  "complete (Key (js ''sidebar.new_week_title''))"
  "complete (Key (js ''sidebar.duplicate''))"
  "complete (Key (js ''sidebar.delete''))"
  "complete (Key (js ''sidebar.delete_confirm''))"
  by - (rule plain_text [OF _ group_keys(12), unfolded en_sidebar_def token_table_def list.map fst_conv],
     ((rule list.set_intros(1) | rule list.set_intros(2))+),
     ((rule notin_Cons, ((rule neq_tail)+)?, ((rule neq_head, simp; fail) | rule neq_nil))+, rule notin_Nil))+

lemma plain_duplicate_plan_dialog [text_keys]:
  "complete (Key (js ''duplicate.title''))"
  "complete (Key (js ''duplicate.source_prefix''))"
  "complete (Key (js ''duplicate.start_date''))"
  "complete (Key (js ''duplicate.new_period_prefix''))"
  "complete (Key (js ''duplicate.confirm''))"
  "complete (Key (js ''duplicate.cancel''))"
  "complete (Key (js ''duplicate.close''))"
  "complete (Key (js ''duplicate.submitting''))"
  by - (rule plain_text [OF _ group_keys(13), unfolded en_duplicate_plan_dialog_def token_table_def list.map fst_conv],
     ((rule list.set_intros(1) | rule list.set_intros(2))+),
     ((rule notin_Cons, ((rule neq_tail)+)?, ((rule neq_head, simp; fail) | rule neq_nil))+, rule notin_Nil))+

lemma plain_lifecycle [text_keys]:
  "complete (Key (js ''lifecycle.current''))"
  "complete (Key (js ''lifecycle.build_cart''))"
  "complete (Key (js ''lifecycle.mark_cart_built''))"
  "complete (Key (js ''lifecycle.mark_ordered''))"
  "complete (Key (js ''lifecycle.record_retrospective''))"
  "complete (Key (js ''lifecycle.open_willys''))"
  "complete (Key (js ''lifecycle.set_status''))"
  by - (rule plain_text [OF _ group_keys(14), unfolded en_lifecycle_def token_table_def list.map fst_conv],
     ((rule list.set_intros(1) | rule list.set_intros(2))+),
     ((rule notin_Cons, ((rule neq_tail)+)?, ((rule neq_head, simp; fail) | rule neq_nil))+, rule notin_Nil))+

lemma plain_cart_section [text_keys]:
  "complete (Key (js ''cart.title''))"
  "complete (Key (js ''cart.code''))"
  "complete (Key (js ''cart.product''))"
  "complete (Key (js ''cart.qty''))"
  "complete (Key (js ''cart.price''))"
  "complete (Key (js ''cart.reason''))"
  by - (rule plain_text [OF _ group_keys(15), unfolded en_cart_section_def token_table_def list.map fst_conv],
     ((rule list.set_intros(1) | rule list.set_intros(2))+),
     ((rule notin_Cons, ((rule neq_tail)+)?, ((rule neq_head, simp; fail) | rule neq_nil))+, rule notin_Nil))+

lemma plain_preferences_modal [text_keys]:
  "complete (Key (js ''prefs.title''))"
  "complete (Key (js ''prefs.subtitle''))"
  "complete (Key (js ''prefs.pick_one''))"
  "complete (Key (js ''prefs.new_category''))"
  "complete (Key (js ''prefs.delete''))"
  by - (rule plain_text [OF _ group_keys(16), unfolded en_preferences_modal_def token_table_def list.map fst_conv],
     ((rule list.set_intros(1) | rule list.set_intros(2))+),
     ((rule notin_Cons, ((rule neq_tail)+)?, ((rule neq_head, simp; fail) | rule neq_nil))+, rule notin_Nil))+

lemma plain_integrations [text_keys]:
  "complete (Key (js ''integrations.title''))"
  "complete (Key (js ''integrations.subtitle''))"
  "complete (Key (js ''integrations.enabled''))"
  "complete (Key (js ''integrations.category_llm''))"
  "complete (Key (js ''integrations.category_shopping''))"
  "complete (Key (js ''integrations.secret_set_hint''))"
  by - (rule plain_text [OF _ group_keys(17), unfolded en_integrations_def token_table_def list.map fst_conv],
     ((rule list.set_intros(1) | rule list.set_intros(2))+),
     ((rule notin_Cons, ((rule neq_tail)+)?, ((rule neq_head, simp; fail) | rule neq_nil))+, rule notin_Nil))+

lemma plain_provider_fields [text_keys]:
  "complete (Key (js ''provider.api_key''))"
  "complete (Key (js ''provider.model''))"
  "complete (Key (js ''provider.password''))"
  "complete (Key (js ''provider.anthropic.name''))"
  "complete (Key (js ''provider.anthropic.model_hint''))"
  "complete (Key (js ''provider.anthropic.haiku''))"
  "complete (Key (js ''provider.anthropic.sonnet''))"
  "complete (Key (js ''provider.anthropic.opus''))"
  "complete (Key (js ''provider.openai.name''))"
  "complete (Key (js ''provider.openai.model_hint''))"
  "complete (Key (js ''provider.openai_compat.name''))"
  "complete (Key (js ''provider.openai_compat.base_url''))"
  "complete (Key (js ''provider.openai_compat.base_url_hint''))"
  "complete (Key (js ''provider.openai_compat.api_key_hint''))"
  "complete (Key (js ''provider.openai_compat.model_hint''))"
  "complete (Key (js ''provider.willys.username''))"
  "complete (Key (js ''provider.test''))"
  "complete (Key (js ''provider.testing''))"
  "complete (Key (js ''provider.test_unknown_error''))"
  by - (rule plain_text [OF _ group_keys(18), unfolded en_provider_fields_def token_table_def list.map fst_conv],
     ((rule list.set_intros(1) | rule list.set_intros(2))+),
     ((rule notin_Cons, ((rule neq_tail)+)?, ((rule neq_head, simp; fail) | rule neq_nil))+, rule notin_Nil))+

lemma plain_preferences_modal_new_body_placeholder [text_keys]:
  "complete (Key (js ''prefs.new_category_placeholder''))"
  "complete (Key (js ''prefs.body_placeholder''))"
  by - (rule plain_text [OF _ group_keys(19), unfolded en_preferences_modal_new_body_placeholder_def token_table_def list.map fst_conv],
     ((rule list.set_intros(1) | rule list.set_intros(2))+),
     ((rule notin_Cons, ((rule neq_tail)+)?, ((rule neq_head, simp; fail) | rule neq_nil))+, rule notin_Nil))+

lemma plain_print_preview [text_keys]:
  "complete (Key (js ''print.loading''))"
  by - (rule plain_text [OF _ group_keys(20), unfolded en_print_preview_def token_table_def list.map fst_conv],
     ((rule list.set_intros(1) | rule list.set_intros(2))+),
     ((rule notin_Cons, ((rule neq_tail)+)?, ((rule neq_head, simp; fail) | rule neq_nil))+, rule notin_Nil))+

lemma plain_chat_drawer_aria_label [text_keys]:
  "complete (Key (js ''chat.aria''))"
  by - (rule plain_text [OF _ group_keys(21), unfolded en_chat_drawer_aria_label_def token_table_def list.map fst_conv],
     ((rule list.set_intros(1) | rule list.set_intros(2))+),
     ((rule notin_Cons, ((rule neq_tail)+)?, ((rule neq_head, simp; fail) | rule neq_nil))+, rule notin_Nil))+

lemma plain_toast_notifications [text_keys]:
  "complete (Key (js ''toast.dismiss''))"
  "complete (Key (js ''toast.retry''))"
  "complete (Key (js ''toast.save_failed''))"
  "complete (Key (js ''toast.save_failed_retrying''))"
  "complete (Key (js ''toast.changes_saved''))"
  "complete (Key (js ''toast.week_deleted''))"
  "complete (Key (js ''toast.network_error''))"
  "complete (Key (js ''toast.unsaved_changes''))"
  by - (rule plain_text [OF _ group_keys(22), unfolded en_toast_notifications_def token_table_def list.map fst_conv],
     ((rule list.set_intros(1) | rule list.set_intros(2))+),
     ((rule notin_Cons, ((rule neq_tail)+)?, ((rule neq_head, simp; fail) | rule neq_nil))+, rule notin_Nil))+

lemma plain_per_dinner_rating [text_keys]:
  "complete (Key (js ''rating.how_was_it''))"
  "complete (Key (js ''rating.your_verdict''))"
  "complete (Key (js ''rating.loved''))"
  "complete (Key (js ''rating.liked''))"
  "complete (Key (js ''rating.meh''))"
  "complete (Key (js ''rating.disliked''))"
  "complete (Key (js ''rating.clear''))"
  "complete (Key (js ''rating.notes_placeholder''))"
  by - (rule plain_text [OF _ group_keys(23), unfolded en_per_dinner_rating_def token_table_def list.map fst_conv],
     ((rule list.set_intros(1) | rule list.set_intros(2))+),
     ((rule notin_Cons, ((rule neq_tail)+)?, ((rule neq_head, simp; fail) | rule neq_nil))+, rule notin_Nil))+

lemma plain_week_level_retrospective [text_keys]:
  "complete (Key (js ''retro.hint''))"
  "complete (Key (js ''retro.placeholder''))"
  by - (rule plain_text [OF _ group_keys(24), unfolded en_week_level_retrospective_def token_table_def list.map fst_conv],
     ((rule list.set_intros(1) | rule list.set_intros(2))+),
     ((rule notin_Cons, ((rule neq_tail)+)?, ((rule neq_head, simp; fail) | rule neq_nil))+, rule notin_Nil))+

lemma plain_usage [text_keys]:
  "complete (Key (js ''usage.title''))"
  "complete (Key (js ''usage.subtitle''))"
  "complete (Key (js ''usage.close''))"
  "complete (Key (js ''usage.loading''))"
  "complete (Key (js ''usage.empty''))"
  "complete (Key (js ''usage.total_cost''))"
  "complete (Key (js ''usage.total_calls''))"
  "complete (Key (js ''usage.total_input''))"
  "complete (Key (js ''usage.total_output''))"
  "complete (Key (js ''usage.total_cache_write''))"
  "complete (Key (js ''usage.total_cache_read''))"
  "complete (Key (js ''usage.cache_hit_rate''))"
  "complete (Key (js ''usage.cache_hit_hint''))"
  "complete (Key (js ''usage.by_model''))"
  "complete (Key (js ''usage.by_week''))"
  "complete (Key (js ''usage.by_day''))"
  "complete (Key (js ''usage.recent_conversations''))"
  "complete (Key (js ''usage.col.model''))"
  "complete (Key (js ''usage.col.calls''))"
  "complete (Key (js ''usage.col.cost''))"
  "complete (Key (js ''usage.col.input''))"
  "complete (Key (js ''usage.col.cache_write''))"
  "complete (Key (js ''usage.col.cache_read''))"
  "complete (Key (js ''usage.col.output''))"
  "complete (Key (js ''usage.col.plan''))"
  "complete (Key (js ''usage.col.conversation''))"
  "complete (Key (js ''usage.col.date''))"
  "complete (Key (js ''usage.open''))"
  by - (rule plain_text [OF _ group_keys(25), unfolded en_usage_def token_table_def list.map fst_conv],
     ((rule list.set_intros(1) | rule list.set_intros(2))+),
     ((rule notin_Cons, ((rule neq_tail)+)?, ((rule neq_head, simp; fail) | rule neq_nil))+, rule notin_Nil))+

lemma plain_backups [text_keys]:
  "complete (Key (js ''backups.title''))"
  "complete (Key (js ''backups.subtitle''))"
  "complete (Key (js ''backups.nightly''))"
  "complete (Key (js ''backups.nightly_hint''))"
  "complete (Key (js ''backups.nightly_disabled''))"
  "complete (Key (js ''backups.keep''))"
  "complete (Key (js ''backups.keep_unit''))"
  "complete (Key (js ''backups.take_now''))"
  "complete (Key (js ''backups.taking''))"
  "complete (Key (js ''backups.empty''))"
  "complete (Key (js ''backups.col.taken''))"
  "complete (Key (js ''backups.col.reason''))"
  "complete (Key (js ''backups.col.size''))"
  "complete (Key (js ''backups.reason.pre-migration''))"
  "complete (Key (js ''backups.reason.manual''))"
  "complete (Key (js ''backups.reason.nightly''))"
  "complete (Key (js ''backups.download''))"
  "complete (Key (js ''backups.delete''))"
  "complete (Key (js ''backups.delete_confirm''))"
  "complete (Key (js ''backups.restore_hint''))"
  by - (rule plain_text [OF _ group_keys(26), unfolded en_backups_def token_table_def list.map fst_conv],
     ((rule list.set_intros(1) | rule list.set_intros(2))+),
     ((rule notin_Cons, ((rule neq_tail)+)?, ((rule neq_head, simp; fail) | rule neq_nil))+, rule notin_Nil))+

lemma plain_update [text_keys]:
  "complete (Key (js ''update.notes''))"
  "complete (Key (js ''update.compare''))"
  "complete (Key (js ''update.copy_command''))"
  "complete (Key (js ''update.copied''))"
  "complete (Key (js ''update.dismiss''))"
  "complete (Key (js ''update.apply''))"
  "complete (Key (js ''update.applying''))"
  "complete (Key (js ''update.waiting''))"
  "complete (Key (js ''update.apply_timeout''))"
  "complete (Key (js ''update.section_title''))"
  "complete (Key (js ''update.section_subtitle''))"
  "complete (Key (js ''update.auto_label''))"
  "complete (Key (js ''update.auto_hint''))"
  "complete (Key (js ''update.auto_unavailable''))"
  "complete (Key (js ''update.check_now''))"
  "complete (Key (js ''update.checking''))"
  by - (rule plain_text [OF _ group_keys(27), unfolded en_update_def token_table_def list.map fst_conv],
     ((rule list.set_intros(1) | rule list.set_intros(2))+),
     ((rule notin_Cons, ((rule neq_tail)+)?, ((rule neq_head, simp; fail) | rule neq_nil))+, rule notin_Nil))+

lemma plain_setup [text_keys]:
  "complete (Key (js ''setup.welcome_title''))"
  "complete (Key (js ''setup.welcome_body''))"
  "complete (Key (js ''setup.lan_warning_title''))"
  "complete (Key (js ''setup.lan_warning_body''))"
  "complete (Key (js ''setup.next''))"
  "complete (Key (js ''setup.back''))"
  "complete (Key (js ''setup.skip''))"
  "complete (Key (js ''setup.finish''))"
  "complete (Key (js ''setup.api_key_title''))"
  "complete (Key (js ''setup.api_key_body''))"
  "complete (Key (js ''setup.api_key_placeholder''))"
  "complete (Key (js ''setup.api_key_help''))"
  "complete (Key (js ''setup.api_key_save''))"
  "complete (Key (js ''setup.api_key_saving''))"
  "complete (Key (js ''setup.seed_title''))"
  "complete (Key (js ''setup.seed_body''))"
  "complete (Key (js ''setup.seed_button''))"
  "complete (Key (js ''setup.seed_seeding''))"
  by - (rule plain_text [OF _ group_keys(28), unfolded en_setup_def token_table_def list.map fst_conv],
     ((rule list.set_intros(1) | rule list.set_intros(2))+),
     ((rule notin_Cons, ((rule neq_tail)+)?, ((rule neq_head, simp; fail) | rule neq_nil))+, rule notin_Nil))+

subsection \<open>Texts with tokens\<close>

lemma filled_plan_new_form [text_keys]:
  "complete (KeyWith (js ''plan.menu_runs_through'') [(js ''end'', a)])"
  by - (rule filled_text [OF _ token_keys_distinct _ group_keys(3), unfolded en_plan_new_form_def token_table_def list.map fst_conv],
     ((rule list.set_intros(1) | rule list.set_intros(2))+), simp)+

lemma filled_week_view [text_keys]:
  "complete (KeyWith (js ''week.set_label'') [(js ''label'', a)])"
  "complete (KeyWith (js ''week.edit_label'') [(js ''label'', a)])"
  "complete (KeyWith (js ''week.truncate_confirm'') [(js ''count'', a)])"
  "complete (KeyWith (js ''week.unlock_confirm'') [(js ''target'', a)])"
  "complete (KeyWith (js ''week.locked_hint'') [(js ''status'', a)])"
  "complete (KeyWith (js ''week.add_dinner_prompt'') [(js ''start'', a), (js ''end'', b)])"
  "complete (KeyWith (js ''week.regenerate_prompt'') [(js ''start'', a), (js ''end'', b)])"
  "complete (KeyWith (js ''week.plan_dinners_prompt'') [(js ''start'', a), (js ''end'', b)])"
  by - (rule filled_text [OF _ token_keys_distinct _ group_keys(4), unfolded en_week_view_def token_table_def list.map fst_conv],
     ((rule list.set_intros(1) | rule list.set_intros(2))+), simp)+

lemma filled_dinner_card [text_keys]:
  "complete (KeyWith (js ''dinner.adjust_prompt'') [(js ''date'', a), (js ''id'', b), (js ''name'', c), (js ''request'', d)])"
  by - (rule filled_text [OF _ token_keys_distinct _ group_keys(5), unfolded en_dinner_card_def token_table_def list.map fst_conv],
     ((rule list.set_intros(1) | rule list.set_intros(2))+), simp)+

lemma filled_editable_placeholders [text_keys]:
  "complete (KeyWith (js ''editable.add_label'') [(js ''label'', a)])"
  by - (rule filled_text [OF _ token_keys_distinct _ group_keys(6), unfolded en_editable_placeholders_def token_table_def list.map fst_conv],
     ((rule list.set_intros(1) | rule list.set_intros(2))+), simp)+

lemma filled_lifecycle [text_keys]:
  "complete (KeyWith (js ''lifecycle.build_cart_prompt'') [(js ''start'', a), (js ''end'', b)])"
  "complete (KeyWith (js ''lifecycle.retrospective_prompt'') [(js ''start'', a), (js ''end'', b)])"
  by - (rule filled_text [OF _ token_keys_distinct _ group_keys(14), unfolded en_lifecycle_def token_table_def list.map fst_conv],
     ((rule list.set_intros(1) | rule list.set_intros(2))+), simp)+

lemma filled_preferences_modal [text_keys]:
  "complete (KeyWith (js ''prefs.confirm_delete'') [(js ''category'', a)])"
  by - (rule filled_text [OF _ token_keys_distinct _ group_keys(16), unfolded en_preferences_modal_def token_table_def list.map fst_conv],
     ((rule list.set_intros(1) | rule list.set_intros(2))+), simp)+

lemma filled_update [text_keys]:
  "complete (KeyWith (js ''update.available'') [(js ''version'', a)])"
  "complete (KeyWith (js ''update.success'') [(js ''from'', a), (js ''to'', b)])"
  "complete (KeyWith (js ''update.up_to_date'') [(js ''version'', a)])"
  "complete (KeyWith (js ''update.found'') [(js ''version'', a)])"
  by - (rule filled_text [OF _ token_keys_distinct _ group_keys(27), unfolded en_update_def token_table_def list.map fst_conv],
     ((rule list.set_intros(1) | rule list.set_intros(2))+), simp)+

lemma filled_setup [text_keys]:
  "complete (KeyWith (js ''setup.step'') [(js ''n'', a), (js ''total'', b)])"
  "complete (KeyWith (js ''setup.seed_done'') [(js ''n'', a)])"
  by - (rule filled_text [OF _ token_keys_distinct _ group_keys(28), unfolded en_setup_def token_table_def list.map fst_conv],
     ((rule list.set_intros(1) | rule list.set_intros(2))+), simp)+

end
