(* ===== verification/ChatView.thy ===== *)
theory ChatView
  imports Chat Texts MarkdownText
begin

text \<open>
  What web/src/components/ChatDrawer.tsx renders: the chat panel with its transcript, the
  indicator shown while the agent thinks, the chip with the model's name and the input. The
  events of the panel are those of its handlers. \<open>pretty\<close> is \<open>prettyJSON\<close>, \<open>upper\<close> and
  \<open>lower\<close> are the Unicode case mappings.
\<close>

datatype chat_ui = TypeMessage jstr | SubmitMessage | ClearChat | CloseChat

subsection \<open>Entries\<close>

fun mark_text :: "ToolMark \<Rightarrow> jstr" where
  "mark_text MarkPending = [10251]"
| "mark_text MarkFailed = [10007]"
| "mark_text MarkDone = [10003]"

definition tool_class :: "bool option \<Rightarrow> jstr" where
  "tool_class isErr = 
     (if isErr = Some True then js ''border-red-200 bg-red-50 dark:border-red-900 dark:bg-red-950/50''
      else js ''border-stone-200 bg-stone-50 dark:border-stone-800 dark:bg-stone-900/50'')"

definition tool_entry :: "(jstr \<Rightarrow> jstr) \<Rightarrow> jstr \<Rightarrow> jstr \<Rightarrow> jstr option \<Rightarrow> bool option \<Rightarrow> 'e node" where
  "tool_entry pretty name inp res isErr =
     El ''details'' [Class (tool_class isErr)]
       ([El ''summary'' [] [Txt [Lit (mark_text (tool_mark res isErr) @ [c_space] @ name)]],
         Txt [Lit (js ''input'')], El ''pre'' [] [Txt [Lit (pretty inp)]]]
        @ shown_opt res (\<lambda>r. [Txt [Lit (js ''result'')], El ''pre'' [] [Txt [Lit r]]]))"

fun entry_view :: "(jstr \<Rightarrow> jstr) \<Rightarrow> (jstr \<Rightarrow> jstr) \<Rightarrow> ChatEntry \<Rightarrow> 'e node list" where
  "entry_view pretty lower (UserEntry s) = [Txt [Lit s]]"
| "entry_view pretty lower (AssistantEntry s) = Markdown lower Compact None s"
| "entry_view pretty lower (ToolEntry n i r e) = [tool_entry pretty n i r e]"
| "entry_view pretty lower (ErrorEntry s) = [Txt [Lit s]]"
| "entry_view pretty lower CancelledEntry = [Txt (tr ''chat.cancelled'')]"

subsection \<open>The indicator and the chip\<close>

definition thinking_phrases :: "jstr list" where
  "thinking_phrases = map (\<lambda>w. js ''chat.deliberating.'' @ js w)
     [''pondering'', ''simmering'', ''tasting'', ''chopping'', ''plating'', ''cookbook'', ''marinating'',
      ''whisking'', ''browning'', ''pantry'', ''kneading'', ''garnishing'', ''watched_pot'']"

definition thinking_indicator :: "nat \<Rightarrow> 'e node" where
  "thinking_indicator idx = El ''div'' [] [Txt [Key (thinking_phrases ! idx), Lit [8230]]]"

definition model_chip :: "(jstr \<Rightarrow> jstr) \<Rightarrow> jstr option \<Rightarrow> 'e node list" where
  "model_chip upper model =
     (case model of
        Some m \<Rightarrow> if truthy m then [El ''span'' [Title [Lit m]] [Txt [Lit (shortModelName upper m)]]] else []
      | None \<Rightarrow> [])"

subsection \<open>The panel\<close>

record chat_panel =
  pn_open :: bool
  pn_busy :: bool
  pn_entries :: "ChatEntry list"
  pn_can_clear :: bool            \<comment> \<open>\<open>onClear\<close> is given\<close>
  pn_input :: jstr
  pn_model :: "jstr option"
  pn_phrase :: nat

definition message_key :: "key_press \<Rightarrow> chat_ui list" where
  "message_key k = (if k_name k = js ''Enter'' \<and> \<not> k_shift k then [SubmitMessage] else [])"

definition chat_header :: "(jstr \<Rightarrow> jstr) \<Rightarrow> chat_panel \<Rightarrow> chat_ui node" where
  "chat_header upper p =
     El ''header'' []
       ([El ''h2'' [] [Txt (tr ''chat.title'')]] @ model_chip upper (pn_model p)
        @ shown_if (shows_clear (pn_can_clear p) (pn_entries p))
            [El ''button'' [OnConfirm (tr ''chat.clear_confirm'') ClearChat None, Disabled (pn_busy p),
                            Title (tr ''chat.clear'')] [Txt (tr ''chat.clear'')]]
        @ [El ''button'' [OnClick CloseChat, Label (tr ''topbar.close_chat'')] []])"

definition chat_body :: "(jstr \<Rightarrow> jstr) \<Rightarrow> (jstr \<Rightarrow> jstr) \<Rightarrow> chat_panel \<Rightarrow> chat_ui node list" where
  "chat_body pretty lower p =
     shown_if (pn_entries p = [] \<and> \<not> pn_busy p) [El ''p'' [] [Txt (tr ''chat.empty'')]]
     @ concat (map (entry_view pretty lower) (pn_entries p))
     @ shown_if (shows_thinking (pn_busy p) (pn_entries p)) [thinking_indicator (pn_phrase p)]"

definition chat_footer :: "chat_panel \<Rightarrow> chat_ui node list" where
  "chat_footer p =
     [El ''textarea'' [Val (pn_input p), OnChange TypeMessage, OnPress message_key,
                       Placeholder (tr ''chat.placeholder''), Disabled (pn_busy p)] [],
      El ''button'' [OnClick SubmitMessage, Disabled (send_disabled (pn_busy p) (pn_input p))]
        [Txt (if pn_busy p then [Lit [8230]] else tr ''chat.send'')]]"

definition chat_drawer ::
    "(jstr \<Rightarrow> jstr) \<Rightarrow> (jstr \<Rightarrow> jstr) \<Rightarrow> (jstr \<Rightarrow> jstr) \<Rightarrow> chat_panel \<Rightarrow> chat_ui node list" where
  "chat_drawer pretty upper lower p =
     shown_if (pn_open p)
       [El ''aside'' [Label (tr ''chat.aria'')]
         (chat_header upper p # chat_body pretty lower p @ chat_footer p)]"

subsection \<open>What the user can do\<close>

lemma entry_inert [simp]: "fires_in i (entry_view pretty lower e) = {}"
  by (cases e) (simp_all add: tool_entry_def split: option.split)

lemma chat_body_inert: "fires_in i (chat_body pretty lower p) = {}"
  using entry_inert by (auto simp: chat_body_def thinking_indicator_def)

lemma header_fires:
  "fires i (chat_header upper p) =
     (if i = Click then {CloseChat} \<union> (if shows_clear (pn_can_clear p) (pn_entries p) \<and> \<not> pn_busy p then {ClearChat} else {})
      else {})"
  by (cases i) (auto simp: chat_header_def model_chip_def split: option.split)

lemma footer_fires:
  "fires_in i (chat_footer p) =
     (case i of
        Click \<Rightarrow> if send_disabled (pn_busy p) (pn_input p) then {} else {SubmitMessage}
      | Change v \<Rightarrow> if pn_busy p then {} else {TypeMessage v}
      | Press k \<Rightarrow> if pn_busy p then {} else set (message_key k)
      | _ \<Rightarrow> {})"
  by (cases i) (auto simp: chat_footer_def)

lemma drawer_fires:
  "fires_in i (chat_drawer pretty upper lower p) =
     (if pn_open p then fires i (chat_header upper p) \<union> fires_in i (chat_footer p) else {})"
  using chat_body_inert [of i pretty lower p] by (auto simp: chat_drawer_def)

subsection \<open>Its texts\<close>

lemma thinking_complete: "idx < 13 \<Longrightarrow> complete (Key (thinking_phrases ! idx))"
proof -
  have "list_all (\<lambda>k. complete (Key k)) thinking_phrases"
    by (simp add: thinking_phrases_def js_append [symmetric] text_keys)
  moreover assume "idx < 13"
  ultimately show ?thesis by (simp add: list_all_length thinking_phrases_def)
qed

lemma entry_complete: "list_all texts_complete (entry_view pretty lower e)"
  by (cases e) (simp_all add: tool_entry_def text_keys split: option.split)

lemma drawer_complete:
  "pn_phrase p < 13 \<Longrightarrow> list_all texts_complete (chat_drawer pretty upper lower p)"
  by (simp add: chat_drawer_def chat_header_def chat_body_def chat_footer_def model_chip_def
      thinking_indicator_def thinking_complete entry_complete text_keys split: option.split)

end
