(* ===== verification/EditView.thy ===== *)
theory EditView
  imports Editable Texts
begin

text \<open>
  What web/src/components/Editable.tsx renders: the date editor with its calendar, and the text
  editor. A session of the text editor is driven by what the rendered control lets the user do
  and by the outcome of its saves. \<open>monthYear\<close> and \<open>weekdays\<close> are the Intl formats
  \<open>formatMonthYear\<close> and \<open>shortWeekdaysMondayFirst\<close>.
\<close>

subsection \<open>The calendar\<close>

datatype date_ui = DateEv date_event | ShiftMonth int

definition cell_class :: "jstr option \<Rightarrow> jstr \<Rightarrow> view_month \<Rightarrow> Cell \<Rightarrow> jstr" where
  "cell_class value todayISO vm c =
     (if Some (cell_iso c) = value
      then js ''bg-stone-900 text-stone-50 hover:bg-stone-800 dark:bg-stone-100 dark:text-stone-900 dark:hover:bg-stone-200''
      else js ''hover:bg-stone-100 dark:hover:bg-stone-700 ''
        @ (if cell_iso c = todayISO then js ''ring-1 ring-inset ring-stone-400 dark:ring-stone-500'' else []) @ [c_space]
        @ (if cell_month c = vm_month vm then js ''text-stone-800 dark:text-stone-100''
           else js ''text-stone-300 dark:text-stone-600''))"

definition day_button :: "jstr option \<Rightarrow> jstr \<Rightarrow> view_month \<Rightarrow> Cell \<Rightarrow> date_ui node" where
  "day_button value todayISO vm c =
     El ''button'' [OnClick (DateEv (DateSelect (Some (cell_iso c)))), Class (cell_class value todayISO vm c)]
       [Txt [Lit (dec_int (cell_day c))]]"

definition calendar_popup ::
    "(int \<Rightarrow> int \<Rightarrow> jstr) \<Rightarrow> jstr list \<Rightarrow> int \<Rightarrow> view_month \<Rightarrow> jstr option \<Rightarrow> bool \<Rightarrow> date_ui node list" where
  "calendar_popup monthYear weekdays now vm value nullable =
     [El ''button'' [OnClick (ShiftMonth (-1)), Label (tr ''calendar.prev_month'')] [Txt [Lit [8249]]],
      Txt [Lit (monthYear (vm_year vm) (vm_month vm))],
      El ''button'' [OnClick (ShiftMonth 1), Label (tr ''calendar.next_month'')] [Txt [Lit [8250]]]]
     @ map (\<lambda>d. Txt [Lit d]) weekdays
     @ map (day_button value (format_iso (Some now)) vm) (buildMonth (vm_year vm) (vm_month vm))
     @ [El ''button'' [OnClick (DateEv (DateSelect (Some (format_iso (Some now)))))] [Txt (tr ''calendar.today'')]]
     @ shown_if nullable
         [El ''button'' [OnClick (DateEv (DateSelect None))] [Txt (tr ''calendar.clear'')]]"

definition editable_date ::
    "(int \<Rightarrow> int \<Rightarrow> jstr) \<Rightarrow> jstr list \<Rightarrow> int \<Rightarrow> jstr \<Rightarrow> bool \<Rightarrow> jstr option \<Rightarrow> date_editor \<Rightarrow> view_month
       \<Rightarrow> date_ui node list" where
  "editable_date monthYear weekdays now lbl nullable value s vm =
     El ''button'' [OnClick (DateEv DateToggle), Disabled (ed_saving s),
                    Label [KeyWith (js ''week.edit_label'') [(js ''label'', lbl)]]]
       [Txt (case value of
               Some v \<Rightarrow> if truthy v then [Lit v] else [KeyWith (js ''week.set_label'') [(js ''label'', lbl)]]
             | None \<Rightarrow> [KeyWith (js ''week.set_label'') [(js ''label'', lbl)]])]
     # shown_if (ed_open s) (calendar_popup monthYear weekdays now vm value nullable)"

lemma date_complete: "list_all texts_complete (editable_date monthYear weekdays now lbl nullable value s vm)"
  by (simp add: editable_date_def calendar_popup_def day_button_def text_keys split: option.split)

lemma calendar_fires:
  "fires_in i (calendar_popup monthYear weekdays now vm value nullable) =
     (if i = Click then
        {ShiftMonth (-1), ShiftMonth 1, DateEv (DateSelect (Some (format_iso (Some now))))}
        \<union> (\<lambda>c. DateEv (DateSelect (Some (cell_iso c)))) ` set (buildMonth (vm_year vm) (vm_month vm))
        \<union> (if nullable then {DateEv (DateSelect None)} else {})
      else {})"
  by (cases i) (auto simp: calendar_popup_def day_button_def)

lemma date_fires:
  "fires_in i (editable_date monthYear weekdays now lbl nullable value s vm) =
     (if i = Click \<and> \<not> ed_saving s then {DateEv DateToggle} else {})
     \<union> (if ed_open s then fires_in i (calendar_popup monthYear weekdays now vm value nullable) else {})"
  by (cases i) (auto simp: editable_date_def)

subsection \<open>The text editor\<close>

definition edit_key :: "key_press \<Rightarrow> text_event list" where
  "edit_key k =
     (if k_name k = js ''Escape'' then [TextEscape] else [])
     @ (if k_name k = js ''Enter'' then [TextEnter (k_shift k) (k_meta k \<or> k_ctrl k)] else [])"

definition editable_text ::
    "jstr \<Rightarrow> phrase list \<Rightarrow> bool \<Rightarrow> jstr \<Rightarrow> text_editor \<Rightarrow> text_event node" where
  "editable_text lbl placeholder multiline value s =
     (if \<not> editing s then
        El ''button'' [OnClick TextOpen, Label [KeyWith (js ''week.edit_label'') [(js ''label'', lbl)]]]
          [Txt (if truthy value then [Lit value]
                else if placeholder \<noteq> [] then placeholder
                else [KeyWith (js ''editable.add_label'') [(js ''label'', lbl)]])]
      else
        El (if multiline then ''textarea'' else ''input'')
          [Val (draft s), OnChange TextChange, OnBlur TextBlur, OnPress edit_key, Disabled (saving s),
           Placeholder placeholder] [])"

lemma text_complete:
  "list_all complete placeholder \<Longrightarrow> texts_complete (editable_text lbl placeholder multiline value s)"
  by (simp add: editable_text_def text_keys)

lemma text_fires:
  "fires i (editable_text lbl placeholder multiline value s) =
     (if \<not> editing s then (if i = Click then {TextOpen} else {})
      else if saving s then {}
      else case i of
          Click \<Rightarrow> {} | Change v \<Rightarrow> {TextChange v} | Press k \<Rightarrow> set (edit_key k) | Blur \<Rightarrow> {TextBlur} | Submit \<Rightarrow> {})"
  by (cases i) (simp_all add: editable_text_def)

subsection \<open>Sessions of the text editor\<close>

text \<open>
  The editor with the value it is given and the texts that \<open>onCommit\<close> was called with and that
  the server did not answer yet. The user does what the rendered control allows; an accepted
  save makes the text the value, and the value may change from outside.
\<close>

record text_session =
  sn_editor :: text_editor
  sn_value :: jstr
  sn_flight :: "jstr list"

definition session_init :: "jstr \<Rightarrow> text_session" where
  "session_init v = \<lparr>sn_editor = text_init v, sn_value = v, sn_flight = []\<rparr>"

definition session_event :: "bool \<Rightarrow> text_event \<Rightarrow> text_session \<Rightarrow> text_session" where
  "session_event multiline e x =
     (let (sent, ed) = text_step multiline (sn_value x) e (sn_editor x) in
      x\<lparr>sn_editor := ed, sn_flight := sn_flight x @ (case sent of Some d \<Rightarrow> [d] | None \<Rightarrow> [])\<rparr>)"

definition session_value :: "bool \<Rightarrow> jstr \<Rightarrow> text_session \<Rightarrow> text_session" where
  "session_value multiline v x =
     (if v = sn_value x then x else session_event multiline (TextValue v) (x\<lparr>sn_value := v\<rparr>))"

inductive session_step :: "jstr \<Rightarrow> phrase list \<Rightarrow> bool \<Rightarrow> text_session \<Rightarrow> text_session \<Rightarrow> bool"
  for lbl placeholder multiline where
  user_acts: "e \<in> fires i (editable_text lbl placeholder multiline (sn_value x) (sn_editor x)) \<Longrightarrow>
    session_step lbl placeholder multiline x (session_event multiline e x)"
| save_accepted: "d \<in> set (sn_flight x) \<Longrightarrow>
    session_step lbl placeholder multiline x
      (session_event multiline TextResolved
         (session_value multiline d (x\<lparr>sn_flight := remove1 d (sn_flight x)\<rparr>)))"
| save_refused: "d \<in> set (sn_flight x) \<Longrightarrow>
    session_step lbl placeholder multiline x
      (session_event multiline TextRejected (x\<lparr>sn_flight := remove1 d (sn_flight x)\<rparr>))"
| value_changes: "session_step lbl placeholder multiline x (session_value multiline v x)"

inductive session_reachable :: "jstr \<Rightarrow> phrase list \<Rightarrow> bool \<Rightarrow> text_session \<Rightarrow> bool"
  for lbl placeholder multiline where
  session_starts: "session_reachable lbl placeholder multiline (session_init v)"
| session_goes_on: "session_reachable lbl placeholder multiline x \<Longrightarrow>
    session_step lbl placeholder multiline x y \<Longrightarrow> session_reachable lbl placeholder multiline y"

definition session_inv :: "text_session \<Rightarrow> bool" where
  "session_inv x \<longleftrightarrow> length (sn_flight x) \<le> 1 \<and> (saving (sn_editor x) \<longleftrightarrow> sn_flight x \<noteq> []) \<and>
     (saving (sn_editor x) \<longrightarrow> editing (sn_editor x) \<and>
        (sn_flight x = [draft (sn_editor x)] \<or> draft (sn_editor x) = sn_value x)) \<and>
     (editing (sn_editor x) \<or> draft (sn_editor x) = sn_value x)"

lemma session_value_inv: "session_inv x \<Longrightarrow> session_inv (session_value multiline v x)"
  by (simp add: session_inv_def session_value_def session_event_def)

lemma session_event_inv:
  assumes "session_inv x" and "e \<in> fires i (editable_text lbl placeholder multiline (sn_value x) (sn_editor x))"
  shows "session_inv (session_event multiline e x)"
proof (cases "editing (sn_editor x)")
  case False
  then have "e = TextOpen" using assms(2) by (simp add: text_fires split: if_splits)
  then show ?thesis using assms(1) False by (simp add: session_inv_def session_event_def)
next
  case True
  then have idle: "\<not> saving (sn_editor x)" "sn_flight x = []"
    using assms by (auto simp: text_fires session_inv_def split: if_splits)
  have "e = TextBlur \<or> (\<exists>v. e = TextChange v) \<or> e = TextEscape \<or> (\<exists>a b. e = TextEnter a b)"
    using assms(2) True idle by (auto simp: text_fires edit_key_def split: input.splits if_splits)
  then show ?thesis
    using True idle
    by (elim disjE exE) (simp_all add: session_inv_def session_event_def text_commit_def)
qed

lemma session_settle_inv:
  assumes "session_inv x" and "d \<in> set (sn_flight x)"
  shows "session_inv (session_event multiline TextResolved
      (session_value multiline d (x\<lparr>sn_flight := remove1 d (sn_flight x)\<rparr>)))"
    and "session_inv (session_event multiline TextRejected (x\<lparr>sn_flight := remove1 d (sn_flight x)\<rparr>))"
proof -
  have one: "sn_flight x = [d]" "editing (sn_editor x)" "draft (sn_editor x) = d \<or> draft (sn_editor x) = sn_value x"
    using assms by (cases "sn_flight x"; auto simp: session_inv_def)+
  then show "session_inv (session_event multiline TextRejected (x\<lparr>sn_flight := remove1 d (sn_flight x)\<rparr>))"
    by (simp add: session_inv_def session_event_def)
  show "session_inv (session_event multiline TextResolved
      (session_value multiline d (x\<lparr>sn_flight := remove1 d (sn_flight x)\<rparr>)))"
    using one by (auto simp: session_inv_def session_event_def session_value_def)
qed

lemma session_reachable_inv: "session_reachable lbl placeholder multiline x \<Longrightarrow> session_inv x"
proof (induction rule: session_reachable.induct)
  case (session_starts v)
  then show ?case by (simp add: session_inv_def session_init_def text_init_def)
next
  case (session_goes_on x y)
  from session_goes_on.hyps(2) show ?case
    by cases (simp_all add: session_goes_on.IH session_event_inv session_settle_inv session_value_inv)
qed

subsection \<open>Properties\<close>

text \<open>
  C23: Whatever a user does with the rendered text editor, and whatever the server answers, at most
  one save is under way; while it is, the control is open and accepts nothing; and a closed
  editor holds no text that differs from the value it shows.
\<close>

theorem one_save_at_a_time:
  assumes "session_reachable lbl placeholder multiline x"
  shows "length (sn_flight x) \<le> 1 \<and>
    (if sn_flight x \<noteq> []
     then editing (sn_editor x) \<and> fires i (editable_text lbl placeholder multiline (sn_value x) (sn_editor x)) = {}
     else editing (sn_editor x) \<or> draft (sn_editor x) = sn_value x)"
  using session_reachable_inv [OF assms] by (simp add: session_inv_def text_fires)

theorem one_save_at_a_time_witness:
  "\<exists>x. session_reachable [] [] False x \<and> sn_flight x = [[97]] \<and>
     fires (Change [98]) (editable_text [] [] False (sn_value x) (sn_editor x)) = {}"
proof -
  let ?s0 = "session_init []"
  let ?s1 = "session_event False TextOpen ?s0"
  let ?s2 = "session_event False (TextChange [97]) ?s1"
  let ?s3 = "session_event False TextBlur ?s2"
  have "session_reachable [] [] False ?s1"
    by (rule session_goes_on [OF session_starts [of _ _ _ "[]"] user_acts [where i = Click]])
      (simp add: text_fires session_init_def text_init_def)
  from session_goes_on [OF this user_acts [where i = "Change [97]" and e = "TextChange [97]"]]
  have "session_reachable [] [] False ?s2"
    by (simp add: text_fires session_event_def session_init_def text_init_def)
  from session_goes_on [OF this user_acts [where i = Blur and e = TextBlur]]
  have r: "session_reachable [] [] False ?s3"
    by (simp add: text_fires session_event_def session_init_def text_init_def)
  have "sn_flight ?s3 = [[97]]"
    by (simp add: session_event_def session_init_def text_init_def text_commit_def)
  with one_save_at_a_time [OF r, of "Change [98]"] r show ?thesis by auto
qed

text \<open>
  The date editor has no such guard: its trigger is disabled during a save, but the days of the
  open calendar are not, so that two saves can be under way.
\<close>

lemma date_saves_overlap:
  assumes "a \<in> set (buildMonth (vm_year vm) (vm_month vm))" and "b \<in> set (buildMonth (vm_year vm) (vm_month vm))"
    and "Some (cell_iso a) \<noteq> value" and "Some (cell_iso b) \<noteq> value"
  shows "let s0 = \<lparr>ed_open = True, ed_saving = False\<rparr>;
      (sent1, s1) = date_step value nullable (DateSelect (Some (cell_iso a))) s0;
      (sent2, s2) = date_step value nullable (DateSelect (Some (cell_iso b))) s1 in
    DateEv (DateSelect (Some (cell_iso b))) \<in> fires_in Click (editable_date my wd now lbl nullable value s1 vm) \<and>
    sent1 = Some (Some (cell_iso a)) \<and> sent2 = Some (Some (cell_iso b))"
proof -
  have "DateEv (DateSelect (Some (cell_iso b))) \<in>
      fires_in Click (editable_date my wd now lbl nullable value \<lparr>ed_open = True, ed_saving = True\<rparr> vm)"
    unfolding date_fires calendar_fires using assms(2) by auto
  then show ?thesis using assms(3,4) by simp
qed

end
