(* ===== verification/PlanView.thy ===== *)
theory PlanView
  imports PlanForms EditView
begin

text \<open>
  What web/src/components/PlanNewForm.tsx and DuplicatePlanDialog.tsx render: the form for a new
  plan and the dialog that duplicates one, each with its date editor. The handlers of the forms
  are in PlanForms.
\<close>

subsection \<open>The form for a new plan\<close>

datatype plan_ui = PlanDate date_ui | PlanDinners jstr | PlanNotes jstr | PlanSubmit | PlanCancel

record date_env =
  de_lang :: Lang
  de_now :: int
  de_month_year :: "int \<Rightarrow> int \<Rightarrow> jstr"
  de_weekdays :: "jstr list"

definition field :: "phrase list \<Rightarrow> phrase list option \<Rightarrow> 'e node list \<Rightarrow> 'e node" where
  "field lbl hint ns = El ''label'' [] (Txt lbl # ns @ shown_opt hint (\<lambda>h. [Txt h]))"

definition plan_new_form :: "date_env \<Rightarrow> bool \<Rightarrow> plan_form \<Rightarrow> date_editor \<Rightarrow> view_month \<Rightarrow> plan_ui node" where
  "plan_new_form de canCancel f ed vm =
     El ''form'' []
       ([El ''h1'' [] [Txt (tr ''plan.title'')], Txt (tr ''plan.subtitle''),
         field (tr ''plan.start_date'') None
           (map (map_node PlanDate) (editable_date (de_month_year de) (de_weekdays de) (de_now de)
              (say (de_lang de) (tr ''plan.start_date'')) False (Some (pf_startDate f)) ed vm)
            @ [Txt [KeyWith (js ''plan.menu_runs_through'') [(js ''end'', plan_endDate f)]]]),
         field (tr ''plan.num_dinners'') None
           [El ''input'' [Type ''number'', Val (dec_int (pf_dinners f)), OnChange PlanDinners] []],
         field (tr ''plan.notes'') (Some (tr ''plan.notes_hint''))
           [El ''textarea'' [Val (pf_notes f), OnChange PlanNotes, Placeholder (tr ''plan.notes_placeholder'')] []],
         El ''button'' [Type ''submit'', OnSubmit PlanSubmit, Disabled (pf_busy f)]
           [Txt (if pf_busy f then tr ''plan.submitting'' else tr ''plan.submit'')]]
        @ shown_if canCancel
            [El ''button'' [OnClick PlanCancel, Disabled (pf_busy f)] [Txt (tr ''plan.cancel'')]])"

subsection \<open>The dialog that duplicates a plan\<close>

text \<open>
  The backdrop closes the dialog on a click and on Escape; inside the dialog both are stopped
  before they reach it.
\<close>

datatype dup_ui = DupDate date_ui | DupConfirm | DupCancel

definition escape_closes :: "'e \<Rightarrow> key_press \<Rightarrow> 'e list" where
  "escape_closes e k = (if k_name k = js ''Escape'' then [e] else [])"

definition duplicate_dialog ::
    "date_env \<Rightarrow> (jstr \<Rightarrow> jstr) \<Rightarrow> (int \<Rightarrow> int) \<Rightarrow> WeekSummary option \<Rightarrow> dup_dialog \<Rightarrow> date_editor \<Rightarrow> view_month
       \<Rightarrow> dup_ui node list" where
  "duplicate_dialog de dayShort midnight source d ed vm =
     shown_opt source (\<lambda>src.
       [El ''div'' [OnClick DupCancel, OnPress (escape_closes DupCancel), Role ''button'', Label (tr ''duplicate.close'')]
         [El ''div'' [Role ''dialog'', Label (tr ''duplicate.title'')]
           ([El ''h2'' [] [Txt (tr ''duplicate.title'')],
             Txt [Key (js ''duplicate.source_prefix''), Lit [c_space],
                  Lit (formatPeriod dayShort (start_date src) (end_date src))],
             Txt (tr ''duplicate.start_date'')]
            @ map (map_node DupDate) (editable_date (de_month_year de) (de_weekdays de) (de_now de)
                (say (de_lang de) (tr ''duplicate.start_date'')) False (Some (dd_startDate d)) ed vm)
            @ [Txt (if dd_startDate d \<noteq> [] then
                      [Key (js ''duplicate.new_period_prefix''), Lit [c_space],
                       Lit (formatPeriod dayShort (dd_startDate d) (dup_endDate midnight src d))]
                    else [Lit []]),
               El ''button'' [OnClick DupCancel, Disabled (dd_busy d)] [Txt (tr ''duplicate.cancel'')],
               El ''button'' [Type ''submit'', OnSubmit DupConfirm, Disabled (\<not> canConfirm d)]
                 [Txt (if dd_busy d then tr ''duplicate.submitting'' else tr ''duplicate.confirm'')]])]])"

subsection \<open>Texts and inputs\<close>

lemma plan_form_complete: "texts_complete (plan_new_form de canCancel f ed vm)"
  using date_complete by (simp add: plan_new_form_def field_def text_keys)

lemma dup_dialog_complete: "list_all texts_complete (duplicate_dialog de dayShort midnight source d ed vm)"
  using date_complete by (simp add: duplicate_dialog_def text_keys split: option.split)

text \<open>Both forms can be submitted only while no request of theirs is under way.\<close>

lemma plan_form_submits:
  "PlanSubmit \<in> fires i (plan_new_form de canCancel f ed vm) \<longleftrightarrow> i = Submit \<and> fst (plan_submit f) \<noteq> None"
  by (cases i) (auto simp: plan_new_form_def field_def plan_submit_def)

lemma dup_dialog_submits:
  "DupConfirm \<in> fires_in i (duplicate_dialog de dayShort midnight source d ed vm) \<longleftrightarrow>
     i = Submit \<and> source \<noteq> None \<and> fst (dup_confirm d) \<noteq> None"
  by (cases i; cases source) (auto simp: duplicate_dialog_def dup_confirm_def escape_closes_def)

end
