(* ===== verification/ListViews.thy ===== *)
theory ListViews
  imports Views Texts
begin

text \<open>
  What web/src/components/WeeksSidebar.tsx, HomeView.tsx and ToastViewport.tsx render: the list of
  the plans with its buttons and the version at its foot, the home page, and the toasts.
  \<open>dayShort\<close> is \<open>formatDayShort\<close>.
\<close>

definition status_words :: "WeekStatus \<Rightarrow> phrase list" where
  "status_words st = [Key (js ''status.'' @ status_str st)]"

lemma status_words_complete [simp]: "list_all complete (status_words st)"
  by (cases st) (simp_all add: status_words_def js_append [symmetric] text_keys)

subsection \<open>The sidebar\<close>

datatype sidebar_ui =
  SideNew | SideClose | SideSelect int | SideDuplicate WeekSummary | SideDelete WeekSummary

definition sidebar_item :: "(jstr \<Rightarrow> jstr) \<Rightarrow> int option \<Rightarrow> WeekSummary \<Rightarrow> sidebar_ui node" where
  "sidebar_item dayShort selected w =
     (let r = sidebar_row_of dayShort selected w in
      El ''li'' []
        [El ''button'' [OnClick (SideSelect (sr_id r)),
                        Class (if sr_selected r then js ''bg-stone-200 text-stone-900 dark:bg-stone-800 dark:text-stone-50''
                               else js ''text-stone-700 hover:bg-stone-200/60 dark:text-stone-300 dark:hover:bg-stone-800/60'')]
           [Txt [Lit (sr_period r)],
            Txt [Lit (dec_int (sr_dinners r) @ [c_space]), Key (js ''sidebar.dinners_short''), Lit [c_space, 183, c_space]],
            El ''span'' [Class (statusColor (sr_status r))] [Txt (status_words (sr_status r))]],
         El ''button'' [OnClick (SideDuplicate w), Title (tr ''sidebar.duplicate''), Label (tr ''sidebar.duplicate'')] [],
         El ''button'' [OnClick (SideDelete w), Title (tr ''sidebar.delete''), Label (tr ''sidebar.delete'')] []])"

definition version_footer :: "VersionInfo option \<Rightarrow> 'e node list" where
  "version_footer info =
     shown_opt info (\<lambda>v. let lbl = Txt [Lit (version_label (version v))] in
       [El ''footer'' [] [case version_link (version v) of
                             Some url \<Rightarrow> El ''a'' [Href url] [lbl] | None \<Rightarrow> lbl]])"

definition weeks_sidebar ::
    "(jstr \<Rightarrow> jstr) \<Rightarrow> bool \<Rightarrow> int option \<Rightarrow> bool \<Rightarrow> bool \<Rightarrow> weeks_fetch \<Rightarrow> VersionInfo option \<Rightarrow> sidebar_ui node" where
  "weeks_sidebar dayShort isOpen selected canPlan planNewDisabled weeks info =
     El ''aside'' [Label (tr ''sidebar.history''), Class (if isOpen then js ''translate-x-0'' else js ''-translate-x-full'')]
       ([El ''h2'' [] [Txt (tr ''sidebar.history'')]]
        @ shown_if canPlan
            [El ''button'' [OnClick SideNew, Disabled planNewDisabled, Title (tr ''sidebar.new_week_title''),
                            Label (tr ''sidebar.new_week_title'')] [Txt (tr ''sidebar.new_week'')]]
        @ [El ''button'' [OnClick SideClose, Label (tr ''topbar.close_chat'')] []]
        @ shown_opt (ft_error weeks) (\<lambda>e. shown_if (truthy e) [Txt [Lit e]])
        @ shown_if (sidebar_empty weeks) [El ''p'' [] [Txt (tr ''sidebar.empty'')]]
        @ map (sidebar_item dayShort selected) (nullish (ft_value weeks) [])
        @ version_footer info)"

subsection \<open>The home page\<close>

datatype home_ui = HomePlan | HomeOpen int

definition empty_hero :: "home_ui node" where
  "empty_hero =
     El ''section'' []
       [El ''h2'' [] [Txt (tr ''home.empty_title'')], El ''p'' [] [Txt (tr ''home.empty_body'')],
        El ''li'' [] [Txt (tr ''home.loop_step_plan'')], El ''li'' [] [Txt (tr ''home.loop_step_cart'')],
        El ''li'' [] [Txt (tr ''home.loop_step_order'')], El ''li'' [] [Txt (tr ''home.loop_step_retro'')],
        El ''button'' [OnClick HomePlan] [Txt (tr ''home.plan_first'')]]"

definition home_item :: "(jstr \<Rightarrow> jstr) \<Rightarrow> WeekSummary \<Rightarrow> home_ui node" where
  "home_item dayShort w =
     El ''li'' []
       [El ''button'' [OnClick (HomeOpen (week_id w))]
          [Txt [Lit (formatPeriod dayShort (start_date w) (end_date w))],
           Txt [Lit (dec_int (dinner_count w) @ [c_space]), Key (js ''sidebar.dinners_short'')],
           El ''span'' [Class (statusColor (week_status w))] [Txt (status_words (week_status w))]]]"

definition home_view :: "(jstr \<Rightarrow> jstr) \<Rightarrow> weeks_fetch \<Rightarrow> home_ui node list" where
  "home_view dayShort weeks =
     [El ''h1'' [] [Txt (tr ''home.title'')], Txt (tr ''home.subtitle''),
      El ''button'' [OnClick HomePlan] [Txt (tr ''home.plan_new'')]]
     @ shown_if (home_empty weeks) [empty_hero]
     @ shown_if (home_rows weeks \<noteq> [])
         [El ''section'' [] (El ''h2'' [] [Txt (tr ''home.your_weeks'')] # map (home_item dayShort) (home_rows weeks))]"

subsection \<open>The toasts\<close>

datatype 'a toast_ui = ToastAct "'a Toast" | ToastDismiss jstr

fun surfaceClass :: "ToastVariant \<Rightarrow> jstr" where
  "surfaceClass Success = js ''border-emerald-300 bg-emerald-50 text-emerald-900 dark:border-emerald-800 dark:bg-emerald-950 dark:text-emerald-100''"
| "surfaceClass Error = js ''border-red-300 bg-red-50 text-red-900 dark:border-red-800 dark:bg-red-950 dark:text-red-100''"
| "surfaceClass Info = js ''border-stone-300 bg-white text-stone-900 dark:border-stone-700 dark:bg-stone-900 dark:text-stone-100''"

definition toast_item :: "'a Toast \<Rightarrow> 'a toast_ui node" where
  "toast_item tt =
     El ''div'' [Role (if is_error tt then ''alert'' else ''status''), Class (surfaceClass (variant tt))]
       ([Txt [Lit (message tt)]]
        @ shown_opt (action tt) (\<lambda>a. [El ''button'' [OnClick (ToastAct tt)] [Txt [Lit (label a)]]])
        @ [El ''button'' [OnClick (ToastDismiss (toast_id tt)), Label (tr ''toast.dismiss'')] []])"

definition toast_viewport :: "'a toast_state \<Rightarrow> 'a toast_ui node list" where
  "toast_viewport s = map toast_item (toasts s)"

subsection \<open>Texts\<close>

lemma sidebar_complete: "texts_complete (weeks_sidebar dayShort isOpen selected canPlan dis weeks info)"
  by (simp add: weeks_sidebar_def sidebar_item_def version_footer_def Let_def text_keys split: option.split)

lemma home_complete: "list_all texts_complete (home_view dayShort weeks)"
  by (simp add: home_view_def home_item_def empty_hero_def text_keys)

lemma toasts_complete: "list_all texts_complete (toast_viewport s)"
  by (simp add: toast_viewport_def toast_item_def text_keys split: option.split)

subsection \<open>What the user can do\<close>

lemma sidebar_fires:
  "fires i (weeks_sidebar dayShort isOpen selected canPlan dis weeks info) =
     (if i = Click then
        {SideClose} \<union> (if canPlan \<and> \<not> dis then {SideNew} else {})
        \<union> (\<Union>w\<in>set (nullish (ft_value weeks) []). {SideSelect (week_id w), SideDuplicate w, SideDelete w})
      else {})"
  by (cases i)
    (auto simp: weeks_sidebar_def sidebar_item_def sidebar_row_of_def version_footer_def Let_def split: option.split)

lemma home_fires:
  "fires_in i (home_view dayShort weeks) =
     (if i = Click then {HomePlan} \<union> (\<lambda>w. HomeOpen (week_id w)) ` set (home_rows weeks) else {})"
  by (cases i) (auto simp: home_view_def home_item_def empty_hero_def)

lemma toast_fires:
  "fires_in i (toast_viewport s) =
     (if i = Click then ToastAct ` {tt \<in> set (toasts s). action tt \<noteq> None} \<union> (\<lambda>tt. ToastDismiss (toast_id tt)) ` set (toasts s)
      else {})"
  by (cases i) (auto simp: toast_viewport_def toast_item_def split: option.splits)

end
