(* ===== verification/WeekPage.thy ===== *)
theory WeekPage
  imports WeekMenu Saving EditView MarkdownText
begin

text \<open>
  What web/src/components/WeekView.tsx renders: the header with its editors, the exceptions, the
  dinner cards with their adjust boxes and ratings, the cart, the lifecycle bar with the status
  menu, and the retrospective. \<open>week_env\<close> holds what the page takes from outside: the language,
  the Intl formats, the case mapping, the string comparison and the date. \<open>week_ui_state\<close> holds
  the local states of the page's components, those of the cards by the id of the dinner.
\<close>

record week_env =
  en_lang :: Lang
  en_now :: int
  en_day_short :: "jstr \<Rightarrow> jstr"             \<comment> \<open>formatDayShort\<close>
  en_weekday :: "jstr \<Rightarrow> jstr"               \<comment> \<open>formatWeekday\<close>
  en_month_year :: "int \<Rightarrow> int \<Rightarrow> jstr"
  en_weekdays :: "jstr list"
  en_lower :: "jstr \<Rightarrow> jstr"
  en_compare :: "jstr comparator"
  en_fadd :: "rat \<Rightarrow> rat \<Rightarrow> rat"

record week_ui_state =
  wu_start :: date_editor
  wu_start_month :: view_month
  wu_end :: date_editor
  wu_end_month :: view_month
  wu_notes :: text_editor
  wu_menu :: bool
  wu_cart :: bool
  wu_adjust :: "int \<Rightarrow> adjust_box"
  wu_rating :: "int \<Rightarrow> rating_control"
  wu_retro :: retro

text \<open>\<open>MenuPick st c\<close>: the menu's entry for \<open>st\<close>, with \<open>c\<close> the answer if a question was asked.\<close>

datatype week_ui =
    Act week_action | StartUi date_ui | EndUi date_ui | NotesUi text_event
  | MenuToggle | MenuClose | MenuPick WeekStatus bool | CartToggle
  | AdjustUi int adjust_event | RatingUi int rating_event | RetroUi jstr

definition status_text :: "WeekStatus \<Rightarrow> phrase list" where
  "status_text st = [Key (js ''status.'' @ status_str st)]"

definition rating_text :: "DinnerRating \<Rightarrow> phrase list" where
  "rating_text r = [Key (js ''rating.'' @ rating_str r)]"

lemma status_text_complete [simp]: "list_all complete (status_text st)"
  by (cases st) (simp_all add: status_text_def js_append [symmetric] text_keys)

lemma rating_text_complete [simp]: "list_all complete (rating_text r)"
  by (cases r) (simp_all add: rating_text_def js_append [symmetric] text_keys)

subsection \<open>The header\<close>

definition week_header :: "week_env \<Rightarrow> week_ui_state \<Rightarrow> WeekDetail \<Rightarrow> bool \<Rightarrow> week_ui node" where
  "week_header en ui w isLocked =
     El ''header'' []
       ([El ''h1'' [] [Txt [Lit (formatPeriod (en_day_short en) (start_date w) (end_date w))]]]
        @ (if isLocked then [Txt [Lit (start_date w)]]
           else map (map_node StartUi) (editable_date (en_month_year en) (en_weekdays en) (en_now en)
                  (js ''start date'') False (Some (start_date w)) (wu_start ui) (wu_start_month ui)))
        @ [Txt [Lit [8594]]]
        @ (if isLocked then [Txt [Lit (end_date w)]]
           else map (map_node EndUi) (editable_date (en_month_year en) (en_weekdays en) (en_now en)
                  (js ''end date'') False (Some (end_date w)) (wu_end ui) (wu_end_month ui)))
        @ [Txt (status_text (week_status w))]
        @ shown_if (shows_notes w)
            [if isLocked then Txt [Lit (notes_md w)]
             else map_node NotesUi (editable_text (say (en_lang en) (tr ''week.notes_label''))
                    (tr ''week.notes_placeholder'') True (notes_md w) (wu_notes ui))]
        @ [El ''a'' [Href (js ''/weeks/'' @ dec_int (week_id w) @ js ''/print'')] [Txt (tr ''week.print'')]]
        @ shown_if (\<not> isLocked)
            [El ''button'' [OnClick (Act (period_prompt (en_lang en) (js ''week.add_dinner_prompt'') w))]
               [Txt (tr ''week.add_dinner'')],
             El ''button'' [OnClick (Act (period_prompt (en_lang en) (js ''week.regenerate_prompt'') w))]
               [Txt (tr ''week.regenerate'')]]
        @ shown_if isLocked
            [El ''p'' [] [Txt [KeyWith (js ''week.locked_hint'')
               [(js ''status'', say (en_lang en) (status_text (week_status w)))]]]])"

definition exceptions_view :: "Exception list \<Rightarrow> 'e node" where
  "exceptions_view items =
     El ''aside'' []
       (Txt (tr ''week.this_week'')
        # map (\<lambda>e. El ''li'' [] [Txt [Lit (exc_kind e), Lit [c_space], Lit (description e)]]) items)"

subsection \<open>The lifecycle bar\<close>

definition next_label :: "WeekDetail \<Rightarrow> phrase list" where
  "next_label w =
     (case week_status w of
        Draft \<Rightarrow> tr ''lifecycle.build_cart''
      | CartBuilt \<Rightarrow> tr ''lifecycle.mark_ordered''
      | Ordered \<Rightarrow> if \<not> hasRetro w then tr ''lifecycle.record_retrospective'' else tr ''week.clone_next'')"

lemma next_label_says: "say l (next_label w) = fst (next_step l now w)"
  by (simp add: next_label_def next_step_def say_def split: WeekStatus.split)

definition menu_item :: "Lang \<Rightarrow> WeekStatus \<Rightarrow> WeekStatus \<Rightarrow> week_ui node" where
  "menu_item lang current st =
     El ''button''
       [Role ''menuitem'',
        if st \<noteq> current \<and> isBackwardTransition current st
        then OnConfirm [KeyWith (js ''week.unlock_confirm'') [(js ''target'', say lang (status_text st))]]
               (MenuPick st True) (Some (MenuPick st False))
        else OnClick (MenuPick st False),
        Class (if st = current then js ''bg-stone-100 text-stone-900 dark:bg-stone-700 dark:text-stone-50''
               else js ''text-stone-700 hover:bg-stone-50 dark:text-stone-300 dark:hover:bg-stone-700'')]
       [Txt (status_text st)]"

definition status_menu :: "Lang \<Rightarrow> WeekStatus \<Rightarrow> bool \<Rightarrow> week_ui node list" where
  "status_menu lang current isOpen =
     El ''button'' [OnClick MenuToggle] [Txt [Key (js ''lifecycle.set_status''), Lit [c_space, 9662]]]
     # shown_if isOpen
         [El ''div'' [OnClick MenuClose, OnPress (\<lambda>k. if k_name k = js ''Escape'' then [MenuClose] else []),
                      Role ''button'', Label (tr ''toast.dismiss'')] [],
          El ''div'' [Role ''menu''] (map (menu_item lang current) STATUS_ORDER)]"

definition lifecycle :: "week_env \<Rightarrow> bool \<Rightarrow> WeekDetail \<Rightarrow> week_ui node" where
  "lifecycle en menuOpen w =
     El ''section'' []
       ([Txt ([Key (js ''lifecycle.current''), Lit (js '': '')] @ status_text (week_status w)),
         El ''button'' [OnClick (Act (snd (next_step (en_lang en) (en_now en) w)))] [Txt (next_label w)],
         El ''a'' [Href (js ''https://www.willys.se/'')] [Txt [Key (js ''lifecycle.open_willys''), Lit [c_space, 8599]]]]
        @ shown_if (extra_retro_button (en_lang en) (en_now en) w)
            [El ''button'' [OnClick (Act (period_prompt (en_lang en) (js ''lifecycle.retrospective_prompt'') w))]
               [Txt (tr ''lifecycle.record_retrospective'')]]
        @ status_menu (en_lang en) (week_status w) menuOpen)"

subsection \<open>The cart\<close>

definition cart_row_view :: "cart_row \<Rightarrow> 'e node" where
  "cart_row_view r =
     El ''tr'' []
       ([El ''td'' [] (shown_opt (row_title r) (\<lambda>n. [Txt [Lit n]]) @ [Txt [Lit (row_code r)]]),
         El ''td'' [] [Txt [Lit (row_qty r)]], El ''td'' [] [Txt [Lit (row_price r)]]]
        @ shown_opt (row_note r) (\<lambda>n. [El ''td'' [] [Txt [Lit n]]]))"

definition cart_section :: "(rat \<Rightarrow> rat \<Rightarrow> rat) \<Rightarrow> bool \<Rightarrow> CartItem list \<Rightarrow> week_ui node" where
  "cart_section fadd isOpen items =
     El ''section'' []
       (El ''button'' [OnClick CartToggle]
          ([Txt [Key (js ''cart.title''), Lit [c_space], Lit (js ''('' @ dec (fst (cart_header fadd items)) @ js '')'')]]
           @ shown_opt (snd (cart_header fadd items)) (\<lambda>kr. [Txt [Lit kr]])
           @ [Txt [Lit (if isOpen then [9662] else [9656])]])
        # shown_if isOpen
            [El ''table'' []
              (El ''tr'' []
                 ([El ''th'' [] [Txt (tr ''cart.product'')], El ''th'' [] [Txt (tr ''cart.qty'')],
                   El ''th'' [] [Txt (tr ''cart.price'')]]
                  @ shown_if (showNote items) [El ''th'' [] [Txt (tr ''cart.reason'')]])
               # map (\<lambda>i. cart_row_view (cart_row_of items i)) items)])"

subsection \<open>A dinner's card\<close>

fun ratingSelectedClass :: "DinnerRating \<Rightarrow> jstr" where
  "ratingSelectedClass Loved = js ''border-rose-300 bg-rose-100 text-rose-800 dark:border-rose-800 dark:bg-rose-950/60 dark:text-rose-200''"
| "ratingSelectedClass Liked = js ''border-emerald-300 bg-emerald-100 text-emerald-800 dark:border-emerald-800 dark:bg-emerald-950/60 dark:text-emerald-200''"
| "ratingSelectedClass Meh = js ''border-stone-400 bg-stone-200 text-stone-800 dark:border-stone-600 dark:bg-stone-700 dark:text-stone-100''"
| "ratingSelectedClass Disliked = js ''border-amber-300 bg-amber-100 text-amber-900 dark:border-amber-800 dark:bg-amber-950/60 dark:text-amber-200''"

definition rating_view :: "rating_control \<Rightarrow> rating_event node" where
  "rating_view rc =
     El ''div'' []
       ([Txt (if rc_rating rc \<noteq> None then tr ''rating.your_verdict'' else tr ''rating.how_was_it'')]
        @ map (\<lambda>r. El ''button'' [OnClick (Pick r),
                   Class (if rc_rating rc = Some r then ratingSelectedClass r
                          else js ''border-stone-300 bg-white text-stone-600 hover:bg-stone-100 dark:border-stone-700 dark:bg-stone-800 dark:text-stone-300 dark:hover:bg-stone-700'')]
                 [Txt (rating_text r)]) [Loved, Liked, Meh, Disliked]
        @ shown_if (rc_rating rc \<noteq> None)
            [El ''button'' [OnClick ClearRating] [Txt (tr ''rating.clear'')],
             El ''textarea'' [Val (rc_notes rc), OnChange TypeNotes, Placeholder (tr ''rating.notes_placeholder'')] []])"

definition adjust_key :: "key_press \<Rightarrow> adjust_event list" where
  "adjust_key k =
     (if k_name k = js ''Enter'' \<and> (k_meta k \<or> k_ctrl k) then [SubmitAdjust]
      else if k_name k = js ''Escape'' then [DropAdjust] else [])"

definition adjust_view :: "adjust_box \<Rightarrow> adjust_event node list" where
  "adjust_view b =
     [El ''textarea'' [Val (adjustDraft b), OnChange TypeAdjust, OnPress adjust_key,
                       Placeholder (tr ''dinner.adjust_placeholder'')] [],
      Txt (tr ''dinner.adjust_hint''),
      El ''button'' [OnClick DropAdjust] [Txt (tr ''dinner.adjust_cancel'')],
      El ''button'' [OnClick SubmitAdjust, Disabled (\<not> truthy (trim (adjustDraft b)))] [Txt (tr ''dinner.adjust_send'')]]"

definition source_class :: "jstr \<Rightarrow> jstr" where
  "source_class src =
     (if src = js ''fishmonger'' then js ''bg-sky-100 text-sky-800 dark:bg-sky-950/60 dark:text-sky-300''
      else if src = js ''butcher'' then js ''bg-rose-100 text-rose-800 dark:bg-rose-950/60 dark:text-rose-300''
      else if src = js ''bakery'' then js ''bg-amber-100 text-amber-800 dark:bg-amber-950/60 dark:text-amber-300''
      else js ''bg-stone-100 text-stone-600 dark:bg-stone-800 dark:text-stone-300'')"

definition card_class :: "card_props \<Rightarrow> jstr" where
  "card_class p =
     (if cp_active p then js ''border-stone-900 ring-2 ring-stone-900/10 dark:border-stone-100 dark:ring-stone-100/20''
      else if cp_dimmed p then js ''border-stone-200 opacity-60 dark:border-stone-800''
      else js ''border-stone-200 dark:border-stone-800'')"

definition card_header :: "week_env \<Rightarrow> card_props \<Rightarrow> adjust_box \<Rightarrow> adjust_event node" where
  "card_header en p b =
     (let d = cp_dinner p in
      El ''header'' []
        ([Txt [Lit (day_date d), Lit [c_space, 183, c_space], Lit (en_weekday en (day_date d))],
          El ''h3'' [] [Txt (if truthy (dish_name d) then [Lit (dish_name d)] else tr ''dinner.untitled'')]]
         @ shown_opt (cuisine d) (\<lambda>c. shown_if (truthy c) [El ''span'' [] [Txt [Lit c]]])
         @ [El ''span'' [] [Txt [Lit (dec_int (servings d) @ [c_space]), Key (js ''dinner.servings'')]]]
         @ map (\<lambda>(src, desc). El ''span'' [Class (source_class src), Title [Lit desc]] [Txt [Lit src]]) (sourcing d)
         @ shown_if (truthy (dinner_notes d)) [El ''p'' [] [Txt [Lit (dinner_notes d)]]]
         @ shown_opt (rating d) (\<lambda>r. [El ''span'' (Class (ratingSelectedClass r) # (if truthy (rating_notes d) then [Title [Lit (rating_notes d)]] else []))
                                        [Txt (rating_text r)]])
         @ shown_if (\<not> cp_locked p)
             [El ''button'' [OnClick ToggleAdjust, Class (if adjustOpen b then js ''border-stone-900 bg-stone-900 text-stone-50 dark:border-stone-100 dark:bg-stone-100 dark:text-stone-900''
                      else js ''border-stone-300 bg-white text-stone-700 hover:bg-stone-50 dark:border-stone-700 dark:bg-stone-800 dark:text-stone-200 dark:hover:bg-stone-700'')]
                [Txt (tr ''dinner.adjust'')]]))"

definition dinner_card :: "week_env \<Rightarrow> week_ui_state \<Rightarrow> card_props \<Rightarrow> week_ui node" where
  "dinner_card en ui p =
     (let d = cp_dinner p; i = dinner_id d; b = wu_adjust ui i in
      El ''article'' [Class (card_class p)]
        ([map_node (AdjustUi i) (card_header en p b)]
         @ shown_if (\<not> cp_locked p \<and> adjustOpen b) (map (map_node (AdjustUi i)) (adjust_view b))
         @ shown_if (truthy (recipe_md d))
             [El ''details'' []
                (El ''summary'' [] [Txt (tr ''dinner.recipe'')]
                 # Markdown (en_lower en) Compact (Some (dish_name d)) (recipe_md d))]
         @ shown_if (cp_rateable p) [map_node (RatingUi i) (rating_view (wu_rating ui i))]))"

subsection \<open>The page\<close>

definition retro_view :: "retro \<Rightarrow> week_ui node" where
  "retro_view r =
     El ''section'' []
       [El ''h2'' [] [Txt (tr ''week.retrospective'')], El ''p'' [] [Txt (tr ''retro.hint'')],
        El ''textarea'' [Val (rw_value r), OnChange RetroUi, Placeholder (tr ''retro.placeholder'')] []]"

fun section_view :: "week_env \<Rightarrow> week_ui_state \<Rightarrow> WeekDetail \<Rightarrow> week_section \<Rightarrow> week_ui node" where
  "section_view en ui w (HeaderSection isLocked) = week_header en ui w isLocked"
| "section_view en ui w (ExceptionSection items) = exceptions_view items"
| "section_view en ui w (NoDinnersSection plan) =
     El ''div'' [] (El ''p'' [] [Txt (tr ''week.no_dinners'')]
       # shown_opt plan (\<lambda>a. [El ''button'' [OnClick (Act a)] [Txt (tr ''week.plan_dinners'')]]))"
| "section_view en ui w (DinnerSection p) = dinner_card en ui p"
| "section_view en ui w (CartPart items) = cart_section (en_fadd en) (wu_cart ui) items"
| "section_view en ui w LifecycleSection = lifecycle en (wu_menu ui) w"
| "section_view en ui w RetroSection = retro_view (wu_retro ui)"

definition week_view :: "week_env \<Rightarrow> week_ui_state \<Rightarrow> jstr option \<Rightarrow> WeekDetail \<Rightarrow> week_ui node list" where
  "week_view en ui activeDay w =
     map (section_view en ui w) (week_sections (en_compare en) (en_lang en) activeDay w)"

subsection \<open>Its texts\<close>

lemma next_label_complete [simp]: "list_all complete (next_label w)"
  by (simp add: next_label_def text_keys split: WeekStatus.split)

lemma header_complete: "texts_complete (week_header en ui w isLocked)"
  using date_complete text_complete [of "tr ''week.notes_placeholder''"]
  by (simp add: week_header_def text_keys)

lemma lifecycle_complete: "texts_complete (lifecycle en isOpen w)"
  by (simp add: lifecycle_def status_menu_def menu_item_def STATUS_ORDER_def text_keys)

lemma cart_complete: "texts_complete (cart_section fadd isOpen items)"
  by (simp add: cart_section_def cart_row_view_def text_keys split: option.split)

lemma card_complete: "texts_complete (dinner_card en ui p)"
  by (simp add: dinner_card_def card_header_def adjust_view_def rating_view_def Let_def text_keys
      split: option.split prod.split)

lemma week_view_complete: "list_all texts_complete (week_view en ui activeDay w)"
proof -
  have "texts_complete (section_view en ui w sec)" for sec
    by (cases sec)
      (simp_all add: header_complete lifecycle_complete cart_complete card_complete
        exceptions_view_def retro_view_def text_keys split: option.split)
  then show ?thesis by (simp add: week_view_def)
qed

subsection \<open>What the user can do\<close>

text \<open>The status menu's entries: a question stands before every move back, and only there.\<close>

lemma item_fires:
  "fires i (menu_item lang current st) =
     (if i \<noteq> Click then {} else if st < current then {MenuPick st True, MenuPick st False} else {MenuPick st False})"
  by (cases i) (auto simp: menu_item_def backward_iff)

lemma menu_fires:
  "fires_in i (status_menu lang current isOpen) \<subseteq>
     {MenuToggle, MenuClose} \<union> {MenuPick st c |st c. c \<longrightarrow> st < current}"
  by (cases i) (auto simp: status_menu_def item_fires split: if_splits)

definition lifecycle_actions :: "week_env \<Rightarrow> WeekDetail \<Rightarrow> week_action set" where
  "lifecycle_actions en w =
     {snd (next_step (en_lang en) (en_now en) w)}
     \<union> (if hasRetro w \<or> week_status w = Draft then {}
        else {period_prompt (en_lang en) (js ''lifecycle.retrospective_prompt'') w})"

lemma lifecycle_fires:
  "fires i (lifecycle en isOpen w) \<subseteq> Act ` lifecycle_actions en w \<union> {MenuToggle, MenuClose}
     \<union> {MenuPick st c |st c. c \<longrightarrow> st < week_status w}"
proof -
  have "fires i (lifecycle en isOpen w) \<subseteq>
      Act ` lifecycle_actions en w \<union> fires_in i (status_menu (en_lang en) (week_status w) isOpen)"
    by (cases i) (auto simp: lifecycle_def lifecycle_actions_def extra_retro_button_def split: if_splits)
  then show ?thesis using menu_fires by blast
qed

lemma cart_fires: "fires i (cart_section fadd isOpen items) \<subseteq> {CartToggle}"
proof -
  have "fires i (cart_row_view r :: week_ui node) = {}" for r
    by (auto simp: cart_row_view_def split: option.split)
  then show ?thesis by (cases i) (auto simp: cart_section_def split: option.split)
qed

lemma header_edits:
  "fires i (week_header en ui w isLocked) \<subseteq>
     (if isLocked then {}
      else range StartUi \<union> range EndUi \<union> range NotesUi \<union> Act ` set (header_actions (en_lang en) w))"
  if "isLocked = locked w"
  using that by (cases i) (auto simp: week_header_def header_actions_def)

lemma card_fires:
  "fires i (dinner_card en ui p) \<subseteq>
     (if cp_locked p then {} else range (AdjustUi (dinner_id (cp_dinner p))))
     \<union> (if cp_rateable p then range (RatingUi (dinner_id (cp_dinner p))) else {})"
proof -
  have "fires i (card_header en p b) = {}" if "cp_locked p" for b
    using that by (cases i) (auto simp: card_header_def Let_def split: option.split)
  moreover have "fires_in i (Markdown (en_lower en) v h x :: week_ui node list) = {}" for v h x
    by (rule markdown_inert)
  ultimately show ?thesis by (cases i) (auto simp: dinner_card_def Let_def)
qed

subsection \<open>Properties\<close>

text \<open>What the page offers in each state, apart from moving between the states and folding.\<close>

definition page_offers :: "week_env \<Rightarrow> WeekDetail \<Rightarrow> week_ui set" where
  "page_offers en w =
     (case week_status w of
        Draft \<Rightarrow>
          range StartUi \<union> range EndUi \<union> range NotesUi \<union> {AdjustUi (dinner_id d) e |d e. d \<in> set (dinners w)}
          \<union> (Act \<circ> (\<lambda>k. period_prompt (en_lang en) (js k) w))
              ` {''week.add_dinner_prompt'', ''week.regenerate_prompt'', ''week.plan_dinners_prompt'', ''lifecycle.build_cart_prompt''}
      | CartBuilt \<Rightarrow>
          {Act (PatchWith (empty_patch\<lparr>p_status := Some Ordered,
                                        p_order_date := Some (Some (nullish (order_date w) (today (en_now en))))\<rparr>))}
          \<union> (if hasRetro w then {} else {Act (period_prompt (en_lang en) (js ''lifecycle.retrospective_prompt'') w)})
      | Ordered \<Rightarrow>
          {RatingUi (dinner_id d) e |d e. d \<in> set (dinners w)} \<union> range RetroUi
          \<union> {if hasRetro w then Act Duplicate
             else Act (period_prompt (en_lang en) (js ''lifecycle.retrospective_prompt'') w)})"

lemma retro_fires: "fires i (retro_view r) \<subseteq> range RetroUi"
  by (cases i) (simp_all add: retro_view_def)

lemma exceptions_inert: "fires i (exceptions_view items :: week_ui node) = {}"
  by (auto simp: exceptions_view_def)

lemma lifecycle_offers: "Act ` lifecycle_actions en w \<subseteq> page_offers en w"
  by (auto simp: lifecycle_actions_def page_offers_def next_step_def split: WeekStatus.split)

lemma header_offers: "\<not> locked w \<Longrightarrow>
    range StartUi \<union> range EndUi \<union> range NotesUi \<union> Act ` set (header_actions (en_lang en) w) \<subseteq> page_offers en w"
  by (auto simp: page_offers_def header_actions_def locked_def)

lemma card_offers: "d \<in> set (dinners w) \<Longrightarrow>
    (if locked w then {} else range (AdjustUi (dinner_id d)))
     \<union> (if rateable w then range (RatingUi (dinner_id d)) else {}) \<subseteq> page_offers en w"
  by (cases "week_status w") (auto simp: page_offers_def locked_def rateable_def)

lemma section_fires:
  assumes "sec \<in> set (week_sections (en_compare en) (en_lang en) activeDay w)"
  shows "fires i (section_view en ui w sec) \<subseteq> page_offers en w \<union> {MenuToggle, MenuClose, CartToggle}
     \<union> {MenuPick st c |st c. c \<longrightarrow> st < week_status w}"
proof -
  have days: "set (groupByDay (en_compare en) (dinners w)) = set (dinners w)"
    by (metis groupByDay_mset set_mset_mset)
  consider
      "sec = HeaderSection (locked w)" | "sec = ExceptionSection (exceptions w)"
    | "sec = NoDinnersSection (if locked w then None
         else Some (period_prompt (en_lang en) (js ''week.plan_dinners_prompt'') w))"
    | d where "d \<in> set (dinners w)" "sec = dinner_section w activeDay d"
    | "sec = CartPart (cart_items w)" | "sec = LifecycleSection" | "sec = RetroSection" "rateable w"
    using assms days by (auto simp: week_sections_def Let_def split: if_splits)
  then show ?thesis
  proof cases
    case 1
    show ?thesis
    proof (cases "locked w")
      case False
      have "fires i (week_header en ui w (locked w)) \<subseteq>
          range StartUi \<union> range EndUi \<union> range NotesUi \<union> Act ` set (header_actions (en_lang en) w)"
        using header_edits [of "locked w" w i en ui] False by simp
      also note header_offers [OF False, of en]
      finally have "fires i (week_header en ui w (locked w)) \<subseteq> page_offers en w" .
      then show ?thesis unfolding 1 section_view.simps by (rule le_supI1 [OF le_supI1])
    qed (use 1 header_edits [of "locked w" w i en ui] in simp)
  next
    case 3
    then show ?thesis by (cases i) (auto simp: page_offers_def locked_def)
  next
    case 4
    define p where "p = \<lparr>cp_dinner = d, cp_dimmed = (activeDay \<noteq> None \<and> activeDay \<noteq> Some (day_date d)),
        cp_active = (activeDay = Some (day_date d)), cp_rateable = rateable w, cp_locked = locked w\<rparr>"
    have p: "cp_dinner p = d" "cp_locked p = locked w" "cp_rateable p = rateable w" by (simp_all add: p_def)
    note card_fires [of i en ui p, unfolded p]
    also note card_offers [OF 4(1), of en]
    finally have "fires i (dinner_card en ui p) \<subseteq> page_offers en w" .
    moreover have "section_view en ui w sec = dinner_card en ui p" by (simp add: 4(2) dinner_section_def p_def)
    ultimately show ?thesis by (simp only: le_supI1)
  next
    case 5
    then show ?thesis using cart_fires [of i "en_fadd en" "wu_cart ui" "cart_items w"] by auto
  next
    case 6
    show ?thesis unfolding 6 section_view.simps
      using lifecycle_fires [of i en "wu_menu ui" w] lifecycle_offers [of en w] by blast
  next
    case 7
    then have "range RetroUi \<subseteq> page_offers en w" by (auto simp: page_offers_def rateable_def)
    then show ?thesis unfolding 7(1) section_view.simps using retro_fires [of i "wu_retro ui"] by blast
  qed (simp_all add: exceptions_inert)
qed


end
