(* ===== verification/ShellView.thy ===== *)
theory ShellView
  imports AppShell Theme ChatView PlanView ListViews WeekPage
begin

text \<open>
  What \<open>Main\<close> of web/src/App.tsx renders, put together from the views of its components: the bar
  at the top, the sidebar, the main view, the chat panel and the dialog that duplicates a plan.
  \<open>page_local\<close> holds the local states of these components and what they take from the
  environment. \<open>page_effect\<close> is what a handler that the page passes down does to the state of
  \<open>Main\<close>. The update banner, the three modals and the toasts are rendered beside it and call back
  with nothing but going back; they have theories of their own.
\<close>

record page_local =
  pl_env :: week_env
  pl_week :: week_ui_state
  pl_input :: jstr
  pl_model :: "jstr option"
  pl_phrase :: nat
  pl_plan :: plan_form
  pl_plan_date :: date_editor
  pl_plan_month :: view_month
  pl_dup :: dup_dialog
  pl_dup_date :: date_editor
  pl_dup_month :: view_month
  pl_side :: weeks_fetch
  pl_home :: weeks_fetch
  pl_version :: "VersionInfo option"
  pl_theme :: theme_state
  pl_pretty :: "jstr \<Rightarrow> jstr"
  pl_upper :: "jstr \<Rightarrow> jstr"
  pl_midnight :: "int \<Rightarrow> int"

datatype page_ui =
    TopHome | TopStop | TopTheme Theme | TopRefresh | TopPreferences | TopSettings | TopChat | TopSidebar
  | Overlay | SideUi sidebar_ui | HomeUi home_ui | PlanUi plan_ui | WeekUi week_ui | ChatUi chat_ui | DupUi dup_ui

subsection \<open>The bar at the top\<close>

fun theme_label :: "Theme \<Rightarrow> phrase" where
  "theme_label ThSystem = Key (js ''settings.theme_system'')"
| "theme_label ThLight = Key (js ''settings.theme_light'')"
| "theme_label ThDark = Key (js ''settings.theme_dark'')"

definition theme_button :: "theme_state \<Rightarrow> page_ui node" where
  "theme_button th =
     (let theme = fst (useTheme th); txt = [Key (js ''topbar.theme''), Lit (js '': ''), theme_label theme] in
      El ''button'' [OnClick (TopTheme (next_theme theme)), Title txt, Label txt]
        [El (if snd (useTheme th) = ResDark then ''moon'' else ''sun'') [] []])"

definition top_bar :: "theme_state \<Rightarrow> bool \<Rightarrow> bool \<Rightarrow> page_ui node" where
  "top_bar th isBusy chatIsOpen =
     El ''header'' []
       ([El ''button'' [OnClick TopSidebar, Label (tr ''sidebar.history'')] [],
         El ''button'' [OnClick TopHome, Label (tr ''topbar.brand_home'')] [Txt [Lit (js ''Veckomenyn.'')]]]
        @ shown_if isBusy
            [El ''button'' [OnClick TopStop, Title (tr ''topbar.stop'')]
               [Txt (tr ''topbar.working''), Txt [Lit [183]], Txt (tr ''topbar.stop'')]]
        @ [theme_button th,
           El ''button'' [OnClick TopRefresh, Title (tr ''topbar.refresh'')] [Txt (tr ''topbar.refresh'')],
           El ''button'' [OnClick TopPreferences] [Txt (tr ''topbar.preferences'')],
           El ''button'' [OnClick TopSettings] [Txt (tr ''topbar.settings'')],
           El ''button'' [OnClick TopChat,
                          Class (if chatIsOpen then js ''border border-stone-300 bg-white text-stone-700 hover:bg-stone-50 dark:border-stone-700 dark:bg-stone-800 dark:text-stone-200 dark:hover:bg-stone-700''
                                 else js ''bg-stone-900 text-stone-50 hover:bg-stone-800 dark:bg-stone-100 dark:text-stone-900 dark:hover:bg-stone-200'')]
             [Txt (if chatIsOpen then tr ''topbar.close_chat'' else tr ''topbar.open_chat'')]])"

subsection \<open>The page\<close>

definition date_env_of :: "week_env \<Rightarrow> date_env" where
  "date_env_of en = \<lparr>de_lang = en_lang en, de_now = en_now en, de_month_year = en_month_year en,
                     de_weekdays = en_weekdays en\<rparr>"

definition env_of :: "page_local \<Rightarrow> app \<Rightarrow> week_env" where
  "env_of l s = (pl_env l)\<lparr>en_lang := lang s\<rparr>"

definition main_nodes :: "page_local \<Rightarrow> app \<Rightarrow> page_ui node list" where
  "main_nodes l s =
     (case main_view s of
        ViewPlanForm canCancel \<Rightarrow>
          [map_node PlanUi (plan_new_form (date_env_of (env_of l s)) canCancel (pl_plan l) (pl_plan_date l) (pl_plan_month l))]
      | ViewHome \<Rightarrow> map (map_node HomeUi) (home_view (en_day_short (pl_env l)) (pl_home l))
      | ViewLoading \<Rightarrow> [Txt [Lit (js ''Loading'' @ [8230])]]
      | ViewError e \<Rightarrow> [Txt [Lit (nullish e [])]]
      | ViewWeek w \<Rightarrow> map (map_node WeekUi) (week_view (env_of l s) (pl_week l) (activeDay s) w)
      | ViewNothing \<Rightarrow> [])"

definition panel_of :: "page_local \<Rightarrow> app \<Rightarrow> chat_panel" where
  "panel_of l s =
     \<lparr>pn_open = chatOpen s, pn_busy = busy s, pn_entries = chatEntries s, pn_can_clear = (week s \<noteq> None),
      pn_input = pl_input l, pn_model = pl_model l, pn_phrase = pl_phrase l\<rparr>"

definition page :: "page_local \<Rightarrow> app \<Rightarrow> page_ui node list" where
  "page l s =
     [top_bar (pl_theme l) (busy s) (chatOpen s)]
     @ shown_if (sidebarOpen s) [El ''button'' [OnClick Overlay, Label [Lit (js ''close sidebar'')]] []]
     @ [map_node SideUi (weeks_sidebar (en_day_short (pl_env l)) (sidebarOpen s) (selectedID s) True (plan_new_disabled s)
          (pl_side l) (pl_version l))]
     @ main_nodes l s
     @ map (map_node ChatUi) (chat_drawer (pl_pretty l) (pl_upper l) (en_lower (pl_env l)) (panel_of l s))
     @ map (map_node DupUi) (duplicate_dialog (date_env_of (env_of l s)) (en_day_short (pl_env l)) (pl_midnight l)
         (duplicateSource s) (pl_dup l) (pl_dup_date l) (pl_dup_month l))"

subsection \<open>What the handlers do\<close>

definition patch_opt :: "WeekPatch option \<Rightarrow> app \<Rightarrow> app" where
  "patch_opt p s = (case p of Some q \<Rightarrow> patchCurrentWeek q s | None \<Rightarrow> s)"

definition send_opt :: "jstr option \<Rightarrow> app \<Rightarrow> app" where
  "send_opt m s = (case m of Some msg \<Rightarrow> send msg s | None \<Rightarrow> s)"

text \<open>
  The callbacks of the week view. \<open>answer\<close> is the user's answer should a callback ask a question.
  Ratings and the retrospective save on their own; they call \<open>bumpLoad\<close> only when a reply arrives.
\<close>

fun week_action_effect :: "WeekDetail \<Rightarrow> week_action \<Rightarrow> app \<Rightarrow> app" where
  "week_action_effect w (Prompt m) s = send m s"
| "week_action_effect w (PatchWith p) s = patchCurrentWeek p s"
| "week_action_effect w Duplicate s = requestDuplicate (WeekSummary.truncate w) s"

fun week_effect :: "week_env \<Rightarrow> week_ui_state \<Rightarrow> bool \<Rightarrow> WeekDetail \<Rightarrow> week_ui \<Rightarrow> app \<Rightarrow> app" where
  "week_effect en ui answer w (Act a) s = week_action_effect w a s"
| "week_effect en ui answer w (StartUi (DateEv e)) s =
     (case fst (date_step (Some (start_date w)) False e (wu_start ui)) of
        Some (Some v) \<Rightarrow> patch_opt (start_commit v) s | _ \<Rightarrow> s)"
| "week_effect en ui answer w (EndUi (DateEv e)) s =
     (case fst (date_step (Some (end_date w)) False e (wu_end ui)) of
        Some (Some v) \<Rightarrow> patch_opt (end_commit (en_lang en) w v answer) s | _ \<Rightarrow> s)"
| "week_effect en ui answer w (NotesUi e) s =
     (case fst (text_step True (notes_md w) e (wu_notes ui)) of
        Some d \<Rightarrow> patchCurrentWeek (empty_patch\<lparr>p_notes_md := Some d\<rparr>) s | None \<Rightarrow> s)"
| "week_effect en ui answer w (MenuPick st c) s =
     (case pick_status (en_lang en) (week_status w) st c of Some a \<Rightarrow> week_action_effect w a s | None \<Rightarrow> s)"
| "week_effect en ui answer w (AdjustUi i e) s =
     (case find (\<lambda>d. dinner_id d = i) (dinners w) of
        Some d \<Rightarrow> send_opt (fst (adjust_step (en_lang en) d e (wu_adjust ui i))) s | None \<Rightarrow> s)"
| "week_effect en ui answer w _ s = s"

fun chat_effect_of :: "page_local \<Rightarrow> chat_ui \<Rightarrow> app \<Rightarrow> app" where
  "chat_effect_of l SubmitMessage s = send_opt (fst (submit (busy s) (pl_input l))) s"
| "chat_effect_of l ClearChat s = clearChat s"
| "chat_effect_of l CloseChat s = s\<lparr>chatOpen := False\<rparr>"
| "chat_effect_of l (TypeMessage v) s = s"

fun sidebar_effect :: "bool \<Rightarrow> sidebar_ui \<Rightarrow> app \<Rightarrow> app" where
  "sidebar_effect answer SideNew s = go RNew False (s\<lparr>sidebarOpen := False\<rparr>)"
| "sidebar_effect answer SideClose s = s\<lparr>sidebarOpen := False\<rparr>"
| "sidebar_effect answer (SideSelect i) s = go (RWeek i) False (s\<lparr>sidebarOpen := False\<rparr>)"
| "sidebar_effect answer (SideDuplicate w) s = requestDuplicate w (s\<lparr>sidebarOpen := False\<rparr>)"
| "sidebar_effect answer (SideDelete w) s = deletePlan w answer s"

fun dup_effect :: "page_local \<Rightarrow> dup_ui \<Rightarrow> app \<Rightarrow> app" where
  "dup_effect l DupConfirm s = (case fst (dup_confirm (pl_dup l)) of Some d \<Rightarrow> confirmDuplicate d s | None \<Rightarrow> s)"
| "dup_effect l DupCancel s = s\<lparr>duplicateSource := None\<rparr>"
| "dup_effect l (DupDate e) s = s"

text \<open>\<open>None\<close>: going back from the form has left the page.\<close>

fun page_effect :: "page_local \<Rightarrow> bool \<Rightarrow> page_ui \<Rightarrow> app \<Rightarrow> app option" where
  "page_effect l answer TopHome s = Some (go RHome False s)"
| "page_effect l answer TopStop s = Some (cancel s)"
| "page_effect l answer (TopTheme th) s = Some s"
| "page_effect l answer TopRefresh s = Some (bumpLoad s)"
| "page_effect l answer TopPreferences s = Some (go RPreferences False s)"
| "page_effect l answer TopSettings s = Some (go RSettings False s)"
| "page_effect l answer TopChat s = Some (s\<lparr>chatOpen := \<not> chatOpen s\<rparr>)"
| "page_effect l answer TopSidebar s = Some (s\<lparr>sidebarOpen := \<not> sidebarOpen s\<rparr>)"
| "page_effect l answer Overlay s = Some (s\<lparr>sidebarOpen := False\<rparr>)"
| "page_effect l answer (SideUi e) s = Some (sidebar_effect answer e s)"
| "page_effect l answer (HomeUi HomePlan) s = Some (go RNew False s)"
| "page_effect l answer (HomeUi (HomeOpen i)) s = Some (go (RWeek i) False s)"
| "page_effect l answer (PlanUi PlanSubmit) s =
     Some (case fst (plan_submit (pl_plan l)) of Some wc \<Rightarrow> ask (ReqCreate wc) s | None \<Rightarrow> s)"
| "page_effect l answer (PlanUi PlanCancel) s =
     (case cancel_plan s of InApp h \<Rightarrow> if in_main h then Some (s\<lparr>hist := h\<rparr>) else None | LeftApp \<Rightarrow> None)"
| "page_effect l answer (PlanUi _) s = Some s"
| "page_effect l answer (WeekUi e) s =
     Some (case week s of Some w \<Rightarrow> week_effect (env_of l s) (pl_week l) answer w e s | None \<Rightarrow> s)"
| "page_effect l answer (ChatUi e) s = Some (chat_effect_of l e s)"
| "page_effect l answer (DupUi e) s = Some (dup_effect l e s)"

subsection \<open>Texts\<close>

lemma top_bar_complete: "texts_complete (top_bar th b c)"
  by (cases "fst (useTheme th)") (simp_all add: top_bar_def theme_button_def Let_def text_keys)

lemma page_complete:
  assumes "pl_phrase l < 13"
  shows "list_all texts_complete (page l s)"
proof -
  have "list_all texts_complete (main_nodes l s)"
    by (simp add: main_nodes_def plan_form_complete home_complete week_view_complete split: MainView.split)
  then show ?thesis
    using assms by (simp add: page_def top_bar_complete sidebar_complete drawer_complete dup_dialog_complete panel_of_def)
qed

subsection \<open>Every control acts by steps of the application\<close>

text \<open>A path made of a week's id never names a print view, whatever the id.\<close>

lemma no_slash_dec_int: "c_slash \<notin> set (dec_int i)"
  using no_slash_dec by (simp add: dec_int_def)

lemma week_path_parts: "length (filter (\<lambda>p. p \<noteq> []) (split_on c_slash (js ''/weeks/'' @ dec_int i))) \<le> 2"
proof -
  have "split_on c_slash (js ''/weeks/'' @ dec_int i) = [[], js ''weeks'', dec_int i]"
    unfolding weeks_prefix using no_slash_literals(1) no_slash_dec_int
    by (simp add: split_on_append_sep split_on_no_sep)
  then show ?thesis by simp
qed

lemma week_path_not_print: "parseRoute (js ''/weeks/'' @ dec_int i) \<noteq> RPrint j"
  using week_path_parts [of i] by (auto simp: parseRoute_def Let_def split: if_splits)

lemma go_in_main:
  "in_main (navigate RHome rep h)" "in_main (navigate RNew rep h)" "in_main (navigate RSettings rep h)"
  "in_main (navigate RPreferences rep h)"
  by (simp_all add: in_main_def navigate_def useRoute_def parseRoute_def)

lemma go_week_in_main: "in_main (navigate (RWeek i) rep h)"
  using week_path_not_print [of i] by (simp add: in_main_def navigate_def useRoute_def split: Route.split)

text \<open>A handler that touches nothing the effects depend on is followed by no effect.\<close>

lemma reachable_idle: "app_reachable pj s \<Longrightarrow> commit s = s"
proof -
  assume "app_reachable pj s"
  then have "loader_deps s = Some (deps_of s)" "chat_deps s = Some (week_key s)"
    using reachable_loader_inv reachable_chat_inv by (auto simp: loader_inv_def synced_def)
  then show ?thesis by (simp add: commit_def loader_effect_def chat_effect_def)
qed

definition leads :: "(jstr \<Rightarrow> json option) \<Rightarrow> app \<Rightarrow> bool" where
  "leads pj s \<longleftrightarrow> app_reachable pj (commit s)"

lemma leads_steps:
  assumes "app_reachable pj s"
  shows "leads pj s" "leads pj (send m s)" "leads pj (cancel s)" "leads pj (bumpLoad s)" "leads pj (ask (ReqCreate wc) s)"
    "leads pj (requestDuplicate src s)" "leads pj (s\<lparr>duplicateSource := None\<rparr>)" "leads pj (confirmDuplicate d s)"
    "leads pj (deletePlan src c s)" "leads pj (clearChat s)" "leads pj (patchCurrentWeek p s)"
    "in_main (navigate r rep (hist s)) \<Longrightarrow> leads pj (go r rep s)" "in_main h \<Longrightarrow> leads pj (s\<lparr>hist := h\<rparr>)"
    "leads pj (s\<lparr>chatOpen := a, sidebarOpen := b\<rparr>)"
  using assms reachable_idle [OF assms] by (simp_all add: leads_def) (blast intro: stepped app_step.intros)+

lemma panel_leads:
  assumes "app_reachable pj s"
  shows "leads pj (s\<lparr>chatOpen := a\<rparr>)" "leads pj (s\<lparr>sidebarOpen := b\<rparr>)"
  using leads_steps(14) [OF assms, where a = a and b = "sidebarOpen s"]
    leads_steps(14) [OF assms, where a = "chatOpen s" and b = b] by simp_all

text \<open>The sidebar closes and something else happens in one handler.\<close>

lemma closed_sidebar:
  assumes "app_reachable pj s"
  shows "app_reachable pj (s\<lparr>sidebarOpen := b\<rparr>)"
proof -
  have "loader_deps s = Some (deps_of s)" "chat_deps s = Some (week_key s)"
    using assms reachable_loader_inv reachable_chat_inv by (auto simp: loader_inv_def synced_def)
  then have "commit (s\<lparr>sidebarOpen := b\<rparr>) = s\<lparr>sidebarOpen := b\<rparr>"
    by (simp add: commit_def loader_effect_def chat_effect_def deps_of_def week_key_def)
  with panel_leads(2) [OF assms, of b] show ?thesis by (simp add: leads_def)
qed

lemma sidebar_leads: "app_reachable pj s \<Longrightarrow> leads pj (sidebar_effect answer e s)"
  by (cases e) (simp_all add: leads_steps closed_sidebar panel_leads go_in_main go_week_in_main)

lemma week_action_leads: "app_reachable pj s \<Longrightarrow> leads pj (week_action_effect w a s)"
  by (cases a) (simp_all add: leads_steps)

lemma opt_leads: "app_reachable pj s \<Longrightarrow> leads pj (patch_opt p s)" "app_reachable pj s \<Longrightarrow> leads pj (send_opt m s)"
  by (simp_all add: patch_opt_def send_opt_def leads_steps split: option.split)

lemma week_leads: "app_reachable pj s \<Longrightarrow> leads pj (week_effect en ui answer w e s)"
  by (cases "(en, ui, answer, w, e, s)" rule: week_effect.cases)
    (simp_all add: week_action_leads opt_leads leads_steps split: option.split)

lemma chat_leads: "app_reachable pj s \<Longrightarrow> leads pj (chat_effect_of l e s)"
  by (cases e) (simp_all add: opt_leads leads_steps panel_leads)

lemma dup_leads: "app_reachable pj s \<Longrightarrow> leads pj (dup_effect l e s)"
  by (cases e) (simp_all add: leads_steps split: option.split)

lemma page_leads:
  assumes "app_reachable pj s" and "page_effect l answer e s = Some s'"
  shows "leads pj s'"
  using assms
  by (cases "(l, answer, e, s)" rule: page_effect.cases)
    (auto simp: leads_steps panel_leads go_in_main go_week_in_main sidebar_leads week_leads chat_leads dup_leads
      split: option.splits nav_result.splits if_splits)

subsection \<open>During a turn\<close>

lemma main_fires: "fires_in i (main_nodes l s) \<subseteq> range PlanUi \<union> range HomeUi \<union> range WeekUi"
  by (auto simp: main_nodes_def split: MainView.splits)

lemma top_fires: "ChatUi e \<notin> fires i (top_bar th b c)"
  by (cases i) (auto simp: top_bar_def theme_button_def Let_def)

lemma chat_of_page: "ChatUi e \<in> fires_in i (page l s) \<Longrightarrow>
    e \<in> fires_in i (chat_drawer (pl_pretty l) (pl_upper l) (en_lower (pl_env l)) (panel_of l s))"
  using main_fires [of i l s] top_fires [of e i "pl_theme l" "busy s" "chatOpen s"]
  by (cases i) (auto simp: page_def split: if_splits)

lemma busy_chat:
  assumes "busy s" and "ChatUi e \<in> fires_in i (page l s)"
  shows "e = CloseChat"
proof -
  have "e \<in> fires_in i (chat_drawer (pl_pretty l) (pl_upper l) (en_lower (pl_env l)) (panel_of l s))"
    by (rule chat_of_page [OF assms(2)])
  then show ?thesis
    unfolding drawer_fires header_fires footer_fires using assms(1)
    by (cases i) (auto simp: panel_of_def send_disabled_def split: if_splits)
qed

definition turn_part :: "app \<Rightarrow> ChatEntry list \<times> int option \<times> stream option" where
  "turn_part s = (chatEntries s, conversationID s, streaming s)"

lemma turn_handlers:
  "turn_part (go r rep s) = turn_part s" "turn_part (bumpLoad s) = turn_part s" "turn_part (ask q s) = turn_part s"
  "turn_part (requestDuplicate w s) = turn_part s" "turn_part (confirmDuplicate d s) = turn_part s"
  "turn_part (deletePlan w c s) = turn_part s" "turn_part (patchCurrentWeek p s) = turn_part s"
  "turn_part (patch_opt po s) = turn_part s" "busy s \<Longrightarrow> send m s = s" "busy s \<Longrightarrow> send_opt mo s = s"
  by (simp_all add: turn_part_def go_def bumpLoad_def ask_def requestDuplicate_def confirmDuplicate_def
      deletePlan_def patchCurrentWeek_def patch_opt_def send_def send_opt_def split: option.split)

lemma busy_week: "busy s \<Longrightarrow> turn_part (week_effect en ui answer w e s) = turn_part s"
proof -
  assume b: "busy s"
  have act: "turn_part (week_action_effect w a s) = turn_part s" for a
    using b by (cases a) (simp_all add: turn_handlers)
  show ?thesis
    by (cases "(en, ui, answer, w, e, s)" rule: week_effect.cases)
      (simp_all add: act b turn_handlers split: option.split)
qed

lemma turn_frames [simp]:
  "turn_part (s\<lparr>sidebarOpen := b\<rparr>) = turn_part s" "turn_part (s\<lparr>chatOpen := b\<rparr>) = turn_part s"
  "turn_part (s\<lparr>hist := h\<rparr>) = turn_part s" "turn_part (s\<lparr>duplicateSource := d\<rparr>) = turn_part s"
  by (simp_all add: turn_part_def)

lemma busy_sidebar: "turn_part (sidebar_effect answer e s) = turn_part s"
  by (cases e) (simp_all add: turn_handlers)

lemma busy_dup: "turn_part (dup_effect l e s) = turn_part s"
  by (cases e) (simp_all add: turn_handlers split: option.split)

lemma busy_page:
  assumes "busy s" and "e \<in> fires_in i (page l s)" and "page_effect l answer e s = Some s'" and "e \<noteq> TopStop"
  shows "turn_part s' = turn_part s"
proof (cases e)
  case (ChatUi c)
  then show ?thesis using assms busy_chat by fastforce
qed (use assms in \<open>auto simp: turn_handlers busy_week busy_sidebar busy_dup
      elim!: page_effect.elims split: option.splits nav_result.splits if_splits\<close>)

subsection \<open>Properties\<close>





end
