(* ===== verification/IntegrationView.thy ===== *)
theory IntegrationView
  imports Integrations Texts
begin

text \<open>
  What web/src/components/IntegrationsSection.tsx renders: the card that selects and tests the
  language-model provider with the fields of the active one, and a card with a form for every
  other provider. The names and labels of the providers come from the server: most are
  translation keys, and the others are shown as they are.
\<close>

datatype integration_ui =
  IgSelect jstr                   \<comment> \<open>the kind to switch to\<close>
| IgTest
| IgField jstr jstr jstr          \<comment> \<open>the kind whose form it is, the field, its new value\<close>
| IgEnabled jstr bool
| IgSave jstr

subsection \<open>The fields of a form\<close>

definition field_options :: "ProviderField \<Rightarrow> ProviderFieldOption list" where
  "field_options f = nullish (f_options f) []"

definition field_view :: "jstr \<Rightarrow> jstr \<Rightarrow> config \<Rightarrow> ProviderField \<Rightarrow> integration_ui node" where
  "field_view kind sentinel cfg f =
     El ''label'' []
       ([Txt ([Named (f_label f)] @ (if f_required f = Some True then [Lit (js '' *'')] else [])),
         if f_type f = FSelect then
           El ''select'' [Val (field_value cfg f), OnChange (IgField kind (f_key f))]
             (map (\<lambda>op. El ''option'' [Val (opt_value op)] [Txt [Named (opt_label op)]]) (field_options f))
         else
           El ''input'' [Type (if f_type f = FPassword then ''password'' else ''text''), Val (field_value cfg f),
                         OnChange (IgField kind (f_key f)), Placeholder [Lit (nullish (f_placeholder f) [])]] []]
        @ shown_opt (f_hint f) (\<lambda>h. shown_if (truthy h) [El ''span'' [] [Txt [Named h]]])
        @ shown_if (secret_hint sentinel cfg f) [El ''span'' [] [Txt (tr ''integrations.secret_set_hint'')]])"

definition FieldList :: "jstr \<Rightarrow> jstr \<Rightarrow> config \<Rightarrow> ProviderField list \<Rightarrow> integration_ui node list" where
  "FieldList kind sentinel cfg fds = map (field_view kind sentinel cfg) fds"

definition save_text :: "provider_form \<Rightarrow> phrase list" where
  "save_text s = (if fm_pending s then tr ''settings.saving'' else tr ''settings.save'')"

subsection \<open>The card of a provider\<close>

definition provider_card :: "jstr \<Rightarrow> ProviderKindInfo \<Rightarrow> Provider \<Rightarrow> provider_form \<Rightarrow> integration_ui node" where
  "provider_card sentinel info p s =
     El ''article'' []
       ([El ''h4'' [] [Txt [Named (pk_display_name info)]], El ''p'' [] [Txt (tr ''integrations.category_shopping'')],
         El ''label'' []
           [El ''input'' [Type ''checkbox'', Checked (fm_enabled s), OnClick (IgEnabled (pk_kind info) (\<not> fm_enabled s))] [],
            Txt (tr ''integrations.enabled'')]]
        @ FieldList (pk_kind info) sentinel (fm_config s) (pk_fields info)
        @ [El ''button'' [OnClick (IgSave (pk_kind info)),
                          Disabled (fm_pending s \<or> \<not> form_dirty True (pk_fields info) p s)] [Txt (save_text s)]])"

subsection \<open>The card of the language models\<close>

definition test_result :: "bool \<times> jstr \<Rightarrow> 'e node" where
  "test_result r =
     El ''div'' [Class (if fst r then js ''border-emerald-200 bg-emerald-50 text-emerald-800 dark:border-emerald-900 dark:bg-emerald-950/40 dark:text-emerald-200''
                        else js ''border-red-200 bg-red-50 text-red-800 dark:border-red-900 dark:bg-red-950/40 dark:text-red-200'')] [Txt [Lit (snd r)]]"

text \<open>Only the active provider's fields are shown; Test makes place for Save once there is a change.\<close>

definition llm_fields ::
    "jstr \<Rightarrow> bool \<Rightarrow> bool \<Rightarrow> (bool \<times> jstr) option \<Rightarrow> ProviderKindInfo \<Rightarrow> Provider \<Rightarrow> provider_form \<Rightarrow> integration_ui node list"
  where
  "llm_fields sentinel visible is_testing result info p s =
     shown_if visible
       (FieldList (pk_kind info) sentinel (fm_config s) (pk_fields info)
        @ [if \<not> form_dirty False (pk_fields info) p s then
             El ''button'' [OnClick IgTest, Disabled (is_testing \<or> fm_pending s)]
               [Txt (if is_testing then tr ''provider.testing'' else tr ''provider.test'')]
           else
             El ''button'' [OnClick (IgSave (pk_kind info)), Disabled (fm_pending s)] [Txt (save_text s)]]
        @ shown_opt result (\<lambda>r. [test_result r]))"

definition kind_button :: "llm_card \<Rightarrow> ProviderKindInfo \<Rightarrow> integration_ui node" where
  "kind_button c k =
     El ''button'' [Disabled (switching c), OnClick (IgSelect (pk_kind k)),
                    Class (if activeKind c = pk_kind k then js ''bg-stone-900 text-white dark:bg-stone-100 dark:text-stone-900''
                           else js ''bg-stone-100 text-stone-600 hover:bg-stone-200 dark:bg-stone-800 dark:text-stone-400 dark:hover:bg-stone-700'')]
       [Txt [Named (pk_display_name k)]]"

definition llm_provider_card ::
    "jstr \<Rightarrow> Provider list \<Rightarrow> (jstr \<Rightarrow> provider_form) \<Rightarrow> llm_card \<Rightarrow> ProviderKindInfo list \<Rightarrow> integration_ui node" where
  "llm_provider_card sentinel ps forms c kinds =
     El ''article'' []
       ([El ''h4'' [] [Txt (tr ''integrations.category_llm'')], El ''div'' [] (map (kind_button c) kinds)]
        @ concat (map (\<lambda>info.
            llm_fields sentinel (activeKind c = pk_kind info) (testing c)
              (if activeKind c = pk_kind info then testResult c else None) info (provider_for ps info)
              (forms (pk_kind info))) kinds))"

subsection \<open>The section\<close>

definition integrations_view ::
    "(jstr \<Rightarrow> provider_form) \<Rightarrow> llm_card \<Rightarrow> integrations \<Rightarrow> integration_ui node" where
  "integrations_view forms c s =
     El ''section'' []
       ([El ''h3'' [] [Txt (tr ''integrations.title'')], El ''p'' [] [Txt (tr ''integrations.subtitle'')]]
        @ shown_if (llmKinds s \<noteq> [])
            [llm_provider_card (ig_sentinel s) (ig_providers s) forms c (llmKinds s)]
        @ map (\<lambda>info. provider_card (ig_sentinel s) info (provider_for (ig_providers s) info) (forms (pk_kind info)))
            (otherKinds s))"

text \<open>What the forms' controls do to the form of a kind, and what they send.\<close>

fun form_act ::
    "bool \<Rightarrow> ProviderField list \<Rightarrow> Provider \<Rightarrow> integration_ui \<Rightarrow> provider_form \<Rightarrow> (bool option \<times> config) option \<times> provider_form"
  where
  "form_act checks_enabled fds p (IgField kind k v) s = (None, form_edit k v s)"
| "form_act checks_enabled fds p (IgEnabled kind b) s = (None, s\<lparr>fm_enabled := b\<rparr>)"
| "form_act checks_enabled fds p (IgSave kind) s = form_save checks_enabled fds p s"
| "form_act checks_enabled fds p _ s = (None, s)"

subsection \<open>Texts\<close>

text \<open>No name that the server sends for a provider is the key of a text with tokens.\<close>

definition labels_complete :: "ProviderKindInfo \<Rightarrow> bool" where
  "labels_complete info \<longleftrightarrow>
     complete (Named (pk_display_name info)) \<and>
     list_all (\<lambda>f. complete (Named (f_label f)) \<and> (\<forall>h. f_hint f = Some h \<and> truthy h \<longrightarrow> complete (Named h)) \<and>
       list_all (\<lambda>op. complete (Named (opt_label op))) (field_options f)) (pk_fields info)"

lemma fields_complete: "labels_complete info \<Longrightarrow> list_all texts_complete (FieldList kind sentinel cfg (pk_fields info))"
  by (auto simp: labels_complete_def FieldList_def field_view_def list_all_iff text_keys split: option.split)

lemma provider_card_complete: "labels_complete info \<Longrightarrow> texts_complete (provider_card sentinel info p s)"
  by (simp add: provider_card_def save_text_def fields_complete text_keys, simp add: labels_complete_def)

lemma llm_fields_complete:
  "labels_complete info \<Longrightarrow> list_all texts_complete (llm_fields sentinel v tst r info p s)"
  by (simp add: llm_fields_def test_result_def save_text_def fields_complete text_keys split: option.split)

lemma llm_card_complete:
  assumes "list_all labels_complete kinds"
  shows "texts_complete (llm_provider_card sentinel ps forms c kinds)"
proof -
  have "list_all (\<lambda>info. complete (Named (pk_display_name info))) kinds"
    using assms by (rule list.pred_mono_strong) (simp add: labels_complete_def)
  moreover have "list_all (\<lambda>info. list_all texts_complete (llm_fields sentinel (activeKind c = pk_kind info) (testing c)
      (if activeKind c = pk_kind info then testResult c else None) info (provider_for ps info) (forms (pk_kind info)))) kinds"
    using assms by (rule list.pred_mono_strong) (rule llm_fields_complete)
  ultimately show ?thesis by (simp add: llm_provider_card_def kind_button_def text_keys)
qed

lemma integrations_complete:
  assumes "list_all labels_complete (ig_known s)"
  shows "texts_complete (integrations_view forms c s)"
proof -
  have kinds: "list_all labels_complete (llmKinds s)" "list_all labels_complete (otherKinds s)"
    using assms by (auto simp: list_all_iff llmKinds_def otherKinds_def)
  have "list_all (\<lambda>info. texts_complete (provider_card (ig_sentinel s) info (provider_for (ig_providers s) info)
      (forms (pk_kind info)))) (otherKinds s)"
    using kinds(2) by (rule list.pred_mono_strong) (rule provider_card_complete)
  then show ?thesis by (simp add: integrations_view_def llm_card_complete [OF kinds(1)] text_keys)
qed

subsection \<open>What the user can do\<close>

lemma field_fires:
  "fires i (field_view kind sentinel cfg f) =
     (case i of input.Change v \<Rightarrow> {IgField kind (f_key f) v} | _ \<Rightarrow> {})"
  by (cases i) (auto simp: field_view_def split: option.split)

lemma fields_fire:
  "fires_in i (FieldList kind sentinel cfg fds) =
     (case i of input.Change v \<Rightarrow> (\<lambda>f. IgField kind (f_key f) v) ` set fds | _ \<Rightarrow> {})"
  by (cases i) (auto simp: FieldList_def field_fires)

lemma provider_card_fires:
  "fires i (provider_card sentinel info p s) =
     fires_in i (FieldList (pk_kind info) sentinel (fm_config s) (pk_fields info))
     \<union> (if i = Click then
          insert (IgEnabled (pk_kind info) (\<not> fm_enabled s))
            (if fm_pending s \<or> \<not> form_dirty True (pk_fields info) p s then {} else {IgSave (pk_kind info)})
        else {})"
  by (cases i) (auto simp: provider_card_def)

lemma llm_fields_fire:
  "fires_in i (llm_fields sentinel visible tst r info p s) =
     (if \<not> visible then {}
      else fires_in i (FieldList (pk_kind info) sentinel (fm_config s) (pk_fields info))
        \<union> (if i \<noteq> Click \<or> fm_pending s then {}
           else if form_dirty False (pk_fields info) p s then {IgSave (pk_kind info)}
           else if tst then {} else {IgTest}))"
  by (cases i) (auto simp: llm_fields_def test_result_def split: option.split)

lemma llm_card_fires:
  "fires i (llm_provider_card sentinel ps forms c kinds) =
     (if i = Click \<and> \<not> switching c then (\<lambda>k. IgSelect (pk_kind k)) ` set kinds else {})
     \<union> (\<Union>info\<in>set kinds. fires_in i (llm_fields sentinel (activeKind c = pk_kind info) (testing c)
          (if activeKind c = pk_kind info then testResult c else None) info (provider_for ps info) (forms (pk_kind info))))"
  by (cases i) (auto simp: llm_provider_card_def kind_button_def)

lemma save_in_card:
  "IgSave k \<in> fires i (provider_card sentinel info p s) \<longleftrightarrow>
     i = Click \<and> pk_kind info = k \<and> fst (form_save True (pk_fields info) p s) \<noteq> None"
  unfolding provider_card_fires fields_fire form_save_iff by (cases i) auto

lemma save_in_llm_card:
  "IgSave k \<in> fires i (llm_provider_card sentinel ps forms c kinds) \<longleftrightarrow>
     i = Click \<and> (\<exists>info\<in>set kinds. pk_kind info = k \<and> activeKind c = k
       \<and> fst (form_save False (pk_fields info) (provider_for ps info) (forms k)) \<noteq> None)"
  unfolding llm_card_fires llm_fields_fire fields_fire form_save_iff by (cases i) auto

text \<open>
  C40: A Save button does something exactly when it can be pressed: the page offers a control that
  saves the settings of a provider if and only if its form is shown, holds a change, and has no
  save under way, which is when the handler sends a request.
\<close>

theorem save_offered_iff_sent:
  "IgSave k \<in> fires i (integrations_view forms c s) \<longleftrightarrow>
     i = Click \<and>
     ((\<exists>info\<in>set (otherKinds s). pk_kind info = k
         \<and> fst (form_save True (pk_fields info) (provider_for (ig_providers s) info) (forms k)) \<noteq> None)
      \<or> (\<exists>info\<in>set (llmKinds s). pk_kind info = k \<and> activeKind c = k
         \<and> fst (form_save False (pk_fields info) (provider_for (ig_providers s) info) (forms k)) \<noteq> None))"
  by (auto simp: integrations_view_def save_in_card save_in_llm_card)

text \<open>
  When the providers are loaded again, after any of them was saved, every form starts over from what
  is stored: an edit of another form that was not saved is gone.
\<close>

lemma reload_drops_edits:
  "fm_config (form_provider fds p (snd (form_act ce fds p (IgField kind k v) s))) = initialConfig fds (pr_config p)"
  by (simp add: form_provider_def form_edit_def)

end
