(* ===== verification/MaintenanceView.thy ===== *)
theory MaintenanceView
  imports Maintenance Texts Api
begin

text \<open>
  What web/src/components/BackupsSection.tsx and SetupWizard.tsx render. \<open>shown_time\<close> is the
  browser's format of a point in time, \<open>None\<close> for a text that is no time.
\<close>

subsection \<open>The backups\<close>

datatype backups_event = BeNightly bool | BeKeep jstr | BeTake | BeDelete jstr

definition formatTaken :: "(jstr \<Rightarrow> jstr option) \<Rightarrow> jstr \<Rightarrow> jstr" where
  "formatTaken shown_time taken_at = nullish (shown_time taken_at) taken_at"

definition reason_color :: "BackupReason \<Rightarrow> jstr" where
  "reason_color r =
     (case r of
        PreMigration \<Rightarrow> js ''bg-amber-100 text-amber-900 dark:bg-amber-950/60 dark:text-amber-200''
      | Manual \<Rightarrow> js ''bg-sky-100 text-sky-900 dark:bg-sky-950/60 dark:text-sky-200''
      | Nightly \<Rightarrow> js ''bg-emerald-100 text-emerald-900 dark:bg-emerald-950/60 dark:text-emerald-200''
      | NoReason \<Rightarrow> js ''bg-stone-200 text-stone-800 dark:bg-stone-700 dark:text-stone-200'')"

definition ReasonChip :: "BackupReason \<Rightarrow> jstr \<Rightarrow> 'e node list" where
  "ReasonChip r lbl =
     [El ''span'' [Class (reason_color r)]
        [Txt (if truthy (reason_str r) then [Key (js ''backups.reason.'' @ reason_str r)] else [Lit (reason_str r)])]]
     @ shown_if (truthy lbl) [El ''span'' [] [Txt [Lit lbl]]]"

text \<open>The configuration: its checkbox is clicked to the opposite of what it shows.\<close>

definition backup_config :: "BackupBusy \<Rightarrow> BackupConfig \<Rightarrow> backups_event node list" where
  "backup_config busy c =
     [El ''label'' []
        [El ''input'' [Type ''checkbox'', Checked (nightly_enabled c), Disabled (\<not> can_write c \<or> busy = BkSaving),
                       OnClick (BeNightly (\<not> nightly_enabled c))] [],
         Txt (tr ''backups.nightly'')]]
     @ shown_if (nightly_enabled c)
         [El ''label'' []
            [Txt (tr ''backups.keep''),
             El ''input'' [Type ''number'', Val (dec_int (nightly_keep c)), Disabled (busy = BkSaving), OnChange BeKeep] [],
             Txt (tr ''backups.keep_unit'')]]
     @ [El ''button'' [OnClick BeTake, Disabled (\<not> can_write c \<or> busy \<noteq> BkIdle)]
          [Txt (if busy = BkTaking then tr ''backups.taking'' else tr ''backups.take_now'')]]
     @ shown_if (\<not> can_write c) [El ''p'' [] [Txt (tr ''backups.nightly_disabled'')]]"

text \<open>\<open>backupDownloadURL\<close> throws for a name that has no encoding; server file names have one.\<close>

definition backup_row :: "(jstr \<Rightarrow> jstr option) \<Rightarrow> Backup \<Rightarrow> backups_event node" where
  "backup_row shown_time b =
     El ''tr'' []
       [El ''td'' [] [Txt [Lit (formatTaken shown_time (bk_created_at b))]],
        El ''td'' [] (ReasonChip (reason b) (bk_label b)),
        El ''td'' [] [Txt [Lit (formatSize (size_bytes b))]],
        El ''td'' []
          [El ''a'' [Href (nullish (backupDownloadURL (filename b)) [])] [Txt (tr ''backups.download'')],
           El ''button'' [OnConfirm (tr ''backups.delete_confirm'') (BeDelete (filename b)) None]
             [Txt (tr ''backups.delete'')]]]"

definition backups_view :: "(jstr \<Rightarrow> jstr option) \<Rightarrow> backups_ui \<Rightarrow> backups_event node" where
  "backups_view shown_time s =
     El ''section'' []
       ([El ''h3'' [] [Txt (tr ''backups.title'')], El ''p'' [] [Txt (tr ''backups.subtitle'')]]
        @ shown_opt (bk_error s) (\<lambda>e. shown_if (truthy e) [El ''div'' [] [Txt [Lit e]]])
        @ shown_opt (bk_cfg s) (backup_config (bk_busy s))
        @ [if bk_list s = Some [] then El ''p'' [] [Txt (tr ''backups.empty'')]
           else El ''table'' []
             (El ''tr'' []
                [El ''th'' [] [Txt (tr ''backups.col.taken'')], El ''th'' [] [Txt (tr ''backups.col.reason'')],
                 El ''th'' [] [Txt (tr ''backups.col.size'')], El ''th'' [] []]
              # map (backup_row shown_time) (nullish (bk_list s) []))]
        @ [El ''p'' [] [Txt (tr ''backups.restore_hint'')]])"

text \<open>What a click or an edit asks of the server.\<close>

datatype backup_call = CallTake | CallDelete jstr | CallPatch bk_patch

fun backups_act :: "backups_event \<Rightarrow> backups_ui \<Rightarrow> backup_call option \<times> backups_ui" where
  "backups_act (BeNightly b) s = (case onToggleNightly b s of (p, s') \<Rightarrow> (map_option CallPatch p, s'))"
| "backups_act (BeKeep txt) s = (case onChangeKeep (parse_int txt) s of (p, s') \<Rightarrow> (map_option CallPatch p, s'))"
| "backups_act BeTake s = (Some CallTake, onTake s)"
| "backups_act (BeDelete file) s = (case onDelete True s of (sent, s') \<Rightarrow> (if sent then Some (CallDelete file) else None, s'))"

subsection \<open>The set-up wizard\<close>

datatype wizard_ui = WuBack | WuNext | WuType jstr | WuSave | WuSeed | WuFinish

definition WelcomeStep :: "'e node list" where
  "WelcomeStep =
     [El ''h1'' [] [Txt (tr ''setup.welcome_title'')], El ''p'' [] [Txt (tr ''setup.welcome_body'')],
      El ''p'' [] [Txt (tr ''setup.lan_warning_title'')], El ''p'' [] [Txt (tr ''setup.lan_warning_body'')]]"

definition ApiKeyStep :: "jstr \<Rightarrow> bool \<Rightarrow> wizard_ui node list" where
  "ApiKeyStep v busy =
     [El ''h2'' [] [Txt (tr ''setup.api_key_title'')], El ''p'' [] [Txt (tr ''setup.api_key_body'')],
      El ''input'' [Type ''password'', Val v, OnChange WuType, Placeholder (tr ''setup.api_key_placeholder''),
                    OnPress (\<lambda>k. if k_name k = js ''Enter'' \<and> \<not> busy \<and> truthy (trim v) then [WuSave] else [])] [],
      El ''a'' [Href (js ''https://console.anthropic.com/settings/keys'')]
        [Txt [Key (js ''setup.api_key_help''), Lit [c_space, 8599]]]]"

definition SeedStep :: "bool \<Rightarrow> int option \<Rightarrow> 'e node list" where
  "SeedStep busy n =
     [El ''h2'' [] [Txt (tr ''setup.seed_title'')], El ''p'' [] [Txt (tr ''setup.seed_body'')]]
     @ shown_opt n (\<lambda>m. [El ''p'' [] [Txt [KeyWith (js ''setup.seed_done'') [(js ''n'', dec_int m)]]]])
     @ shown_if busy [El ''p'' [] [Txt (tr ''setup.seed_seeding'')]]"

definition wizard_buttons :: "wizard \<Rightarrow> wizard_ui node list" where
  "wizard_buttons s =
     [El ''button'' [OnClick WuBack, Disabled (step_index STEPS (wz_step s) = 0 \<or> wz_busy s \<noteq> WzIdle)]
        [Txt (tr ''setup.back'')]]
     @ shown_if (wz_step s = Welcome) [El ''button'' [OnClick WuNext] [Txt (tr ''setup.next'')]]
     @ shown_if (wz_step s = ApiKey)
         [El ''button'' [OnClick WuSave, Disabled (\<not> truthy (trim (wz_apiKey s)) \<or> wz_busy s \<noteq> WzIdle)]
            [Txt (if wz_busy s = WzSaving then tr ''setup.api_key_saving'' else tr ''setup.api_key_save'')]]
     @ shown_if (wz_step s = Seed)
         (case seededCount s of
            None \<Rightarrow>
              [El ''button'' [OnClick WuFinish] [Txt (tr ''setup.skip'')],
               El ''button'' [OnClick WuSeed, Disabled (wz_busy s \<noteq> WzIdle)]
                 [Txt (if wz_busy s = WzSeeding then tr ''setup.seed_seeding'' else tr ''setup.seed_button'')]]
          | Some n \<Rightarrow> [El ''button'' [OnClick WuFinish] [Txt (tr ''setup.finish'')]])"

definition wizard_view :: "wizard \<Rightarrow> wizard_ui node" where
  "wizard_view s =
     El ''div'' []
       ([El ''p'' [] [Txt [KeyWith (js ''setup.step'')
           [(js ''n'', dec_int (step_index STEPS (wz_step s) + 1)), (js ''total'', dec (length STEPS))]]]]
        @ shown_if (wz_step s = Welcome) WelcomeStep
        @ shown_if (wz_step s = ApiKey) (ApiKeyStep (wz_apiKey s) (wz_busy s = WzSaving))
        @ shown_if (wz_step s = Seed) (SeedStep (wz_busy s = WzSeeding) (seededCount s))
        @ shown_opt (wz_error s) (\<lambda>e. shown_if (truthy e) [El ''div'' [] [Txt [Lit e]]])
        @ wizard_buttons s)"

fun wizard_act :: "wizard_ui \<Rightarrow> wizard \<Rightarrow> wizard" where
  "wizard_act WuBack s = back_wizard s"
| "wizard_act WuNext s = next_wizard s"
| "wizard_act (WuType v) s = s\<lparr>wz_apiKey := v\<rparr>"
| "wizard_act WuSave s = snd (saveKey s)"
| "wizard_act WuSeed s = onSeed s"
| "wizard_act WuFinish s = finish s"

subsection \<open>Texts\<close>

lemma reason_complete [simp]: "list_all complete
    (if truthy (reason_str r) then [Key (js ''backups.reason.'' @ reason_str r)] else [Lit (reason_str r)])"
  by (cases r) (simp_all add: js_append [symmetric] text_keys)

lemma backups_complete: "texts_complete (backups_view shown_time s)"
  by (simp add: backups_view_def backup_config_def backup_row_def ReasonChip_def text_keys split: option.split)

lemma wizard_complete: "texts_complete (wizard_view s)"
  by (simp add: wizard_view_def wizard_buttons_def WelcomeStep_def ApiKeyStep_def SeedStep_def text_keys
      split: option.split)

subsection \<open>What the user can do\<close>

lemma backup_row_fires:
  "fires i (backup_row shown_time b) = (if i = Click then {BeDelete (filename b)} else {})"
  by (cases i) (auto simp: backup_row_def ReasonChip_def shown_if_def)

lemma backup_config_fires:
  "fires_in i (backup_config busy c) =
     (case i of
        Click \<Rightarrow> (if can_write c \<and> busy \<noteq> BkSaving then {BeNightly (\<not> nightly_enabled c)} else {})
                 \<union> (if can_write c \<and> busy = BkIdle then {BeTake} else {})
      | input.Change v \<Rightarrow> if nightly_enabled c \<and> busy \<noteq> BkSaving then {BeKeep v} else {}
      | _ \<Rightarrow> {})"
  by (cases i) (auto simp: backup_config_def)

lemma backups_fires:
  "fires i (backups_view shown_time s) =
     (case bk_cfg s of Some c \<Rightarrow> fires_in i (backup_config (bk_busy s) c) | None \<Rightarrow> {})
     \<union> (if i = Click then BeDelete ` filename ` set (nullish (bk_list s) []) else {})"
  by (cases i) (auto simp: backups_view_def backup_row_fires split: option.splits)

lemma wizard_fires:
  "fires i (wizard_view s) =
     (case i of
        Click \<Rightarrow>
          (if step_index STEPS (wz_step s) = 0 \<or> wz_busy s \<noteq> WzIdle then {} else {WuBack})
          \<union> (if wz_step s = Welcome then {WuNext} else {})
          \<union> (if wz_step s = ApiKey \<and> truthy (trim (wz_apiKey s)) \<and> wz_busy s = WzIdle then {WuSave} else {})
          \<union> (if wz_step s = Seed then insert WuFinish (if seededCount s = None \<and> wz_busy s = WzIdle then {WuSeed} else {}) else {})
      | input.Change v \<Rightarrow> if wz_step s = ApiKey then {WuType v} else {}
      | Press k \<Rightarrow>
          if wz_step s = ApiKey \<and> k_name k = js ''Enter'' \<and> wz_busy s \<noteq> WzSaving \<and> truthy (trim (wz_apiKey s))
          then {WuSave} else {}
      | _ \<Rightarrow> {})"
  by (cases i) (auto simp: wizard_view_def wizard_buttons_def WelcomeStep_def ApiKeyStep_def SeedStep_def
      split: option.splits)

text \<open>
  The step relation of the wizard has exactly the steps that the rendered controls cause, and the
  replies: whatever the user does in a reachable wizard is a step.
\<close>

lemma wizard_controls_step:
  assumes "wizard_inv (s, n)" and "e \<in> fires i (wizard_view s)"
  shows "wizard_step (s, n) (wizard_act e s, n)"
proof (cases e)
  case WuBack
  with assms(2) have "wz_busy s = WzIdle" by (cases i) (auto simp: wizard_fires split: if_splits)
  with WuBack show ?thesis by (simp add: wz_back)
next
  case WuNext
  with assms(2) have "wz_step s = Welcome" by (cases i) (auto simp: wizard_fires split: if_splits)
  with WuNext show ?thesis by (simp add: wz_next)
next
  case (WuType v)
  with assms(2) have "wz_step s = ApiKey" by (cases i) (auto simp: wizard_fires split: if_splits)
  with WuType show ?thesis by (simp add: wz_type)
next
  case WuSave
  with assms(2) have "wz_step s = ApiKey" "wz_busy s \<noteq> WzSaving"
    by (cases i; auto simp: wizard_fires split: if_splits)+
  then have "wz_busy s = WzIdle" using assms(1) by (cases "wz_busy s") (auto simp: wizard_inv_def)
  with WuSave \<open>wz_step s = ApiKey\<close> show ?thesis by (simp add: wz_save)
next
  case WuSeed
  with assms(2) have "wz_step s = Seed \<and> wz_busy s = WzIdle \<and> seededCount s = None"
    by (cases i) (auto simp: wizard_fires split: if_splits)
  with WuSeed show ?thesis by (simp add: wz_seed)
next
  case WuFinish
  with assms(2) have "wz_step s = Seed" by (cases i) (auto simp: wizard_fires split: if_splits)
  with WuFinish show ?thesis by (simp add: wz_finish)
qed

text \<open>
  However the wizard's controls are used, and whatever the server replies, the set-up ends only after
  the server accepted a key.
\<close>

inductive wizard_use :: "wizard \<times> nat \<Rightarrow> bool" where
  wu_start: "wizard_use (wizard_init h, 0)"
| wu_input: "wizard_use (s, n) \<Longrightarrow> e \<in> fires i (wizard_view s) \<Longrightarrow> wizard_use (wizard_act e s, n)"
| wu_accepted: "wizard_use (s, n) \<Longrightarrow> wz_busy s = WzSaving \<Longrightarrow> wizard_use (key_saved (Inr ()) s, n + 1)"
| wu_refused: "wizard_use (s, n) \<Longrightarrow> wz_busy s = WzSaving \<Longrightarrow> wizard_use (key_saved (Inl e) s, n)"
| wu_seeded: "wizard_use (s, n) \<Longrightarrow> wz_busy s = WzSeeding \<Longrightarrow> wizard_use (seeded reply s, n)"

lemma wizard_use_reachable: "wizard_use p \<Longrightarrow> wizard_reachable p"
proof (induction rule: wizard_use.induct)
  case (wu_input s n e i)
  from wz_more [OF wu_input.IH wizard_controls_step [OF wizard_reachable_inv [OF wu_input.IH] wu_input.hyps(2)]] show ?case .
qed (blast intro: wizard_reachable.intros wizard_step.intros)+

text \<open>
  C38: Whatever the user does with the rendered controls of the wizard and whatever the server
  replies, the wizard reports its completion only after the server accepted a key, and while a key is
  on its way no control can save a second one or leave the step.
\<close>

theorem wizard_controls_safe:
  assumes "wizard_use (s, accepted)"
  shows "(0 < wz_finished s \<longrightarrow> 0 < accepted) \<and>
    (wz_busy s = WzSaving \<longrightarrow> fires i (wizard_view s) \<subseteq> range WuType)"
proof -
  have inv: "wizard_inv (s, accepted)" by (rule wizard_reachable_inv [OF wizard_use_reachable [OF assms]])
  have "fires i (wizard_view s) \<subseteq> range WuType" if "wz_busy s = WzSaving"
  proof -
    from inv that have "wz_step s = ApiKey" by (simp add: wizard_inv_def)
    then show ?thesis using that by (cases i) (auto simp: wizard_fires)
  qed
  with inv show ?thesis by (simp add: wizard_inv_def)
qed

theorem wizard_controls_safe_witness:
  "fires Click (wizard_view sample_wizard) \<subseteq> range WuType \<and> wizard_act WuSave (sample_wizard\<lparr>wz_busy := WzIdle\<rparr>) = sample_wizard"
proof -
  let ?w = "wizard_init \<lparr>back_entries = [], pathname = js ''/setup'', forward_entries = []\<rparr>"
  let ?w1 = "wizard_act WuNext ?w"
  let ?w2 = "wizard_act (WuType [107]) ?w1"
  have k: "truthy (trim [107])" by (simp add: trim_def is_ws_def)
  have w1: "wizard_act WuNext ?w = ?w\<lparr>wz_step := ApiKey\<rparr>" by (simp add: wizard_moves wizard_init_def)
  have eq: "wizard_act WuSave ?w2 = sample_wizard"
    unfolding w1 by (simp add: sample_wizard_def saveKey_def wizard_init_def trim_def is_ws_def)
  have "wizard_use (?w1, 0)"
    by (rule wu_input [OF wu_start, of _ Click]) (simp add: wizard_fires wizard_init_def)
  then have "wizard_use (?w2, 0)"
    by (rule wu_input [where i = "input.Change [107]"]) (simp add: wizard_fires wizard_moves wizard_init_def)
  then have "wizard_use (wizard_act WuSave ?w2, 0)"
    by (rule wu_input [where i = Click]) (simp add: wizard_fires wizard_moves wizard_init_def k)
  then have "wizard_use (sample_wizard, 0)" by (simp only: eq)
  from wizard_controls_safe [OF this, of Click] show ?thesis
    by (simp add: sample_wizard_def saveKey_def wizard_init_def trim_def is_ws_def)
qed

end
