(* ===== verification/UpdateView.thy ===== *)
theory UpdateView
  imports Updates Texts
begin

text \<open>
  What web/src/components/UpdateBanner.tsx and UpdatesSection.tsx render: the banner that offers an
  update, the notice that one has landed, and the section of the settings.
\<close>

subsection \<open>The banner\<close>

datatype banner_ui = BnApply | BnCopy | BnDismiss | BnDismissSuccess

definition notes_link :: "jstr \<Rightarrow> 'e node" where
  "notes_link url = El ''a'' [Href url] [Txt [Key (js ''update.notes''), Lit [c_space, 8599]]]"

definition success_toast :: "jstr \<times> jstr \<Rightarrow> banner_ui node" where
  "success_toast p =
     (case p of (src, tgt) \<Rightarrow>
       El ''div'' []
         ([Txt [KeyWith (js ''update.success'') [(js ''from'', src), (js ''to'', tgt)]]]
          @ shown_opt (version_link tgt) (\<lambda>url. [notes_link url])
          @ [El ''button'' [OnClick BnDismissSuccess] [Txt (tr ''update.dismiss'')]]))"

definition apply_label :: "ApplyState \<Rightarrow> phrase list" where
  "apply_label a =
     (if a = ApIdle then tr ''update.apply''
      else if a = ApApplying then tr ''update.applying''
      else if a = ApWaiting then tr ''update.waiting'' else tr ''update.apply'')"

definition update_banner :: "UpdateStatus \<Rightarrow> banner \<Rightarrow> banner_ui node" where
  "update_banner st s =
     El ''div'' []
       ([Txt [KeyWith (js ''update.available'') [(js ''version'', us_latest st)]]]
        @ shown_if (truthy (us_url st)) [notes_link (us_url st)]
        @ shown_opt (compareURL st) (\<lambda>url. [El ''a'' [Href url] [Txt [Key (js ''update.compare''), Lit [c_space, 8599]]]])
        @ [if us_can_apply st then
             El ''button'' [OnClick BnApply, Disabled (applyState s = ApApplying \<or> applyState s = ApWaiting)]
               [Txt (apply_label (applyState s))]
           else El ''button'' [OnClick BnCopy] [Txt (if copied s then tr ''update.copied'' else tr ''update.copy_command'')]]
        @ shown_opt (applyError s) (\<lambda>e. shown_if (truthy e) [El ''span'' [] [Txt [Lit e]]])
        @ [El ''button'' [OnClick BnDismiss] [Txt (tr ''update.dismiss'')]])"

text \<open>While nothing is offered, the notice of a landed update is shown, if there is one.\<close>

definition banner_view :: "banner \<Rightarrow> banner_ui node list" where
  "banner_view s =
     (if shows_banner s then shown_opt (bn_status s) (\<lambda>st. [update_banner st s])
      else shown_opt (shows_success s) (\<lambda>p. [success_toast p]))"

subsection \<open>The section of the settings\<close>

datatype updates_ui = UdToggle | UdCheck

definition updates_section_view :: "updates_section \<Rightarrow> updates_ui node" where
  "updates_section_view s =
     El ''section'' []
       ([El ''h3'' [] [Txt (tr ''update.section_title'')], El ''p'' [] [Txt (tr ''update.section_subtitle'')]]
        @ shown_opt (ud_error s) (\<lambda>e. shown_if (truthy e) [El ''div'' [] [Txt [Lit e]]])
        @ shown_opt (ud_cfg s) (\<lambda>c.
            [El ''label'' []
               [El ''input'' [Type ''checkbox'', Checked (auto_update_enabled c),
                              Disabled (\<not> uc_can_apply c \<or> ud_busy s), OnClick UdToggle] [],
                Txt (tr ''update.auto_label'')]]
            @ shown_if (uc_can_apply c) [Txt (tr ''update.auto_hint'')]
            @ shown_if (\<not> uc_can_apply c) [El ''p'' [] [Txt (tr ''update.auto_unavailable'')]])
        @ [El ''button'' [OnClick UdCheck, Disabled (ud_checking s)]
             [Txt (if ud_checking s then tr ''update.checking'' else tr ''update.check_now'')]]
        @ shown_opt (checkResult s) (\<lambda>st. shown_if (\<not> ud_checking s)
            [Txt [if has_update st then KeyWith (js ''update.found'') [(js ''version'', us_latest st)]
                  else KeyWith (js ''update.up_to_date'') [(js ''version'', us_current st)]]]))"

subsection \<open>Texts and inputs\<close>

lemma apply_label_complete [simp]: "list_all complete (apply_label a)"
  by (simp add: apply_label_def text_keys)

lemma banner_complete: "list_all texts_complete (banner_view s)"
  by (simp add: banner_view_def update_banner_def success_toast_def notes_link_def text_keys
      split: option.split prod.split)

lemma updates_complete: "texts_complete (updates_section_view s)"
  by (simp add: updates_section_view_def text_keys split: option.split)

text \<open>An update is started at most once at a time, and only where the server can apply it.\<close>

lemma banner_fires:
  "fires_in i (banner_view s) \<subseteq>
     {BnCopy, BnDismiss, BnDismissSuccess}
     \<union> (if shows_banner s \<and> applyState s \<notin> {ApApplying, ApWaiting} \<and>
           (\<exists>st. bn_status s = Some st \<and> us_can_apply st) then {BnApply} else {})"
  by (cases i) (auto simp: banner_view_def update_banner_def success_toast_def notes_link_def split: option.splits prod.splits)

lemma updates_fires:
  "fires i (updates_section_view s) =
     (if i = Click then (if toggle_disabled s then {} else {UdToggle}) \<union> (if ud_checking s then {} else {UdCheck}) else {})"
  by (cases i) (auto simp: updates_section_view_def toggle_disabled_def split: option.splits)

end
