(* ===== verification/SettingsView.thy ===== *)
theory SettingsView
  imports Preferences Theme IntegrationView MaintenanceView UpdateView
begin

text \<open>
  What web/src/components/SettingsModal.tsx and PreferencesModal.tsx render. The settings end in the
  sections for integrations, backups and updates, whose views are in theories of their own. A modal's backdrop closes
  it on a click and on Escape; inside the dialog both are stopped before they reach it.
\<close>

definition escape_key_closes :: "'e \<Rightarrow> key_press \<Rightarrow> 'e list" where
  "escape_key_closes e k = (if k_name k = js ''Escape'' then [e] else [])"

subsection \<open>The settings\<close>

datatype settings_ui =
  StClose | StTheme Theme | StChange setting_change | StUsage
| StIntegrations integration_ui | StBackups backups_event | StUpdates updates_ui

definition settings_field :: "phrase list \<Rightarrow> phrase list option \<Rightarrow> 'e node list \<Rightarrow> 'e node" where
  "settings_field lbl hint ns =
     El ''label'' [] (El ''span'' [] [Txt lbl] # ns @ shown_opt hint (\<lambda>h. [El ''span'' [] [Txt h]]))"

definition theme_option :: "Theme \<Rightarrow> Theme \<Rightarrow> settings_ui node" where
  "theme_option current th =
     El ''button'' [Role ''radio'', Checked (current = th), OnClick (StTheme th),
                    Class (if current = th then js ''bg-stone-900 text-stone-50 dark:bg-stone-100 dark:text-stone-900''
                           else js ''text-stone-700 hover:bg-stone-100 dark:text-stone-300 dark:hover:bg-stone-700'')]
       [Txt (case th of ThSystem \<Rightarrow> tr ''settings.theme_system'' | ThLight \<Rightarrow> tr ''settings.theme_light''
             | ThDark \<Rightarrow> tr ''settings.theme_dark'')]"

definition theme_picker :: "Theme \<Rightarrow> settings_ui node" where
  "theme_picker current =
     El ''div'' [Role ''radiogroup'', Label (tr ''settings.theme'')]
       (map (theme_option current) [ThSystem, ThLight, ThDark])"

text \<open>The \<open>select\<close> of the language; a value is cast to the type of the languages.\<close>

definition language_of :: "jstr \<Rightarrow> Lang" where
  "language_of v = (if v = js ''en'' then En else Sv)"

definition settings_fields :: "Theme \<Rightarrow> HouseholdSettings \<Rightarrow> settings_ui node list" where
  "settings_fields theme h =
     [settings_field (tr ''settings.theme'') None [theme_picker theme],
      settings_field (tr ''settings.language'') None
        [El ''select'' [Val (lang_str (language h)), OnChange (\<lambda>v. StChange (SetLanguage (language_of v)))]
           [El ''option'' [Val (js ''sv'')] [Txt (tr ''settings.language_sv'')],
            El ''option'' [Val (js ''en'')] [Txt (tr ''settings.language_en'')]]],
      settings_field (tr ''settings.num_dinners'') (Some (tr ''settings.num_dinners_hint''))
        [El ''input'' [Type ''number'', Val (dec_int (default_dinners h)), OnChange (\<lambda>v. StChange (SetDinners v))] []],
      settings_field (tr ''settings.default_servings'') (Some (tr ''settings.default_servings_hint''))
        [El ''input'' [Type ''number'', Val (dec_int (default_servings h)), OnChange (\<lambda>v. StChange (SetServings v))] []],
      settings_field (tr ''settings.notes'') None
        [El ''textarea'' [Val (hs_notes_md h), OnChange (\<lambda>v. StChange (SetNotes v))] []]]"

definition settings_version :: "VersionInfo option \<Rightarrow> 'e node list" where
  "settings_version info =
     shown_opt info (\<lambda>v.
       [case version_link (version v) of
          None \<Rightarrow> El ''span'' [Title [Lit (vi_commit v)]] [Txt [Lit (version_label (version v))]]
        | Some url \<Rightarrow> El ''a'' [Href url, Title [Lit (vi_commit v)]] [Txt [Lit (version_label (version v))]]])"

text \<open>\<open>sections\<close> are the three sections in their order.\<close>

definition settings_sections ::
    "(jstr \<Rightarrow> jstr option) \<Rightarrow> (jstr \<Rightarrow> provider_form) \<Rightarrow> llm_card \<Rightarrow> integrations \<Rightarrow> backups_ui \<Rightarrow> updates_section
       \<Rightarrow> settings_ui node list" where
  "settings_sections shown_time forms c ig bk ud =
     [map_node StIntegrations (integrations_view forms c ig), map_node StBackups (backups_view shown_time bk),
      map_node StUpdates (updates_section_view ud)]"

definition settings_modal_view ::
    "Theme \<Rightarrow> VersionInfo option \<Rightarrow> settings_ui node list \<Rightarrow> settings_modal \<Rightarrow> settings_ui node list" where
  "settings_modal_view theme info sections s =
     shown_if (sm_open s)
       [El ''div'' [OnClick StClose, OnPress (escape_key_closes StClose), Role ''button'', Label (tr ''settings.close'')]
         [El ''div'' [Role ''dialog'', Label (tr ''settings.title'')]
           ([El ''h2'' [] [Txt (tr ''settings.title'')],
             El ''button'' [OnClick StClose, Label (tr ''settings.close'')] []]
            @ shown_if (\<not> sm_loaded s) [El ''p'' [] [Txt (tr ''settings.loading'')]]
            @ shown_opt (sm_settings s) (settings_fields theme)
            @ sections
            @ [El ''button'' [OnClick StUsage] [Txt (tr ''usage.open'')]]
            @ settings_version info)]]"

text \<open>What the events do: the theme is a store of its own, and the usage is a route.\<close>

fun settings_ui_event :: "settings_ui \<Rightarrow> settings_event option" where
  "settings_ui_event StClose = Some CloseSettings"
| "settings_ui_event (StChange c) = Some (SettingsForm.Change c)"
| "settings_ui_event _ = None"

subsection \<open>The preferences\<close>

datatype prefs_ui = PrClose | PrSelect jstr | PrName jstr | PrCreate | PrBody jstr | PrSave | PrDelete

definition prefs_list :: "prefs_modal \<Rightarrow> prefs_ui node list" where
  "prefs_list s =
     [El ''p'' [] [Txt (tr ''prefs.subtitle'')]]
     @ shown_opt (pm_prefs s) (map (\<lambda>p.
         El ''button'' [OnClick (PrSelect (category p)),
                        Class (if pm_selected s = Some (category p) then js ''bg-stone-200 text-stone-900 dark:bg-stone-800 dark:text-stone-50''
                               else js ''text-stone-700 hover:bg-stone-200/60 dark:text-stone-300 dark:hover:bg-stone-800/60'')]
           [Txt [Lit (category p)]]))
     @ [El ''label'' [] [Txt (tr ''prefs.new_category'')],
        El ''input'' [Type ''text'', Val (pm_newCategory s), OnChange PrName,
                      Placeholder (tr ''prefs.new_category_placeholder'')] [],
        El ''button'' [OnClick PrCreate, Disabled (create_disabled s)] [Txt [Lit (js ''+'')]]]"

definition prefs_editor :: "prefs_modal \<Rightarrow> prefs_ui node list" where
  "prefs_editor s =
     (if sel_truthy (pm_selected s) then
        [El ''span'' [] [Txt [Lit (nullish (pm_selected s) [])]],
         El ''button'' [OnConfirm [KeyWith (js ''prefs.confirm_delete'') [(js ''category'', nullish (pm_selected s) [])]] PrDelete None,
                        Disabled (pm_pending s)] [Txt (tr ''prefs.delete'')],
         El ''textarea'' [Val (pm_draft s), OnChange PrBody, Placeholder (tr ''prefs.body_placeholder'')] [],
         El ''button'' [OnClick PrSave, Disabled (pm_pending s)]
           [Txt (if pm_pending s then tr ''settings.saving'' else tr ''settings.save'')]]
      else [Txt (if pm_prefs s = None then tr ''settings.loading'' else tr ''prefs.pick_one'')])"

definition prefs_view :: "bool \<Rightarrow> prefs_modal \<Rightarrow> prefs_ui node list" where
  "prefs_view isOpen s =
     shown_if isOpen
       [El ''div'' [OnClick PrClose, OnPress (escape_key_closes PrClose), Role ''button'', Label (tr ''settings.close'')]
         [El ''div'' [Role ''dialog'']
           ([El ''h2'' [] [Txt (tr ''prefs.title'')], El ''button'' [OnClick PrClose, Label (tr ''settings.close'')] []]
            @ prefs_list s @ prefs_editor s)]]"

text \<open>The two fields that are typed into.\<close>

definition type_body :: "jstr \<Rightarrow> prefs_modal \<Rightarrow> prefs_modal" where
  "type_body v s = s\<lparr>pm_draft := v\<rparr>"

definition type_name :: "jstr \<Rightarrow> prefs_modal \<Rightarrow> prefs_modal" where
  "type_name v s = s\<lparr>pm_newCategory := v\<rparr>"

subsection \<open>Texts and inputs\<close>

lemma sections_complete:
  "list_all labels_complete (ig_known ig) \<Longrightarrow> list_all texts_complete (settings_sections shown_time forms c ig bk ud)"
  by (simp add: settings_sections_def integrations_complete backups_complete updates_complete)

lemma settings_complete:
  "list_all texts_complete sections \<Longrightarrow> list_all texts_complete (settings_modal_view theme info sections s)"
  by (simp add: settings_modal_view_def settings_fields_def settings_field_def settings_version_def
      theme_picker_def theme_option_def text_keys split: option.split)

lemma prefs_complete: "list_all texts_complete (prefs_view isOpen s)"
  by (simp add: prefs_view_def prefs_list_def prefs_editor_def text_keys split: option.split)

lemma prefs_editor_fires:
  "fires_in i (prefs_editor s) =
     (if \<not> sel_truthy (pm_selected s) then {}
      else case i of
          Click \<Rightarrow> if pm_pending s then {} else {PrDelete, PrSave}
        | input.Change v \<Rightarrow> {PrBody v}
        | _ \<Rightarrow> {})"
  by (cases i) (auto simp: prefs_editor_def)

text \<open>
  The editor stays open to typing while a save is under way, and the reply puts the saved text
  back: what was typed meanwhile is lost.
\<close>

lemma typing_during_save_lost:
  assumes "pm_selected s = Some (category p)" and "truthy (category p)" and "pm_prefs s = Some ps"
    and "category p \<in> category ` set ps" and "body_md p = pm_draft s"
  shows "(let s1 = snd (prefs_save s) in
    PrBody v \<in> fires_in (input.Change v) (prefs_editor s1) \<and>
    pm_draft (prefs_saved (Inr p) (type_body v s1)) = pm_draft s)"
proof -
  let ?s1 = "s\<lparr>pm_pending := True\<rparr>"
  have s1: "snd (prefs_save s) = ?s1" using assms(1,2) by (simp add: prefs_save_def)
  have "PrBody v \<in> fires_in (input.Change v) (prefs_editor ?s1)"
    using assms(1,2) unfolding prefs_editor_fires by (simp add: sel_truthy_def)
  moreover have "pm_draft (prefs_saved (Inr p) (type_body v ?s1)) = body_md p"
    by (rule saved_shows) (use assms in \<open>simp_all add: type_body_def\<close>)
  ultimately show ?thesis using assms(5) by (simp add: s1)
qed

end
