(* ===== verification/UsageView.thy ===== *)
theory UsageView
  imports Views Texts
begin

text \<open>
  What web/src/components/UsageModal.tsx renders: the totals, the tables by model, plan and
  conversation, and the daily bars. The browser's formats of numbers and days in the
  current locale are the fields of \<open>usage_format\<close>.
\<close>

record usage_format =
  uf_currency :: "nat \<Rightarrow> rat \<Rightarrow> jstr"      \<comment> \<open>the most digits after the point\<close>
  uf_number :: "int \<Rightarrow> jstr"
  uf_percent :: "rat \<Rightarrow> jstr"
  uf_day :: "jstr \<Rightarrow> jstr"

definition formatUSD :: "usage_format \<Rightarrow> rat \<Rightarrow> jstr" where
  "formatUSD uf v = uf_currency uf (if v < 1 then 4 else 2) v"

definition formatTokens :: "usage_format \<Rightarrow> int \<Rightarrow> jstr" where
  "formatTokens uf n = uf_number uf n"

definition formatCount :: "usage_format \<Rightarrow> int \<Rightarrow> jstr" where
  "formatCount uf n = uf_number uf n"

definition formatPercent :: "usage_format \<Rightarrow> rat \<Rightarrow> jstr" where
  "formatPercent uf v = uf_percent uf v"

definition formatDate :: "usage_format \<Rightarrow> jstr \<Rightarrow> jstr" where
  "formatDate uf d = uf_day uf d"

subsection \<open>Parts\<close>

datatype usage_ui = UuClose

definition Section :: "phrase list \<Rightarrow> 'e node list \<Rightarrow> 'e node" where
  "Section ttl ns = El ''section'' [] (El ''h3'' [] [Txt ttl] # ns)"

definition Stat :: "phrase list \<Rightarrow> jstr \<Rightarrow> phrase list option \<Rightarrow> bool \<Rightarrow> 'e node" where
  "Stat lbl v hint emphasis =
     El ''div'' []
       ([El ''div'' [] [Txt lbl],
         El ''div'' [Class (js ''font-serif '' @ (if emphasis then js ''text-lg text-stone-900 dark:text-stone-100''
                                                 else js ''text-base text-stone-800 dark:text-stone-200''))]
           [Txt [Lit v]]]
        @ shown_opt hint (\<lambda>h. [El ''div'' [] [Txt h]]))"

record Cell =
  cell_text :: jstr
  align_right :: bool
  mono :: bool
  cell_emphasis :: bool
  truncates :: bool

definition plain_cell :: "jstr \<Rightarrow> Cell" where
  "plain_cell s = \<lparr>cell_text = s, align_right = False, mono = False, cell_emphasis = False, truncates = False\<rparr>"

definition right_cell :: "jstr \<Rightarrow> Cell" where
  "right_cell s = (plain_cell s)\<lparr>align_right := True\<rparr>"

definition cost_cell :: "jstr \<Rightarrow> Cell" where
  "cost_cell s = (right_cell s)\<lparr>cell_emphasis := True\<rparr>"

definition td_class :: "Cell \<Rightarrow> jstr" where
  "td_class c =
     join_with [c_space] (filter truthy
       [js ''px-3 py-2'',
        if align_right c then js ''text-right tabular-nums'' else [],
        if mono c then js ''font-mono text-xs'' else [],
        if cell_emphasis c then js ''font-medium'' else [],
        if truncates c then js ''max-w-[14rem] truncate'' else []])"

definition table_cell :: "Cell \<Rightarrow> 'e node" where
  "table_cell c =
     El ''td'' ([Class (td_class c)] @ (if truncates c then [Title [Lit (cell_text c)]] else [])) [Txt [Lit (cell_text c)]]"

definition Table :: "phrase list list \<Rightarrow> Cell list list \<Rightarrow> 'e node" where
  "Table hd_cells rows =
     El ''table'' []
       (El ''tr'' []
          (map (\<lambda>(i, h). El ''th'' [Class (js ''px-3 py-2 text-left font-medium '' @ (if i > 0 then js ''text-right'' else []))] [Txt h])
            (enumerate 0 hd_cells))
        # map (\<lambda>row. El ''tr'' [] (map table_cell row)) rows)"

definition DailyBars :: "usage_format \<Rightarrow> UsageDay list \<Rightarrow> 'e node" where
  "DailyBars uf days =
     (let m = max_cost days in
      if m = 0 then El ''p'' [] [Txt (tr ''usage.empty'')]
      else El ''ul'' [] (map (\<lambda>d.
             El ''li'' []
               [El ''span'' [] [Txt [Lit (formatDate uf (ud_date d))]],
                El ''span'' [Width (ud_cost_usd d / m * 100)] [],
                El ''span'' [] [Txt [Lit (formatUSD uf (ud_cost_usd d))]]]) days))"

subsection \<open>The rows of the tables\<close>

definition model_row :: "usage_format \<Rightarrow> UsageModel \<Rightarrow> Cell list" where
  "model_row uf m =
     [(plain_cell (um_model m))\<lparr>mono := True\<rparr>,
      right_cell (formatCount uf (calls m)),
      right_cell (formatTokens uf (input_tokens m)),
      right_cell (formatTokens uf (cache_creation_input_tokens m)),
      right_cell (formatTokens uf (cache_read_input_tokens m)),
      right_cell (formatTokens uf (output_tokens m)),
      cost_cell (formatUSD uf (cost_usd m))]"

definition week_row :: "usage_format \<Rightarrow> UsageWeek \<Rightarrow> Cell list" where
  "week_row uf v =
     [(plain_cell (str_or (uw_iso_week v) (js ''#'' @ dec_int (uw_week_id v))))\<lparr>mono := True\<rparr>,
      right_cell (formatCount uf (uw_calls v)),
      cost_cell (formatUSD uf (uw_cost_usd v))]"

definition conversation_row :: "usage_format \<Rightarrow> UsageConversation \<Rightarrow> Cell list" where
  "conversation_row uf c =
     [(plain_cell (str_or (uv_title c) (js ''#'' @ dec_int (conversation_id c))))\<lparr>truncates := True\<rparr>,
      (plain_cell (opt_or (uv_iso_week c) []))\<lparr>mono := True\<rparr>,
      right_cell (formatCount uf (uv_calls c)),
      cost_cell (formatUSD uf (uv_cost_usd c))]"

subsection \<open>The modal\<close>

definition model_head :: "phrase list list" where
  "model_head = [tr ''usage.col.model'', tr ''usage.col.calls'', tr ''usage.col.input'', tr ''usage.col.cache_write'',
     tr ''usage.col.cache_read'', tr ''usage.col.output'', tr ''usage.col.cost'']"

definition week_head :: "phrase list list" where
  "week_head = [tr ''usage.col.plan'', tr ''usage.col.calls'', tr ''usage.col.cost'']"

definition conversation_head :: "phrase list list" where
  "conversation_head = [tr ''usage.col.conversation'', tr ''usage.col.plan'', tr ''usage.col.calls'', tr ''usage.col.cost'']"

definition UsageContent :: "usage_format \<Rightarrow> UsageSummary \<Rightarrow> 'e node list" where
  "UsageContent uf s =
     (if calls (total s) = 0 then [El ''p'' [] [Txt (tr ''usage.empty'')]]
      else
        [Stat (tr ''usage.total_cost'') (formatUSD uf (cost_usd (total s))) None True,
         Stat (tr ''usage.total_calls'') (formatCount uf (calls (total s))) None False,
         Stat (tr ''usage.cache_hit_rate'') (formatPercent uf (cacheHitRate (total s))) (Some (tr ''usage.cache_hit_hint'')) False,
         Stat (tr ''usage.total_input'') (formatTokens uf (input_tokens (total s))) None False,
         Stat (tr ''usage.total_output'') (formatTokens uf (output_tokens (total s))) None False,
         Stat (tr ''usage.total_cache_read'') (formatTokens uf (cache_read_input_tokens (total s))) None False,
         Section (tr ''usage.by_model'') [Table model_head (map (model_row uf) (by_model s))]]
        @ shown_if (by_week s \<noteq> [])
            [Section (tr ''usage.by_week'') [Table week_head (map (week_row uf) (by_week s))]]
        @ shown_if (recent_conversations s \<noteq> [])
            [Section (tr ''usage.recent_conversations'')
               [Table conversation_head (map (conversation_row uf) (recent_conversations s))]]
        @ [Section (tr ''usage.by_day'') [DailyBars uf (by_day s)]])"

definition usage_key :: "key_press \<Rightarrow> usage_ui list" where
  "usage_key k = (if k_name k = js ''Escape'' then [UuClose] else [])"

text \<open>An empty error text counts as none.\<close>

definition usage_view :: "usage_format \<Rightarrow> bool \<Rightarrow> UsageSummary fetch \<Rightarrow> usage_ui node list" where
  "usage_view uf isOpen s =
     shown_if isOpen
       [El ''div'' [OnClick UuClose, OnPress usage_key, Role ''button'', Label (tr ''usage.close'')]
         [El ''div'' [Role ''dialog'', Label (tr ''usage.title'')]
           ([El ''h2'' [] [Txt (tr ''usage.title'')], El ''span'' [] [Txt (tr ''usage.subtitle'')],
             El ''button'' [OnClick UuClose, Label (tr ''usage.close'')] []]
            @ shown_if (opt_or (ft_error s) [] \<noteq> []) [El ''div'' [] [Txt [Lit (opt_or (ft_error s) [])]]]
            @ shown_if (ft_value s = None \<and> opt_or (ft_error s) [] = []) [El ''p'' [] [Txt (tr ''usage.loading'')]]
            @ shown_opt (ft_value s) (UsageContent uf))]]"

subsection \<open>Texts\<close>

lemma table_complete [simp]:
  "texts_complete (Table hs rows :: 'e node) \<longleftrightarrow> list_all (list_all complete) hs"
proof -
  have "texts_complete (table_cell c :: 'e node)" for c by (simp add: table_cell_def)
  then have "list_all (\<lambda>row. texts_complete (El ''tr'' [] (map table_cell row) :: 'e node)) rows"
    by (simp add: list_all_iff)
  moreover have "list_all (\<lambda>(i, h). P h) (enumerate n hs) \<longleftrightarrow> list_all P hs" for P :: "phrase list \<Rightarrow> bool" and n
    by (induction hs arbitrary: n) simp_all
  ultimately show ?thesis by (simp add: Table_def case_prod_unfold)
qed

lemma content_complete: "list_all texts_complete (UsageContent uf s)"
  by (simp add: UsageContent_def Stat_def Section_def DailyBars_def model_head_def week_head_def
      conversation_head_def Let_def text_keys)

lemma usage_complete: "list_all texts_complete (usage_view uf isOpen s)"
  by (simp add: usage_view_def content_complete text_keys split: option.split)

subsection \<open>The tables\<close>

text \<open>Every row has a cell for each column head.\<close>

lemma rows_match_heads:
  "length (model_row uf m) = length model_head"
  "length (week_row uf v) = length week_head"
  "length (conversation_row uf c) = length conversation_head"
  by (simp_all add: model_row_def model_head_def week_row_def week_head_def conversation_row_def conversation_head_def)

lemma reads_Table:
  "reads l (Table hs rows :: 'e node) = map (say l) hs @ concat (map (map cell_text) rows)"
proof -
  have "concat (map (\<lambda>(i, h). [say l h]) (enumerate n hs)) = map (say l) hs" for n
    by (induction hs arbitrary: n) simp_all
  moreover have "reads l (table_cell c :: 'e node) = [cell_text c]" for c by (simp add: table_cell_def say_def)
  ultimately show ?thesis
    by (simp add: Table_def comp_def case_prod_unfold concat_map_singleton)
qed

text \<open>The widths of the bars are those of \<open>daily_bars\<close>.\<close>

lemma DailyBars_widths:
  "DailyBars uf days =
     (case daily_bars days of
        None \<Rightarrow> El ''p'' [] [Txt (tr ''usage.empty'')]
      | Some bars \<Rightarrow> El ''ul'' [] (map (\<lambda>(d, (day, w)).
          El ''li'' []
            [El ''span'' [] [Txt [Lit (formatDate uf day)]], El ''span'' [Width w] [],
             El ''span'' [] [Txt [Lit (formatUSD uf (ud_cost_usd d))]]]) (zip days bars)))"
  by (auto simp: DailyBars_def daily_bars_def Let_def zip_map2 comp_def zip_same_conv_map)

end
