(* ===== verification/PrintView.thy ===== *)
theory PrintView
  imports Views MarkdownText Texts
begin

text \<open>
  What web/src/components/PrintableWeek.tsx renders: the week on paper, with an overview of the
  dinners and a recipe for each. \<open>dayShort\<close> and \<open>weekday\<close> are \<open>formatDayShort\<close> and
  \<open>formatWeekday\<close> in the current locale, \<open>lower\<close> is \<open>toLowerCase\<close>.
\<close>

subsection \<open>The page\<close>

datatype print_ui = PvPrint

definition print_exceptions :: "Exception list \<Rightarrow> 'e node" where
  "print_exceptions es =
     El ''section'' []
       (El ''h2'' [] [Txt (tr ''week.this_week'')]
        # map (\<lambda>e. El ''li'' [] [Txt [Lit (exc_kind e), Lit [c_space], Lit (description e)]]) es)"

definition day_text :: "(jstr \<Rightarrow> jstr) \<Rightarrow> Dinner \<Rightarrow> jstr" where
  "day_text weekday d = day_date d @ [c_space, 183, c_space] @ weekday (day_date d)"

definition overview_row :: "(jstr \<Rightarrow> jstr) \<Rightarrow> Dinner \<Rightarrow> 'e node" where
  "overview_row weekday d =
     El ''tr'' []
       [El ''td'' [] [Txt [Lit (day_text weekday d)]],
        El ''td'' [] [Txt [Lit (str_or (dish_name d) (js ''-''))]],
        El ''td'' [] [Txt [Lit (dec_int (servings d))]],
        El ''td'' [] [Txt [Lit (sourcing_cell d)]]]"

definition overview :: "(jstr \<Rightarrow> jstr) \<Rightarrow> Dinner list \<Rightarrow> 'e node" where
  "overview weekday ds =
     El ''section'' []
       [El ''h2'' [] [Txt (tr ''print.overview'')],
        El ''table'' []
          (El ''tr'' [] [El ''th'' [] [Txt (tr ''print.day'')], El ''th'' [] [Txt (tr ''print.dinner'')],
                         El ''th'' [] [Txt (tr ''print.pers'')], El ''th'' [] [Txt (tr ''print.source'')]]
           # map (overview_row weekday) ds)]"

definition recipe_view :: "(jstr \<Rightarrow> jstr) \<Rightarrow> (jstr \<Rightarrow> jstr) \<Rightarrow> Dinner \<Rightarrow> 'e node" where
  "recipe_view lower weekday d =
     El ''article'' []
       ([El ''header'' []
           [Txt ([Lit (day_text weekday d)]
                 @ (case cuisine d of Some c \<Rightarrow> if truthy c then [Lit ([c_space, 183, c_space] @ c)] else [] | None \<Rightarrow> [])
                 @ [Lit ([c_space, 183, c_space] @ dec_int (servings d) @ [c_space]), Key (js ''dinner.servings'')]),
            El ''h3'' [] [Txt (if truthy (dish_name d) then [Lit (dish_name d)] else tr ''dinner.untitled'')]]]
        @ shown_if (sourcing d \<noteq> [])
            [El ''p'' [] [Txt [Key (js ''print.source''), Lit [58, c_space], Lit (sourcing_text d)]]]
        @ shown_if (truthy (dinner_notes d)) [El ''p'' [] [Txt [Lit (dinner_notes d)]]]
        @ shown_if (truthy (recipe_md d)) (Markdown lower DefaultSize (Some (dish_name d)) (recipe_md d)))"

definition printed_week :: "(jstr \<Rightarrow> jstr) \<Rightarrow> (jstr \<Rightarrow> jstr) \<Rightarrow> (jstr \<Rightarrow> jstr) \<Rightarrow> WeekDetail \<Rightarrow> print_ui node list" where
  "printed_week lower dayShort weekday w =
     [Txt (tr ''print.preview_hint''), El ''button'' [OnClick PvPrint] [Txt (tr ''print.print_button'')],
      El ''h1'' [] [Txt [Lit (formatPeriod dayShort (start_date w) (end_date w))]]]
     @ shown_if (truthy (notes_md w)) [El ''p'' [] [Txt [Lit (notes_md w)]]]
     @ shown_if (exceptions w \<noteq> []) [print_exceptions (exceptions w)]
     @ [overview weekday (dinners w), El ''section'' [] (map (recipe_view lower weekday) (dinners w))]
     @ shown_if (retrospectives w \<noteq> [])
         [El ''section'' [] (El ''h2'' [] [Txt (tr ''week.retrospective'')]
            # concat (map (\<lambda>r. Markdown lower DefaultSize None (retro_notes_md r)) (retrospectives w)))]"

definition PrintableWeek :: "(jstr \<Rightarrow> jstr) \<Rightarrow> (jstr \<Rightarrow> jstr) \<Rightarrow> (jstr \<Rightarrow> jstr) \<Rightarrow> print_view \<Rightarrow> print_ui node list" where
  "PrintableWeek lower dayShort weekday s =
     (case print_shows s of
        PrintError e \<Rightarrow> [El ''p'' [] [Txt [Lit e]]]
      | PrintLoading \<Rightarrow> [El ''p'' [] [Txt (tr ''print.loading'')]]
      | PrintWeek w \<Rightarrow> printed_week lower dayShort weekday w)"

subsection \<open>Texts\<close>

lemma print_complete: "list_all texts_complete (PrintableWeek lower dayShort weekday s)"
proof (cases "print_shows s")
  case (PrintWeek w)
  have "texts_complete (overview weekday (dinners w) :: print_ui node)"
    by (simp add: overview_def overview_row_def text_keys)
  moreover have "texts_complete (recipe_view lower weekday d :: print_ui node)" for d
    by (simp add: recipe_view_def text_keys split: option.split)
  ultimately show ?thesis
    by (simp add: PrintWeek PrintableWeek_def printed_week_def print_exceptions_def text_keys)
qed (simp_all add: PrintableWeek_def text_keys)

subsection \<open>What is on the paper\<close>

lemma reads_all_append [simp]: "reads_all l (xs @ ys) = reads_all l xs @ reads_all l ys"
  by (simp add: reads_all_def)

lemma reads_all_Cons: "reads_all l (n # ns) = reads l n @ reads_all l ns"
  by (simp add: reads_all_def)

lemma reads_overview:
  "reads l (overview weekday ds :: 'e node) =
     map (\<lambda>k. I18n.t l (js k) None) [''print.overview'', ''print.day'', ''print.dinner'', ''print.pers'', ''print.source'']
     @ concat (map (\<lambda>d. [day_text weekday d, str_or (dish_name d) (js ''-''), dec_int (servings d), sourcing_cell d]) ds)"
  by (simp add: overview_def overview_row_def say_def comp_def)

text \<open>What a recipe's article reads as: its title, and its text without a repeated title.\<close>

lemma reads_recipe:
  "(if truthy (dish_name d) then dish_name d else I18n.t l (js ''dinner.untitled'') None)
     \<in> set (reads l (recipe_view lower weekday d :: 'e node))"
  "truthy (dinner_notes d) \<Longrightarrow> dinner_notes d \<in> set (reads l (recipe_view lower weekday d :: 'e node))"
  by (simp_all add: recipe_view_def say_def shown_if_def)

lemma reads_recipe_text:
  assumes "markdown_text lower (recipe_md d) (Some (dish_name d)) = Some txt"
  shows "txt \<in> set (reads l (recipe_view lower weekday d :: 'e node))"
proof -
  from assms have "truthy (recipe_md d)" by (auto simp: markdown_text_def)
  with assms show ?thesis by (simp add: recipe_view_def shown_if_def Markdown_def say_def)
qed

lemma read_in_week:
  assumes "x \<in> set (reads l (overview weekday (dinners w) :: print_ui node)) \<union>
    (\<Union>d\<in>set (dinners w). set (reads l (recipe_view lower weekday d :: print_ui node)))"
  shows "x \<in> set (reads_all l (printed_week lower dayShort weekday w))"
  using assms by (auto simp: printed_week_def reads_all_Cons)

text \<open>A text is printed but for a leading heading with the name.\<close>

definition printed_but_heading :: "(jstr \<Rightarrow> jstr) \<Rightarrow> jstr set \<Rightarrow> jstr \<Rightarrow> jstr \<Rightarrow> bool" where
  "printed_but_heading lower paper source title \<longleftrightarrow>
     (\<exists>cut rest. source = cut @ rest \<and> rest \<in> paper \<and>
        (cut = [] \<or> (\<exists>pre ws g nls. cut = pre @ [c_hash] @ ws @ g @ nls \<and> list_all is_ws (pre @ ws)
           \<and> list_all (\<lambda>c. c = c_nl) nls \<and> normalize lower g = normalize lower title)))"

lemma strip_printed:
  assumes "stripMatchingLeadingH1 lower source title \<in> paper"
  shows "printed_but_heading lower paper source title"
  using strip_cases [of lower source title]
proof
  assume "stripMatchingLeadingH1 lower source title = source"
  then show ?thesis unfolding printed_but_heading_def using assms by (metis append_Nil)
next
  assume "\<exists>pre ws g nls. source = pre @ [c_hash] @ ws @ g @ nls @ stripMatchingLeadingH1 lower source title
    \<and> list_all is_ws (pre @ ws) \<and> list_all (\<lambda>c. c = c_nl) nls \<and> normalize lower g = normalize lower title"
  then obtain pre ws g nls where
      "source = (pre @ [c_hash] @ ws @ g @ nls) @ stripMatchingLeadingH1 lower source title"
      "list_all is_ws (pre @ ws)" "list_all (\<lambda>c. c = c_nl) nls" "normalize lower g = normalize lower title"
    by auto
  then show ?thesis unfolding printed_but_heading_def using assms by blast
qed

lemma recipe_printed:
  assumes "recipe_md d \<noteq> []" and "set (reads l (recipe_view lower weekday d :: 'e node)) \<subseteq> paper"
  shows "printed_but_heading lower paper (recipe_md d) (dish_name d)"
proof (cases "truthy (dish_name d)")
  case True
  with assms reads_recipe_text [of lower d] show ?thesis
    by (intro strip_printed) (auto simp: markdown_text_def)
next
  case False
  with assms reads_recipe_text [of lower d] have "recipe_md d \<in> paper" by (auto simp: markdown_text_def)
  then show ?thesis unfolding printed_but_heading_def by (metis append_Nil)
qed

lemma printed_dinner:
  assumes "d \<in> set (dinners w)" and "paper = set (reads_all l (printed_week lower dayShort weekday w))"
  shows "{day_text weekday d, str_or (dish_name d) (js ''-''), dec_int (servings d), sourcing_cell d} \<subseteq> paper"
    and "set (reads l (recipe_view lower weekday d :: print_ui node)) \<subseteq> paper"
proof -
  have overview: "x \<in> paper" if "x \<in> set (reads l (overview weekday (dinners w) :: print_ui node))" for x
    unfolding assms(2) using that by (intro read_in_week) blast
  have recipe: "x \<in> paper" if "x \<in> set (reads l (recipe_view lower weekday d :: print_ui node))" for x
    unfolding assms(2) using that assms(1) by (intro read_in_week) blast
  show "{day_text weekday d, str_or (dish_name d) (js ''-''), dec_int (servings d), sourcing_cell d} \<subseteq> paper"
    using assms(1) by (auto intro!: overview simp: reads_overview)
  show "set (reads l (recipe_view lower weekday d :: print_ui node)) \<subseteq> paper" using recipe by blast
qed


definition sample_dinner :: Dinner where
  "sample_dinner = \<lparr>dinner_id = 1, day_date = js ''2026-03-02'', dish_id = None, dish_name = js ''Soup'', cuisine = None,
     servings = 4, sourcing = [], recipe_md = js ''# Soup'' @ [c_nl] @ js ''Boil.'', dinner_notes = [], rating = None,
     rating_notes = []\<rparr>"

definition sample_printed :: print_view where
  "sample_printed = print_reply (Inr \<lparr>week_id = 7, iso_week = [], start_date = [], end_date = [], delivery_date = None,
     order_date = None, week_status = Draft, dinner_count = 1, week_updated_at = [], notes_md = [], dinners = [sample_dinner], exceptions = [],
     retrospectives = [], cart_items = []\<rparr>) \<lparr>pv_week = None, pv_error = None\<rparr>"


end
