(* ===== verification/Rendered.thy ===== *)
theory Rendered
  imports ShellView SettingsView UsageView PrintView SetupGate
begin

text \<open>
  All that the browser shows: \<open>App\<close> of web/src/App.tsx with what its routes lead to, and \<open>Main\<close>
  with everything it renders. \<open>modals_local\<close> holds the states of the components beside the page:
  the update banner, the three modals with their sections, and the toasts. The modals and the
  dialog that duplicates a plan cover the page, so their order in the tree is not their order on
  the screen; the dialog stands at the end of \<open>page\<close>, before the modals.
\<close>

record 'a modals_local =
  ml_banner :: banner
  ml_settings :: settings_modal
  ml_settings_version :: "VersionInfo option"
  ml_forms :: "jstr \<Rightarrow> provider_form"
  ml_llm :: llm_card
  ml_integrations :: integrations
  ml_backups :: backups_ui
  ml_updates :: updates_section
  ml_prefs :: prefs_modal
  ml_usage :: "UsageSummary fetch"
  ml_toasts :: "'a toast_state"
  ml_usage_format :: usage_format
  ml_shown_time :: "jstr \<Rightarrow> jstr option"

datatype 'a whole_ui =
  OnPage page_ui | OnBanner banner_ui | OnSettings settings_ui | OnPrefs prefs_ui | OnUsage usage_ui
| OnToasts "'a toast_ui" | OnWizard wizard_ui | OnPrint print_ui

text \<open>The modals are open on their routes.\<close>

definition main_nodes_of :: "page_local \<Rightarrow> 'a modals_local \<Rightarrow> app \<Rightarrow> 'a whole_ui node list" where
  "main_nodes_of l m s =
     map (map_node OnBanner) (banner_view (ml_banner m))
     @ map (map_node OnPage) (page l s)
     @ map (map_node OnSettings)
         (settings_modal_view (fst (useTheme (pl_theme l))) (ml_settings_version m)
           (settings_sections (ml_shown_time m) (ml_forms m) (ml_llm m) (ml_integrations m) (ml_backups m) (ml_updates m))
           ((ml_settings m)\<lparr>sm_open := (AppShell.route s = RSettings)\<rparr>))
     @ map (map_node OnPrefs) (prefs_view (AppShell.route s = RPreferences) (ml_prefs m))
     @ map (map_node OnUsage) (usage_view (ml_usage_format m) (AppShell.route s = RUsage) (ml_usage m))
     @ map (map_node OnToasts) (toast_viewport (ml_toasts m))"

definition app_nodes ::
    "page_local \<Rightarrow> 'a modals_local \<Rightarrow> print_view \<Rightarrow> wizard \<Rightarrow> gate \<Rightarrow> app \<Rightarrow> 'a whole_ui node list" where
  "app_nodes l m pv wz g s =
     (case app_view g of
        ShowPrint i \<Rightarrow>
          map (map_node OnPrint)
            (PrintableWeek (en_lower (pl_env l)) (en_day_short (pl_env l)) (en_weekday (pl_env l)) pv)
      | ShowWizard \<Rightarrow> [map_node OnWizard (wizard_view wz)]
      | ShowSplash \<Rightarrow> [El ''div'' [] []]
      | ShowMain r \<Rightarrow> main_nodes_of l m s)"



end
