(* ===== verification/Turns.thy ===== *)
theory Turns
  imports AppShell
begin

text \<open>
  A turn of the chat in the application shell (\<open>send\<close> and \<open>handleAgentEvent\<close> of web/src/App.tsx),
  from the message to the end of its stream: who writes the transcript meanwhile, how the turn
  ends, and what happens when a stored conversation arrives in the middle of it.
\<close>

subsection \<open>What the transcript shows\<close>

definition shown :: "app \<Rightarrow> ChatEntry list \<times> turn" where
  "shown s = (chatEntries s, refs s)"

text \<open>The replies that empty the transcript are those of \<open>createNewPlan\<close> and \<open>clearChat\<close>.\<close>

fun spares_chat :: "app_request \<Rightarrow> bool" where
  "spares_chat (ReqCreate wc) = False"
| "spares_chat (ReqClear i) = False"
| "spares_chat _ = True"

lemma shown_handlers:
  "shown (load_reply p reply s) = shown s" "shown (on_meta cid st s) = shown s" "shown (cancel s) = shown s"
  "shown (ask q s) = shown s" "shown (answered q s) = shown s" "shown (requestDuplicate src s) = shown s"
  "shown (confirmDuplicate d s) = shown s" "shown (deletePlan tgt c s) = shown s" "shown (clearChat s) = shown s"
  "shown (patchCurrentWeek pa s) = shown s" "shown (settings_reply lreply s) = shown s" "shown (bumpLoad s) = shown s"
  "shown (snd (patched_week wreply s)) = shown s" "shown (go r rep s) = shown s" "shown (mark_day pj ev s) = shown s"
  "shown (s\<lparr>hist := h\<rparr>) = shown s" "shown (s\<lparr>chatOpen := a, sidebarOpen := b\<rparr>) = shown s"
  "shown (s\<lparr>duplicateSource := d'\<rparr>) = shown s" "shown (cloned_plan wreply s) = shown s"
  "shown (deleted_plan i viewed ureply s) = shown s"
  by (simp_all add: shown_def load_reply_def on_meta_def cancel_def ask_def answered_def requestDuplicate_def
      confirmDuplicate_def deletePlan_def clearChat_def patchCurrentWeek_def toast_error_def settings_reply_def
      bumpLoad_def patched_week_def cloned_plan_def deleted_plan_def toast_success_def go_def mark_day_def Let_def split: option.splits sum.splits prod.splits)

lemma chat_part_frames:
  "chat_part (s\<lparr>hist := h\<rparr>) = chat_part s" "chat_part (s\<lparr>chatOpen := a, sidebarOpen := b\<rparr>) = chat_part s"
  "chat_part (s\<lparr>duplicateSource := d\<rparr>) = chat_part s"
  by (simp_all add: chat_part_def)

lemma shown_event: "shown (handleAgentEvent pj ev s) = applyAgentEvent ev (shown s)"
proof -
  obtain es r where er: "applyAgentEvent ev (chatEntries s, refs s) = (es, r)" by fastforce
  show ?thesis by (simp add: handleAgentEvent_def er Let_def shown_handlers) (simp add: shown_def er)
qed

text \<open>The effects leave the transcript alone unless another week is loaded.\<close>

lemma week_key_commit: "week_key (commit s) = week_key s"
  by (simp add: commit_def chat_effect_def loader_effect_def run_loader_def forget_chat_def week_key_def Let_def
      split: option.splits prod.splits)

lemma loader_effect_shown: "shown (loader_effect s) = shown s \<and> week_key (loader_effect s) = week_key s"
  by (simp add: shown_def loader_effect_def run_loader_def week_key_def Let_def split: option.splits prod.splits)

lemma commit_same_week:
  assumes "chat_deps s = Some (week_key s)"
  shows "shown (commit s) = shown s" "chat_part (commit s) = chat_part s"
proof -
  have "chat_deps (loader_effect s) = Some (week_key (loader_effect s))"
    using assms loader_effect_chat [of s] loader_effect_shown [of s] by (simp add: chat_part_def)
  then have "commit s = loader_effect s" by (simp add: commit_def chat_effect_def)
  then show "shown (commit s) = shown s" "chat_part (commit s) = chat_part s"
    using loader_effect_shown loader_effect_chat by simp_all
qed

lemma busy_commit: "busy (commit s) = busy s"
proof -
  have "busy (loader_effect s) = busy s" using loader_effect_chat [of s] by (simp add: chat_part_def)
  moreover have "busy (chat_effect u) = busy u" for u
    by (simp add: chat_effect_def forget_chat_def Let_def split: option.split)
  ultimately show ?thesis by (simp add: commit_def)
qed

lemma busy_end_turn: "\<not> busy (end_turn failure st s)"
  by (simp add: end_turn_def bumpLoad_def Let_def)

subsection \<open>A turn that nothing disturbs\<close>

text \<open>
  A run of the application during a turn, on one week, in which no plan is created and the chat is
  not cleared; anything else may happen.
\<close>

inductive calm_turn :: "(jstr \<Rightarrow> json option) \<Rightarrow> app \<Rightarrow> app \<Rightarrow> bool" for pj s0 where
  calm_start: "calm_turn pj s0 s0"
| calm_next: "calm_turn pj s0 s \<Longrightarrow> app_step pj s s' \<Longrightarrow> busy s' \<Longrightarrow> week_key s' = week_key s \<Longrightarrow>
    list_all spares_chat (requests s') \<Longrightarrow> calm_turn pj s0 s'"

lemma calm_turn_step:
  assumes "app_step pj s s'" and "chat_deps s = Some (week_key s)" and "chat_loads s = []" and "busy s"
    and "list_all spares_chat (requests s)" and "busy s'" and "week_key s' = week_key s"
  shows "chat_loads s' = [] \<and> (shown s' = shown s \<or> (\<exists>ev. shown s' = applyAgentEvent ev (shown s)))"
proof -
  have quiet: "chat_loads (commit u) = [] \<and> shown (commit u) = shown u"
    if "week_key (commit u) = week_key s" "chat_part u = chat_part s" for u
  proof -
    have "chat_deps u = Some (week_key u)" "chat_loads u = []"
      using that assms(2,3) by (simp_all add: week_key_commit chat_part_def)
    then show ?thesis using commit_same_week [of u] by (simp add: chat_part_def)
  qed
  from assms(1) show ?thesis
  proof cases
    case (event_arrives st ev)
    then show ?thesis using quiet [of "handleAgentEvent pj ev s"] assms(7)
      by (auto simp: handle_event_chat shown_event)
  next
    case (turn_ends st failure)
    have "\<not> busy s'" using turn_ends by (simp add: busy_commit busy_end_turn)
    with assms(6) show ?thesis by simp
  next
    case (user_sends msg)
    then show ?thesis using quiet [of s] assms(4,7) by (simp add: send_def)
  qed (use quiet assms in \<open>auto simp: chat_handlers shown_handlers chat_part_frames list_all_iff\<close>)
qed

lemma calm_turn_keeps:
  assumes "calm_turn pj s0 s" and "app_reachable pj s0" and "busy s0" and "chat_loads s0 = []"
    and "list_all spares_chat (requests s0)"
  shows "app_reachable pj s \<and> busy s \<and> chat_loads s = [] \<and> list_all spares_chat (requests s)
    \<and> (\<exists>evs. shown s = run_events evs (shown s0))"
  using assms(1)
proof (induction rule: calm_turn.induct)
  case calm_start
  have "shown s0 = run_events [] (shown s0)" by simp
  with assms(2-5) show ?case by blast
next
  case (calm_next s s')
  then obtain evs where evs: "shown s = run_events evs (shown s0)" by blast
  have "chat_deps s = Some (week_key s)" using calm_next.IH reachable_chat_inv by blast
  then have next_step: "chat_loads s' = []" "shown s' = shown s \<or> (\<exists>ev. shown s' = applyAgentEvent ev (shown s))"
    using calm_turn_step [OF calm_next.hyps(2)] calm_next by blast+
  then have "\<exists>evs. shown s' = run_events evs (shown s0)"
  proof (elim disjE exE)
    fix ev
    assume "shown s' = applyAgentEvent ev (shown s)"
    then have "shown s' = run_events (evs @ [ev]) (shown s0)" by (simp add: evs run_events_def)
    then show ?thesis by blast
  qed (use evs in metis)
  with next_step(1) calm_next show ?case by (blast intro: stepped)
qed

subsection \<open>Properties\<close>

definition sample_quiet :: app where
  "sample_quiet = commit (chat_reply (2, 7) (Inr None) sample_settled)"

definition sample_turn :: app where
  "sample_turn = commit (send [104] sample_quiet)"

lemma sample_turn_eq:
  "sample_turn = sample_settled\<lparr>chat_loads := [], busy := True, chatOpen := True, refs := init_turn,
     chatEntries := [UserEntry [104]],
     streaming := Some \<lparr>st_conversation = None, st_week = Some 7, st_message = [104], aborted = False\<rparr>\<rparr>"
  by (simp add: sample_turn_def sample_quiet_def send_def chat_reply_def sample_settled_eq sample_loaded_eq sample_start_eq
      sample_eval sample_week_def dec_int_def dec.simps js_Cons)

lemma sample_turn_reachable: "app_reachable pj sample_turn"
proof -
  have "app_reachable pj sample_quiet"
    unfolding sample_quiet_def by (rule stepped [OF sample_reachable(3) chat_arrives]) (simp add: sample_fields)
  then show ?thesis unfolding sample_turn_def by (rule stepped) (rule user_sends)
qed





subsection \<open>A stored conversation in the middle of a turn\<close>

text \<open>
  When the stored conversation of the week arrives during a turn, it replaces the transcript, the
  message that was just sent included, and the refs of the turn then point into the stored
  messages: a text that was begun before goes on inside of a stored answer.
\<close>

lemma late_history_mixes:
  assumes "fst q = chat_token s" and "assistantIndex (refs s) = int k" and "k < length ms"
    and "msg_role (ms ! k) \<noteq> RoleUser" and "x \<noteq> []"
  shows "chatEntries (handleAgentEvent pj (text_event x) (chat_reply q (Inr (Some (c, ms))) s)) =
    (map stored_entry ms)[k := AssistantEntry (msg_text (ms ! k) @ x)]"
proof -
  let ?s = "chat_reply q (Inr (Some (c, ms))) s"
  have "shown ?s = (map stored_entry ms, refs s)"
    using assms(1) by (simp add: shown_def chat_reply_def Let_def)
  then have "shown (handleAgentEvent pj (text_event x) ?s) = apply_text x (map stored_entry ms, refs s)"
    using assms(5) by (simp add: shown_event apply_text_event)
  then show ?thesis
    using assms(2-4) by (simp add: shown_def apply_text_def entry_at_def stored_entry_def)
qed

text \<open>That happens in a run of the application: a message sent while the conversation is still loading.\<close>

lemma late_history_reachable:
  "\<exists>s q. app_reachable Map.empty s \<and> streaming s \<noteq> None \<and> q \<in> set (chat_loads s) \<and> fst q = chat_token s
     \<and> assistantIndex (refs s) = int 1"
proof -
  let ?s = "commit (handleAgentEvent Map.empty (text_event [97]) sample_sent)"
  have sent: "app_reachable Map.empty sample_sent"
    unfolding sample_sent_def by (rule stepped [OF sample_reachable(3) user_sends])
  have eq: "sample_sent = sample_settled\<lparr>busy := True, chatOpen := True, refs := init_turn,
     chatEntries := [UserEntry [104, 105]],
     streaming := Some \<lparr>st_conversation = None, st_week = Some 7, st_message = [104, 105], aborted = False\<rparr>\<rparr>"
    by (simp add: sample_sent_def send_def sample_settled_eq sample_loaded_eq sample_start_eq
        sample_eval sample_week_def dec_int_def dec.simps js_Cons)
  have deps: "chat_deps sample_sent = Some (week_key sample_sent)" using reachable_chat_inv [OF sent] by blast
  let ?u = "handleAgentEvent Map.empty (text_event [97]) sample_sent"
  have u: "chat_part ?u = chat_part sample_sent" "shown ?u = applyAgentEvent (text_event [97]) (shown sample_sent)"
    by (simp_all add: handle_event_chat shown_event)
  have "week_key ?u = week_key sample_sent"
    by (simp add: handleAgentEvent_def applyAgentEvent_def text_event_def mark_day_def is_mutation_def week_key_def
        split: prod.split)
  with deps u(1) have "chat_deps ?u = Some (week_key ?u)" by (simp add: chat_part_def)
  from commit_same_week [OF this] u
  have s: "chat_part ?s = chat_part sample_sent" "shown ?s = applyAgentEvent (text_event [97]) (shown sample_sent)"
    by simp_all
  have "app_reachable Map.empty ?s"
    by (rule stepped [OF sent event_arrives]) (simp add: eq)
  moreover have "streaming ?s \<noteq> None" "chat_loads ?s = [(2, 7)]" "chat_token ?s = 2"
    using s(1) by (simp_all add: chat_part_def eq sample_fields)
  moreover have "assistantIndex (refs ?s) = int 1"
    using s(2) by (simp add: shown_def apply_text_event apply_text_def entry_at_def eq init_turn_def)
  ultimately show ?thesis by (intro exI [of _ ?s] exI [of _ "(2, 7)"]) simp
qed

end
