(* ===== verification/Subscriptions.thy ===== *)
theory Subscriptions
  imports Toast RouteNav Theme I18n
begin

text \<open>
  The listeners of the four stores (\<open>subscribe\<close> and the loops over \<open>listeners\<close> in lib/toast.ts,
  lib/route.ts, lib/theme.ts and i18n/index.ts) and the components that \<open>useSyncExternalStore\<close>
  subscribes: a component reads the snapshot when it is mounted and whenever its listener is
  called, and renders again when the snapshot differs from the one it has. \<open>render\<close> is what the
  hook returns while a component renders. The window's popstate listener of lib/route.ts exists
  only while a component is mounted.
\<close>

subsection \<open>Listeners\<close>

text \<open>A \<open>Set\<close> of callbacks in the order of insertion; a callback is named by its component.\<close>

definition add_listener :: "nat \<Rightarrow> nat list \<Rightarrow> nat list" where
  "add_listener cb ls = (if cb \<in> set ls then ls else ls @ [cb])"

definition delete_listener :: "nat \<Rightarrow> nat list \<Rightarrow> nat list" where
  "delete_listener cb ls = filter (\<lambda>l. l \<noteq> cb) ls"

record ('s, 'v, 'r) hub =
  store :: 's
  listeners :: "nat list"
  mounted :: "nat \<rightharpoonup> 'v \<times> 'r"       \<comment> \<open>the snapshot a component has and what it rendered\<close>

definition fresh_hub :: "'s \<Rightarrow> ('s, 'v, 'r) hub" where
  "fresh_hub s = \<lparr>store = s, listeners = [], mounted = Map.empty\<rparr>"

text \<open>What React does when it calls the listener of a component.\<close>

definition check_snapshot :: "('s \<Rightarrow> 'v) \<Rightarrow> ('s \<Rightarrow> 'r) \<Rightarrow> 's \<Rightarrow> nat \<Rightarrow> (nat \<rightharpoonup> 'v \<times> 'r) \<Rightarrow> (nat \<rightharpoonup> 'v \<times> 'r)" where
  "check_snapshot snap render s cb m =
     (case m cb of
        None \<Rightarrow> m
      | Some (v, r) \<Rightarrow> if snap s = v then m else m(cb \<mapsto> (snap s, render s)))"

definition call_listeners :: "('s \<Rightarrow> 'v) \<Rightarrow> ('s \<Rightarrow> 'r) \<Rightarrow> ('s, 'v, 'r) hub \<Rightarrow> ('s, 'v, 'r) hub" where
  "call_listeners snap render h =
     h\<lparr>mounted := fold (check_snapshot snap render (store h)) (listeners h) (mounted h)\<rparr>"

definition mount :: "('s \<Rightarrow> 'v) \<Rightarrow> ('s \<Rightarrow> 'r) \<Rightarrow> nat \<Rightarrow> ('s, 'v, 'r) hub \<Rightarrow> ('s, 'v, 'r) hub" where
  "mount snap render cb h =
     h\<lparr>listeners := add_listener cb (listeners h),
       mounted := (mounted h)(cb \<mapsto> (snap (store h), render (store h)))\<rparr>"

definition unmount :: "nat \<Rightarrow> ('s, 'v, 'r) hub \<Rightarrow> ('s, 'v, 'r) hub" where
  "unmount cb h =
     h\<lparr>listeners := delete_listener cb (listeners h), mounted := (mounted h)(cb := None)\<rparr>"

datatype 'op hub_event = Mount nat | Unmount nat | Operate 'op

fun hub_step ::
    "('op \<Rightarrow> 's \<Rightarrow> 's) \<Rightarrow> ('op \<Rightarrow> 's \<Rightarrow> bool) \<Rightarrow> ('s \<Rightarrow> 'v) \<Rightarrow> ('s \<Rightarrow> 'r) \<Rightarrow> 'op hub_event
       \<Rightarrow> ('s, 'v, 'r) hub \<Rightarrow> ('s, 'v, 'r) hub"
  where
  "hub_step step notifies snap render (Mount cb) h = mount snap render cb h"
| "hub_step step notifies snap render (Unmount cb) h = unmount cb h"
| "hub_step step notifies snap render (Operate a) h =
     (let h' = h\<lparr>store := step a (store h)\<rparr> in
      if notifies a (store h) then call_listeners snap render h' else h')"

abbreviation "hub_run step notifies snap render evs s \<equiv>
  fold (hub_step step notifies snap render) evs (fresh_hub s)"

text \<open>Every mounted component, and no other, has the snapshot of the store and has rendered it.\<close>

definition hub_current :: "('s \<Rightarrow> 'v) \<Rightarrow> ('s \<Rightarrow> 'r) \<Rightarrow> ('s, 'v, 'r) hub \<Rightarrow> bool" where
  "hub_current snap render h \<longleftrightarrow>
     distinct (listeners h) \<and>
     mounted h = (\<lambda>cb. if cb \<in> set (listeners h) then Some (snap (store h), render (store h)) else None)"

lemma add_listener_facts [simp]:
  "set (add_listener cb ls) = insert cb (set ls)" "distinct (add_listener cb ls) = distinct ls"
  by (auto simp: add_listener_def)

lemma delete_listener_facts [simp]:
  "set (delete_listener cb ls) = set ls - {cb}" "distinct ls \<Longrightarrow> distinct (delete_listener cb ls)"
  by (auto simp: delete_listener_def)

text \<open>
  A call of the listeners brings every one of them up to date, where what is rendered depends on
  the snapshot alone.
\<close>

lemma checked:
  assumes "\<And>cb. cb \<in> set ls \<Longrightarrow> m cb \<noteq> None" "distinct ls"
    and "\<And>cb v r. m cb = Some (v, r) \<Longrightarrow> v = snap s \<Longrightarrow> r = render s"
  shows "fold (check_snapshot snap render s) ls m =
    (\<lambda>cb. if cb \<in> set ls then Some (snap s, render s) else m cb)"
  using assms
proof (induction ls arbitrary: m)
  case (Cons l ls)
  then obtain v r where l: "m l = Some (v, r)" by fastforce
  have step: "check_snapshot snap render s l m = m(l \<mapsto> (snap s, render s))"
    using Cons.prems(3) [OF l] l by (auto simp: check_snapshot_def)
  have "fold (check_snapshot snap render s) ls (m(l \<mapsto> (snap s, render s))) =
      (\<lambda>cb. if cb \<in> set ls then Some (snap s, render s) else (m(l \<mapsto> (snap s, render s))) cb)"
    by (rule Cons.IH) (use Cons.prems in \<open>auto split: if_splits\<close>)
  then show ?case using Cons.prems(2) by (auto simp: step)
qed simp

locale rendered_store = external_store +
  fixes render :: "'b \<Rightarrow> 'd"
  assumes render_snapshot: "snapshot s = snapshot s' \<Longrightarrow> render s = render s'"
begin

lemma operate_current:
  assumes "hub_current snapshot render h"
  shows "hub_current snapshot render (hub_step step notifies snapshot render (Operate a) h)"
proof (cases "notifies a (store h)")
  case True
  let ?s = "step a (store h)"
  have m: "mounted h cb = (if cb \<in> set (listeners h) then Some (snapshot (store h), render (store h)) else None)" for cb
    using assms by (simp add: hub_current_def)
  have "fold (check_snapshot snapshot render ?s) (listeners h) (mounted h) =
      (\<lambda>cb. if cb \<in> set (listeners h) then Some (snapshot ?s, render ?s) else mounted h cb)"
    by (rule checked) (use assms in \<open>auto simp: m hub_current_def split: if_splits intro: render_snapshot\<close>)
  then show ?thesis
    using assms True m by (auto simp: hub_current_def call_listeners_def Let_def)
next
  case False
  then have "snapshot (step a (store h)) = snapshot (store h)" by (rule silent_unchanged)
  with False assms show ?thesis
    using render_snapshot [of "step a (store h)" "store h"] by (simp add: hub_current_def Let_def cong: if_cong)
qed

lemma hub_step_current:
  "hub_current snapshot render h \<Longrightarrow> hub_current snapshot render (hub_step step notifies snapshot render e h)"
proof (cases e)
  case (Operate a)
  then show "hub_current snapshot render h \<Longrightarrow> ?thesis" using operate_current by simp
qed (auto simp: hub_current_def mount_def unmount_def fun_eq_iff)

lemma hub_run_current: "hub_current snapshot render (hub_run step notifies snapshot render evs s)"
proof -
  have "hub_current snapshot render h \<Longrightarrow>
      hub_current snapshot render (fold (hub_step step notifies snapshot render) evs h)" for h
    by (induction evs arbitrary: h) (simp_all add: hub_step_current)
  then show ?thesis by (simp add: hub_current_def fresh_hub_def)
qed

end

subsection \<open>The address: a window listener while somebody listens\<close>

text \<open>
  Besides \<open>navigate\<close>, the browser moves through the session history (its buttons, \<open>goBack\<close>) and
  then fires popstate; \<open>Traversed\<close> carries the history after such a move.
\<close>

datatype browse_op = Go jstr bool | Traversed history

fun browse_step :: "browse_op \<Rightarrow> history \<Rightarrow> history" where
  "browse_step (Go p rep) h = navigate_path p rep h"
| "browse_step (Traversed h') h = h'"

fun browse_notifies :: "browse_op \<Rightarrow> history \<Rightarrow> bool" where
  "browse_notifies (Go p rep) h = (p \<noteq> pathname h)"
| "browse_notifies (Traversed h') h = True"

record route_hub =
  route_comps :: "(history, jstr, Route) hub"
  popstate_bound :: bool

definition fresh_routes :: "history \<Rightarrow> route_hub" where
  "fresh_routes h = \<lparr>route_comps = fresh_hub h, popstate_bound = False\<rparr>"

abbreviation "routes_step \<equiv> hub_step browse_step browse_notifies pathname useRoute"

definition route_subscribe :: "nat \<Rightarrow> route_hub \<Rightarrow> route_hub" where
  "route_subscribe cb r =
     (let r1 = if listeners (route_comps r) = [] then r\<lparr>popstate_bound := True\<rparr> else r in
      r1\<lparr>route_comps := mount pathname useRoute cb (route_comps r1)\<rparr>)"

definition route_unsubscribe :: "nat \<Rightarrow> route_hub \<Rightarrow> route_hub" where
  "route_unsubscribe cb r =
     (let r1 = r\<lparr>route_comps := unmount cb (route_comps r)\<rparr> in
      if listeners (route_comps r1) = [] then r1\<lparr>popstate_bound := False\<rparr> else r1)"

definition popstate :: "history \<Rightarrow> route_hub \<Rightarrow> route_hub" where
  "popstate h' r =
     (let c = (route_comps r)\<lparr>store := h'\<rparr> in
      r\<lparr>route_comps := if popstate_bound r then call_listeners pathname useRoute c else c\<rparr>)"

fun route_step :: "browse_op hub_event \<Rightarrow> route_hub \<Rightarrow> route_hub" where
  "route_step (Mount cb) r = route_subscribe cb r"
| "route_step (Unmount cb) r = route_unsubscribe cb r"
| "route_step (Operate (Go p rep)) r =
     r\<lparr>route_comps := routes_step (Operate (Go p rep)) (route_comps r)\<rparr>"
| "route_step (Operate (Traversed h')) r = popstate h' r"

text \<open>
  Binding the window's listener on demand makes no difference: the store behaves like one that
  hears every popstate.
\<close>

lemma route_step_refines:
  assumes "popstate_bound r \<longleftrightarrow> listeners (route_comps r) \<noteq> []"
  shows "route_comps (route_step e r) = routes_step e (route_comps r)"
    "popstate_bound (route_step e r) \<longleftrightarrow> listeners (route_comps (route_step e r)) \<noteq> []"
proof -
  show "route_comps (route_step e r) = routes_step e (route_comps r)"
    using assms by (induction e r rule: route_step.induct)
      (auto simp: route_subscribe_def route_unsubscribe_def popstate_def call_listeners_def Let_def)
  show "popstate_bound (route_step e r) \<longleftrightarrow> listeners (route_comps (route_step e r)) \<noteq> []"
    using assms by (induction e r rule: route_step.induct)
      (auto simp: route_subscribe_def route_unsubscribe_def popstate_def call_listeners_def mount_def
        unmount_def add_listener_def delete_listener_def Let_def)
qed

lemma route_run_refines:
  "route_comps (fold route_step evs (fresh_routes h)) = fold routes_step evs (fresh_hub h) \<and>
   (popstate_bound (fold route_step evs (fresh_routes h)) \<longleftrightarrow>
      listeners (route_comps (fold route_step evs (fresh_routes h))) \<noteq> [])"
proof -
  have "popstate_bound r = (listeners (route_comps r) \<noteq> []) \<Longrightarrow>
      route_comps (fold route_step evs r) = fold routes_step evs (route_comps r) \<and>
      popstate_bound (fold route_step evs r) = (listeners (route_comps (fold route_step evs r)) \<noteq> [])" for r
    by (induction evs arbitrary: r) (simp_all add: route_step_refines)
  then show ?thesis by (simp add: fresh_routes_def fresh_hub_def)
qed

subsection \<open>The four stores\<close>

interpretation toast_comps: rendered_store toast_step toast_emits toasts toasts
  by unfold_locales

interpretation lang_comps: rendered_store setLang setLang_notifies "\<lambda>l. l" "\<lambda>l. l"
  by unfold_locales

interpretation theme_comps: rendered_store theme_step theme_notifies read_theme read_theme
  by unfold_locales

interpretation route_comps: rendered_store browse_step browse_notifies pathname useRoute
proof unfold_locales
  fix a h
  show "\<not> browse_notifies a h \<Longrightarrow> pathname (browse_step a h) = pathname h"
    by (cases a) (simp_all add: navigate_path_def)
qed (simp add: useRoute_def)

text \<open>
  The other half of what \<open>useTheme\<close> returns is not a function of the snapshot: while the theme is
  that of the system, a change of the system's scheme leaves what mounted components rendered as
  it was, although the page changes (the icon of the theme button, App.tsx).
\<close>

lemma resolved_theme_stale:
  assumes "read_theme s = ThSystem" and "d \<noteq> prefers_dark s"
  shows "let h = hub_run theme_step theme_notifies read_theme useTheme [Mount i, Operate (OsChange d)] s in
    mounted h i = Some (ThSystem, useTheme s) \<and> useTheme (store h) \<noteq> useTheme s \<and> html_dark (store h) = d"
proof -
  let ?s = "os_change d s"
  have s: "read_theme ?s = ThSystem" "prefers_dark ?s = d" "html_dark ?s = d"
    using assms(1) by (simp_all add: os_change_def Let_def read_theme_def)
      (auto simp: apply_theme_def resolveTheme_def Let_def)
  have "mounted (hub_run theme_step theme_notifies read_theme useTheme [Mount i, Operate (OsChange d)] s) i =
      Some (ThSystem, useTheme s)"
    using assms(1) s(1) by (simp add: fresh_hub_def mount_def add_listener_def theme_notifies_def
        call_listeners_def check_snapshot_def)
  moreover have "useTheme ?s \<noteq> useTheme s"
    unfolding useTheme_def s assms(1) using assms(2) by (simp add: resolveTheme_def)
  ultimately show ?thesis
    using s by (simp add: fresh_hub_def mount_def theme_notifies_def call_listeners_def)
qed

subsection \<open>Properties\<close>


end
