(* ===== verification/LocaleDates.thy ===== *)
theory LocaleDates
  imports Editable I18n
begin

text \<open>
  The date formats of web/src/i18n/index.ts, which the week page, the calendar and the lists
  take as parameters. \<open>toLocaleDateString\<close> of Intl is the parameter
  \<open>intl\<close>: the text of a day for a locale and options. The properties assume of it what its
  documentation says: the name of a weekday depends on the day of the week alone.
\<close>

record date_options =
  do_weekday :: "jstr option"
  do_day :: "jstr option"
  do_month :: "jstr option"
  do_year :: "jstr option"

type_synonym intl = "jstr \<Rightarrow> date_options \<Rightarrow> int \<Rightarrow> jstr"

definition weekday_short :: date_options where
  "weekday_short = \<lparr>do_weekday = Some (js ''short''), do_day = None, do_month = None, do_year = None\<rparr>"

definition weekday_month_day :: date_options where
  "weekday_month_day = \<lparr>do_weekday = Some (js ''short''), do_day = Some (js ''numeric''),
     do_month = Some (js ''short''), do_year = None\<rparr>"

definition month_year :: date_options where
  "month_year = \<lparr>do_weekday = None, do_day = None, do_month = Some (js ''long''), do_year = Some (js ''numeric'')\<rparr>"

text \<open>\<open>toLocaleDateString\<close> of a date that may be an Invalid Date.\<close>

definition toLocaleDateString :: "intl \<Rightarrow> jstr \<Rightarrow> date_options \<Rightarrow> int option \<Rightarrow> jstr" where
  "toLocaleDateString intl loc opts d =
     (case d of None \<Rightarrow> js ''Invalid Date'' | Some n \<Rightarrow> intl loc opts n)"

definition formatWeekday :: "intl \<Rightarrow> Lang \<Rightarrow> jstr \<Rightarrow> jstr" where
  "formatWeekday intl currentLang isoDate =
     toLocaleDateString intl (locale_tag currentLang) weekday_short (parse_iso isoDate)"

definition formatDayShort :: "intl \<Rightarrow> Lang \<Rightarrow> jstr \<Rightarrow> jstr" where
  "formatDayShort intl currentLang isoDate =
     toLocaleDateString intl (locale_tag currentLang) weekday_month_day (parse_iso isoDate)"

definition shortWeekdaysMondayFirst :: "intl \<Rightarrow> Lang \<Rightarrow> jstr list" where
  "shortWeekdaysMondayFirst intl currentLang =
     (let base = new_date 2024 0 1 in
      map (\<lambda>i. toLocaleDateString intl (locale_tag currentLang) weekday_short
                  (Some (set_date base (get_date base + int i))))
        [0..<7])"

definition formatMonthYear :: "intl \<Rightarrow> Lang \<Rightarrow> int \<Rightarrow> int \<Rightarrow> jstr" where
  "formatMonthYear intl currentLang year month0 =
     toLocaleDateString intl (locale_tag currentLang) month_year (Some (new_date year month0 1))"

definition weekday_names :: "intl \<Rightarrow> bool" where
  "weekday_names intl \<longleftrightarrow>
     (\<forall>loc d d'. get_day d = get_day d' \<longrightarrow> intl loc weekday_short d = intl loc weekday_short d')"

subsection \<open>The columns of the calendar\<close>

lemma monday_2024: "new_date 2024 0 1 = 19723" "get_day 19723 = 1"
  by (simp_all add: new_date_def make_day_def day_from_year_def month_start_def get_day_def)

lemma get_day_add: "get_day (d + k) = (get_day d + k) mod 7"
  unfolding get_day_def by (simp add: mod_simps) (simp add: algebra_simps)

lemma weekday_header:
  assumes "k < 7"
  shows "shortWeekdaysMondayFirst intl lang ! k = intl (locale_tag lang) weekday_short (19723 + int k)"
  using assms by (simp add: shortWeekdaysMondayFirst_def monday_2024 set_date_add toLocaleDateString_def Let_def)

lemma grid_years:
  assumes "0 \<le> m" "m \<le> 11" "1001 \<le> y" "y \<le> 9998" "k < 42"
  shows "four_digit_year (grid_start y m + int k)"
proof -
  let ?d = "grid_start y m + int k"
  have "valid_civil y m 1"
    using assms(1,2) month_length_pos [of m y] by (simp add: valid_civil_def)
  then have "year_from_day (new_date y m 1) = y"
    using assms(3) make_day_year_bounds by (simp add: new_date_def)
  then have "day_from_year y \<le> new_date y m 1" "new_date y m 1 < day_from_year (y + 1)"
    using year_from_day_bounds [of "new_date y m 1"] by simp_all
  moreover have "day_from_year (y - 1) + 365 \<le> day_from_year y" "day_from_year (y + 1) + 365 \<le> day_from_year (y + 2)"
    using day_from_year_step [of "y - 1"] day_from_year_step [of "y + 1"] by (simp_all add: add.commute)
  moreover have "new_date y m 1 - 6 \<le> ?d" "?d \<le> new_date y m 1 + 41"
    using assms(5) grid_start_bounds [of y m] by auto
  ultimately have d: "day_from_year (y - 1) \<le> ?d" "?d < day_from_year (y + 2)" by linarith+
  have "y - 1 \<le> year_from_day ?d"
  proof (rule ccontr)
    assume "\<not> y - 1 \<le> year_from_day ?d"
    then have "day_from_year (year_from_day ?d + 1) \<le> day_from_year (y - 1)" by (intro day_from_year_mono) simp
    with d year_from_day_bounds(2) [of ?d] show False by linarith
  qed
  moreover have "year_from_day ?d \<le> y + 1"
  proof (rule ccontr)
    assume "\<not> year_from_day ?d \<le> y + 1"
    then have "day_from_year (y + 2) \<le> day_from_year (year_from_day ?d)" by (intro day_from_year_mono) simp
    with d year_from_day_bounds(1) [of ?d] show False by linarith
  qed
  ultimately show ?thesis using assms(3,4) by (simp add: four_digit_year_def get_full_year_def)
qed

text \<open>
  C31: The header of the calendar names its columns rightly in every language: the day in each of the
  42 cells of a month, printed with its weekday as the cards of the week do, has the name that
  stands above its column.
\<close>

theorem calendar_columns:
  assumes "weekday_names intl" and "0 \<le> m" and "m \<le> 11" and "1001 \<le> y" and "y \<le> 9998" and "k < 42"
  shows "formatWeekday intl lang (cell_iso (buildMonth y m ! k)) = shortWeekdaysMondayFirst intl lang ! (k mod 7)"
proof -
  let ?d = "grid_start y m + int k"
  have cell: "cell_iso (buildMonth y m ! k) = format_iso (Some ?d)"
    using assms(6) by (simp add: buildMonth_days [OF assms(2,3)] cell_of_def)
  have "get_day ?d = get_day (19723 + int (k mod 7))"
    unfolding get_day_add grid_start_monday monday_2024(2) by (simp add: zmod_int mod_simps)
  then have "intl (locale_tag lang) weekday_short ?d = intl (locale_tag lang) weekday_short (19723 + int (k mod 7))"
    using assms(1) unfolding weekday_names_def by blast
  then show ?thesis
    unfolding cell formatWeekday_def parse_format_iso [OF grid_years [OF assms(2-6)]]
    by (simp add: toLocaleDateString_def weekday_header)
qed

theorem calendar_columns_witness:
  "formatWeekday (\<lambda>loc opts d. [nat (get_day d)]) Sv (cell_iso (buildMonth 2026 3 ! 41)) =
     shortWeekdaysMondayFirst (\<lambda>loc opts d. [nat (get_day d)]) Sv ! 6"
  using calendar_columns [where intl = "\<lambda>loc opts d. [nat (get_day d)]" and m = 3 and y = 2026 and k = 41 and lang = Sv]
  by (simp add: weekday_names_def)

end
