(* ===== verification/Site.thy ===== *)
theory Site
  imports ShellView SetupGate Maintenance
begin

text \<open>
  One document of the application (\<open>App\<close> of web/src/App.tsx with its children): the gate, the set-up
  wizard while it is mounted, and \<open>Main\<close> while it is mounted, over one session history. What the
  gate shows decides what is mounted: a component that appears starts from its initial state, one
  that disappears loses its state. The print view opens in a tab of its own and nothing navigates
  to it, so it is not part of this document.
\<close>

subsection \<open>The state of the document\<close>

text \<open>
  \<open>accepted\<close> counts the keys that the server accepted in the wizard; \<open>waived\<close> records that no key was
  asked for: the browser had stored the completion flag, the server said that set-up is complete,
  or the status could not be read. Both only record what happened.
\<close>

record site =
  gate_of :: gate
  wizard_of :: "wizard option"
  main_of :: "app option"
  accepted :: nat
  waived :: bool

text \<open>React mounts, keeps or unmounts the children for what the gate shows; their effects run.\<close>

definition mount_main :: "gate \<Rightarrow> app option \<Rightarrow> app option" where
  "mount_main g m =
     (case app_view g of
        ShowMain r \<Rightarrow>
          Some (commit (case m of None \<Rightarrow> init_app (g_hist g) | Some s \<Rightarrow> s\<lparr>hist := g_hist g\<rparr>))
      | _ \<Rightarrow> None)"

definition mount_wizard :: "gate \<Rightarrow> wizard option \<Rightarrow> wizard option" where
  "mount_wizard g w =
     (case app_view g of
        ShowWizard \<Rightarrow>
          Some (case w of None \<Rightarrow> wizard_init (g_hist g) | Some s \<Rightarrow> s\<lparr>wz_hist := g_hist g\<rparr>)
      | _ \<Rightarrow> None)"

definition render_site :: "site \<Rightarrow> site" where
  "render_site S =
     S\<lparr>wizard_of := mount_wizard (gate_of S) (wizard_of S), main_of := mount_main (gate_of S) (main_of S)\<rparr>"

text \<open>The children's effects run before those of the gate, which may move the location once more.\<close>

definition settle :: "site \<Rightarrow> site" where
  "settle S = (let S1 = render_site S in render_site (S1\<lparr>gate_of := gate_commit (gate_of S1)\<rparr>))"

definition open_site :: "bool \<Rightarrow> history \<Rightarrow> site" where
  "open_site flag h =
     settle \<lparr>gate_of = init_gate flag h, wizard_of = None, main_of = None, accepted = 0, waived = flag\<rparr>"

definition status_arrives :: "nat \<times> jstr \<Rightarrow> jstr + bool \<Rightarrow> site \<Rightarrow> site" where
  "status_arrives p reply S =
     S\<lparr>gate_of := setup_reply p reply (gate_of S),
       waived := (waived S \<or> (case reply of Inl e \<Rightarrow> True | Inr c \<Rightarrow> c))\<rparr>"

text \<open>\<open>onComplete\<close> is the gate's \<open>wizard_done\<close>; the wizard calls it at most once in a step.\<close>

definition wizard_acts :: "wizard \<Rightarrow> wizard \<times> nat \<Rightarrow> site \<Rightarrow> site" where
  "wizard_acts w p S =
     S\<lparr>wizard_of := Some (fst p), accepted := snd p,
       gate_of := (if wz_finished w < wz_finished (fst p)
                   then (wizard_done (gate_of S))\<lparr>g_hist := wz_hist (fst p)\<rparr> else gate_of S)\<rparr>"

definition main_acts :: "app \<Rightarrow> site \<Rightarrow> site" where
  "main_acts s S = S\<lparr>main_of := Some s, gate_of := (gate_of S)\<lparr>g_hist := hist s\<rparr>\<rparr>"

definition browser_moves :: "history \<Rightarrow> site \<Rightarrow> site" where
  "browser_moves h S = S\<lparr>gate_of := (gate_of S)\<lparr>g_hist := h\<rparr>\<rparr>"

inductive site_step :: "(jstr \<Rightarrow> json option) \<Rightarrow> site \<Rightarrow> site \<Rightarrow> bool" for pj where
  by_status: "p \<in> set (g_pending (gate_of S)) \<Longrightarrow> site_step pj S (settle (status_arrives p reply S))"
| by_wizard: "wizard_of S = Some w \<Longrightarrow> wizard_step (w, accepted S) p \<Longrightarrow>
    site_step pj S (settle (wizard_acts w p S))"
| by_main: "main_of S = Some s \<Longrightarrow> app_step pj s s' \<Longrightarrow> site_step pj S (settle (main_acts s' S))"
| by_browser: "in_main h \<Longrightarrow> site_step pj S (settle (browser_moves h S))"

inductive site_reachable :: "(jstr \<Rightarrow> json option) \<Rightarrow> site \<Rightarrow> bool" for pj where
  opened: "in_main h \<Longrightarrow> site_reachable pj (open_site flag h)"
| site_next: "site_reachable pj S \<Longrightarrow> site_step pj S S' \<Longrightarrow> site_reachable pj S'"

subsection \<open>The location stays within the application\<close>

lemma setup_in_main: "in_main (navigate RSetup rep h)"
proof -
  have "useRoute (navigate RSetup rep h) = RSetup"
    unfolding useRoute_def navigate_def navigate_pathname
    by (rule parse_routeToPath) (simp add: valid_route_def)
  then show ?thesis by (simp add: in_main_def)
qed

lemma hist_core: "core s' = core s \<Longrightarrow> hist s' = hist s"
  by (simp add: core_def)

lemmas hist_frames = core_handlers [THEN hist_core] core_chat_effect [THEN hist_core]

lemma commit_hist: "hist (commit s) = hist s"
  by (simp add: commit_def hist_frames)
    (simp add: loader_effect_def run_loader_def Let_def split: option.split prod.split)

lemma hist_handlers:
  "hist (load_reply p reply s) = hist s" "hist (handleAgentEvent pj ev s) = hist s"
  "hist (end_turn failure st s) = hist s" "hist (deletePlan tgt c s) = hist s" "hist (bumpLoad s) = hist s"
  "hist (snd (patched_week wreply s)) = hist s"
proof -
  show "hist (handleAgentEvent pj ev s) = hist s"
    by (simp add: handleAgentEvent_def mark_day_def bumpLoad_def Let_def split: prod.split option.split)
qed (simp_all add: load_reply_def end_turn_def deletePlan_def ask_def patched_week_def toast_error_def bumpLoad_def
      Let_def split: option.split sum.split prod.split)

lemma hist_new_plan:
  "in_main (hist s) \<Longrightarrow> in_main (hist (created_plan wreply s))"
  "in_main (hist s) \<Longrightarrow> in_main (hist (cloned_plan wreply s))"
  "in_main (hist s) \<Longrightarrow> in_main (hist (deleted_plan i viewed ureply s))"
  by (simp_all add: created_plan_def cloned_plan_def deleted_plan_def go_def go_week_in_main go_in_main forget_chat_def
      toast_error_def toast_success_def Let_def split: sum.split)

lemma app_step_in_main: "app_step pj s s' \<Longrightarrow> in_main (hist s) \<Longrightarrow> in_main (hist s')"
  by (induction rule: app_step.induct) (simp_all add: commit_hist hist_handlers hist_frames hist_new_plan go_def)

lemma gate_commit_in_main: "in_main (g_hist g) \<Longrightarrow> in_main (g_hist (gate_commit g))"
  by (simp add: gate_commit_def bounce_effect_def go_in_main)

subsection \<open>The parts stay consistent with each other\<close>

text \<open>
  Each part is in a state of its own step relation, what is mounted is what the gate shows, and the
  history is one.
\<close>

definition site_inv :: "(jstr \<Rightarrow> json option) \<Rightarrow> site \<Rightarrow> bool" where
  "site_inv pj S \<longleftrightarrow>
     gate_reachable (gate_of S) \<and> in_main (g_hist (gate_of S)) \<and>
     (case main_of S of
        None \<Rightarrow> setupComplete (gate_of S) \<noteq> Some True
      | Some s \<Rightarrow> app_reachable pj s \<and> hist s = g_hist (gate_of S) \<and> app_view (gate_of S) = ShowMain (AppShell.route s)) \<and>
     (case wizard_of S of
        None \<Rightarrow> app_view (gate_of S) \<noteq> ShowWizard
      | Some w \<Rightarrow> wizard_inv (w, accepted S) \<and> wz_finished w = 0 \<and> wz_hist w = g_hist (gate_of S)
          \<and> app_view (gate_of S) = ShowWizard) \<and>
     (setupComplete (gate_of S) = Some True \<longrightarrow> waived S \<or> 0 < accepted S)"

lemma view_in_main:
  "in_main (g_hist g) \<Longrightarrow> app_view g =
     (case setupComplete g of None \<Rightarrow> ShowSplash | Some False \<Rightarrow> ShowWizard | Some True \<Rightarrow> ShowMain (useRoute (g_hist g)))"
  by (cases "useRoute (g_hist g)"; cases "setupComplete g") (auto simp: in_main_def app_view_def split: bool.split)

lemma settle_fields [simp]:
  "gate_of (settle S) = gate_commit (gate_of S)" "accepted (settle S) = accepted S" "waived (settle S) = waived S"
  by (simp_all add: settle_def render_site_def Let_def)

lemma settle_main: "main_of (settle S) = mount_main (gate_commit (gate_of S)) (mount_main (gate_of S) (main_of S))"
  by (simp add: settle_def render_site_def Let_def)

lemma settle_wizard:
  "wizard_of (settle S) = mount_wizard (gate_commit (gate_of S)) (mount_wizard (gate_of S) (wizard_of S))"
  by (simp add: settle_def render_site_def Let_def)

text \<open>\<open>Main\<close> is mounted in a reachable state and acts by its own steps while it stays mounted.\<close>

definition main_ok :: "(jstr \<Rightarrow> json option) \<Rightarrow> app option \<Rightarrow> bool" where
  "main_ok pj m \<longleftrightarrow> (case m of None \<Rightarrow> True | Some s \<Rightarrow> app_reachable pj s)"

lemma mount_main_ok: "in_main (g_hist g) \<Longrightarrow> main_ok pj m \<Longrightarrow> main_ok pj (mount_main g m)"
  by (auto simp: main_ok_def mount_main_def split: AppView.split option.splits
      intro: mounted stepped [OF _ history_moves])

lemma mount_main_shown:
  assumes "in_main (g_hist g)"
  shows "case mount_main g m of
      None \<Rightarrow> setupComplete g \<noteq> Some True
    | Some s \<Rightarrow> hist s = g_hist g \<and> app_view g = ShowMain (AppShell.route s)"
  by (simp add: mount_main_def view_in_main [OF assms] commit_hist init_app_def
      split: option.split bool.split)

lemma mount_wizard_shown:
  assumes "in_main (g_hist g)" and "\<And>w. m = Some w \<Longrightarrow> wizard_inv (w, n) \<and> wz_finished w = 0"
  shows "case mount_wizard g m of
      None \<Rightarrow> app_view g \<noteq> ShowWizard
    | Some w \<Rightarrow> wizard_inv (w, n) \<and> wz_finished w = 0 \<and> wz_hist w = g_hist g \<and> app_view g = ShowWizard"
  using assms(2) by (cases m) (auto simp: mount_wizard_def wizard_init_def wizard_inv_def split: AppView.split)

text \<open>A change of the parts that the gate allows is settled consistently.\<close>

lemma settle_inv:
  assumes "gate_reachable (gate_commit (gate_of S))" and "in_main (g_hist (gate_of S))" and "main_ok pj (main_of S)"
    and "\<And>w. wizard_of S = Some w \<Longrightarrow> app_view (gate_of S) = ShowWizard \<Longrightarrow>
      wizard_inv (w, accepted S) \<and> wz_finished w = 0"
    and "setupComplete (gate_of S) = Some True \<longrightarrow> waived S \<or> 0 < accepted S"
  shows "site_inv pj (settle S)"
proof -
  let ?g = "gate_commit (gate_of S)" and ?m = "mount_main (gate_of S) (main_of S)"
  have in_main: "in_main (g_hist ?g)" by (rule gate_commit_in_main [OF assms(2)])
  have "main_ok pj (mount_main ?g ?m)" by (intro mount_main_ok in_main assms(2,3))
  moreover note mount_main_shown [OF in_main, of ?m]
  moreover have "case mount_wizard (gate_of S) (wizard_of S) of None \<Rightarrow> True
      | Some w \<Rightarrow> wizard_inv (w, accepted S) \<and> wz_finished w = 0"
    using assms(4) by (cases "wizard_of S")
      (auto simp: mount_wizard_def wizard_init_def wizard_inv_def split: AppView.split)
  then have "case mount_wizard ?g (mount_wizard (gate_of S) (wizard_of S)) of
      None \<Rightarrow> app_view ?g \<noteq> ShowWizard
    | Some w \<Rightarrow> wizard_inv (w, accepted S) \<and> wz_finished w = 0 \<and> wz_hist w = g_hist ?g \<and> app_view ?g = ShowWizard"
    by (intro mount_wizard_shown in_main) (simp split: option.splits)
  ultimately show ?thesis
    using assms(1,5) in_main
    by (simp add: site_inv_def settle_main settle_wizard main_ok_def split: option.splits)
qed

lemma reply_waives:
  assumes "setupComplete (setup_reply p reply g) = Some True"
  shows "setupComplete g = Some True \<or> (case reply of Inl e \<Rightarrow> True | Inr c \<Rightarrow> c)"
  using assms by (auto simp: setup_reply_def Let_def split: sum.splits if_splits)

lemma reply_in_main: "in_main (g_hist g) \<Longrightarrow> in_main (g_hist (setup_reply p reply g))"
  by (simp add: setup_reply_def Let_def setup_in_main split: sum.split)

text \<open>A step of the wizard either reports its completion, and goes home, or leaves the address alone.\<close>

lemma wizard_step_moves:
  assumes "wizard_step (w, n) p"
  shows "n \<le> snd p \<and> (wz_finished (fst p) = wz_finished w \<and> wz_hist (fst p) = wz_hist w \<or>
    wz_finished (fst p) = Suc (wz_finished w) \<and> wz_hist (fst p) = navigate RHome True (wz_hist w))"
  using assms by (cases rule: wizard_stepE)
    (auto simp: wizard_moves saveKey_def key_saved_def onSeed_def seeded_def finish_def split: Step.split sum.split)

lemma gate_settles: "gate_reachable g \<Longrightarrow> gate_reachable (gate_commit (g\<lparr>g_hist := h\<rparr>))"
  by (rule gate_next [OF _ gate_moves])

lemma gate_settles_same: "gate_reachable g \<Longrightarrow> gate_reachable (gate_commit g)"
  using gate_settles [of g "g_hist g"] by simp

lemma site_wizard_inv:
  assumes inv: "site_inv pj S" and w: "wizard_of S = Some w" and st: "wizard_step (w, accepted S) p"
  shows "site_inv pj (settle (wizard_acts w p S))"
proof -
  have g: "gate_reachable (gate_of S)" "in_main (g_hist (gate_of S))" "app_view (gate_of S) = ShowWizard"
      "wizard_inv (w, accepted S)" "wz_finished w = 0" "wz_hist w = g_hist (gate_of S)"
    using inv w by (simp_all add: site_inv_def)
  have main: "main_of S = None" "setupComplete (gate_of S) \<noteq> Some True"
    using inv g(3) by (auto simp: site_inv_def split: option.splits)
  have p: "wizard_inv (fst p, snd p)" using wizard_step_inv [OF st g(4)] by simp
  show ?thesis
  proof (cases "wz_finished (fst p) = 0")
    case True
    then show ?thesis
      by (intro settle_inv) (use g p main in \<open>simp_all add: wizard_acts_def gate_settles_same main_ok_def\<close>)
  next
    case False
    then have "wz_hist (fst p) = navigate RHome True (g_hist (gate_of S))"
      using wizard_step_moves [OF st] g(5,6) by auto
    moreover have "gate_reachable (gate_commit ((wizard_done (gate_of S))\<lparr>g_hist := navigate RHome True (g_hist (gate_of S))\<rparr>))"
      by (rule gate_next [OF g(1) gate_done [OF g(3)]])
    moreover have "0 < snd p" using p False by (simp add: wizard_inv_def)
    ultimately show ?thesis
      by (intro settle_inv)
        (use g False main in \<open>simp_all add: wizard_acts_def main_ok_def go_in_main view_in_main wizard_done_def\<close>)
  qed
qed

lemma site_step_inv: "site_step pj S S' \<Longrightarrow> site_inv pj S \<Longrightarrow> site_inv pj S'"
proof (induction rule: site_step.induct)
  case (by_status p S reply)
  then have g: "gate_reachable (gate_of S)" "in_main (g_hist (gate_of S))"
    "setupComplete (gate_of S) = Some True \<longrightarrow> waived S \<or> 0 < accepted S"
    by (simp_all add: site_inv_def)
  have "gate_reachable (gate_commit (setup_reply p reply (gate_of S)))"
    by (rule gate_next [OF g(1) gate_reply [OF by_status.hyps]])
  then show ?case
    by (intro settle_inv)
      (use by_status g in \<open>auto simp: status_arrives_def reply_in_main site_inv_def main_ok_def
        dest!: reply_waives split: option.splits\<close>)
next
  case (by_wizard S w p)
  then show ?case by (rule site_wizard_inv [rotated])
next
  case (by_main S s s')
  then have g: "gate_reachable (gate_of S)" "in_main (hist s)" "app_reachable pj s"
    "wizard_of S = None" "setupComplete (gate_of S) = Some True \<longrightarrow> waived S \<or> 0 < accepted S"
    by (auto simp: site_inv_def split: option.splits)
  then show ?case
    by (intro settle_inv) (use by_main.hyps in \<open>simp_all add: main_acts_def main_ok_def gate_settles app_step_in_main
      stepped [OF g(3)]\<close>)
next
  case (by_browser h S)
  then show ?case
    by (intro settle_inv)
      (auto simp: browser_moves_def site_inv_def main_ok_def gate_settles split: option.splits)
qed

lemma init_gate_fields:
  "g_hist (init_gate flag h) = h" "setupComplete (init_gate flag h) = (if flag then Some True else None)"
  by (simp_all add: init_gate_def)

lemma site_reachable_inv: "site_reachable pj S \<Longrightarrow> site_inv pj S"
proof (induction rule: site_reachable.induct)
  case (opened h flag)
  show ?case unfolding open_site_def
    by (rule settle_inv) (simp_all add: gate_start opened main_ok_def init_gate_fields)
qed (rule site_step_inv)

subsection \<open>The application is never lost\<close>

lemma mount_main_keeps:
  assumes "setupComplete g = Some True" and "in_main (g_hist g)"
  shows "\<exists>s'. mount_main g (Some s) = Some s' \<and> app_step pj s s'"
proof -
  have "mount_main g (Some s) = Some (commit (s\<lparr>hist := g_hist g\<rparr>))"
    by (simp add: mount_main_def view_in_main [OF assms(2)] assms(1))
  with history_moves [OF assms(2)] show ?thesis by blast
qed

lemma settle_keeps:
  assumes "setupComplete (gate_of S) = Some True" and "in_main (g_hist (gate_of S))" and "main_of S = Some s"
  shows "\<exists>s'. main_of (settle S) = Some s' \<and> (app_step pj)\<^sup>*\<^sup>* s s'"
proof -
  obtain s1 where s1: "mount_main (gate_of S) (Some s) = Some s1" "app_step pj s s1"
    using mount_main_keeps [OF assms(1,2)] by blast
  have "setupComplete (gate_commit (gate_of S)) = Some True" using assms(1) by simp
  from mount_main_keeps [OF this gate_commit_in_main [OF assms(2)]] s1
  show ?thesis unfolding settle_main assms(3) by (metis rtranclp.simps)
qed

lemma main_survives:
  assumes "site_step pj S S'" and "site_inv pj S" and "main_of S = Some s"
  shows "\<exists>s'. main_of S' = Some s' \<and> (app_step pj)\<^sup>*\<^sup>* s s'"
proof -
  have g: "gate_reachable (gate_of S)" "in_main (g_hist (gate_of S))" "hist s = g_hist (gate_of S)"
      "app_view (gate_of S) = ShowMain (AppShell.route s)"
    using assms(2,3) by (simp_all add: site_inv_def)
  then have complete: "setupComplete (gate_of S) = Some True"
    by (simp add: view_in_main split: option.splits bool.splits)
  from assms(1) show ?thesis
  proof cases
    case (by_status p reply)
    have "setupComplete (setup_reply p reply (gate_of S)) = Some True"
      by (rule reply_keeps_complete [OF gate_reachable_inv [OF g(1)] by_status(2) complete])
    then show ?thesis
      using settle_keeps [of "status_arrives p reply S" s] g(2) assms(3) by_status(1)
      by (simp add: status_arrives_def reply_in_main)
  next
    case (by_wizard w p)
    then show ?thesis using assms(2) g(4) by (simp add: site_inv_def)
  next
    case (by_main s0 s')
    then have st: "app_step pj s s'" using assms(3) by simp
    then have "in_main (hist s')" using app_step_in_main g(2,3) by simp
    then obtain s2 where "main_of S' = Some s2" "(app_step pj)\<^sup>*\<^sup>* s' s2"
      using settle_keeps [of "main_acts s' S" s'] complete by_main(1) by (auto simp: main_acts_def)
    with st show ?thesis by (meson converse_rtranclp_into_rtranclp)
  next
    case (by_browser h)
    then show ?thesis
      using settle_keeps [of "browser_moves h S" s] complete assms(3) by (simp add: browser_moves_def)
  qed
qed

subsection \<open>Properties\<close>

text \<open>
  C18: Composition of the gate, the wizard and the application: whenever the application is mounted in
  a document, it is in a reachable state of its own, on the address that the gate sees, never on the
  set-up route, and a key was accepted in the wizard unless the browser or the server waived the
  wizard; and no step of the document, late status replies and moves of the browser included,
  unmounts it: its next state follows from the present one by its own steps, so neither the
  transcript nor a running turn is lost.
\<close>

theorem application_in_document:
  assumes "site_reachable pj S" and "main_of S = Some s"
  shows "app_reachable pj s \<and> hist s = g_hist (gate_of S) \<and> app_view (gate_of S) = ShowMain (AppShell.route s) \<and>
    AppShell.route s \<noteq> RSetup \<and> (waived S \<or> 0 < accepted S) \<and>
    (\<forall>S'. site_step pj S S' \<longrightarrow> (\<exists>s'. main_of S' = Some s' \<and> (app_step pj)\<^sup>*\<^sup>* s s'))"
proof -
  have inv: "site_inv pj S" by (rule site_reachable_inv [OF assms(1)])
  then have g: "gate_reachable (gate_of S)" "app_view (gate_of S) = ShowMain (AppShell.route s)"
    using assms(2) by (simp_all add: site_inv_def)
  with gate_shows [OF g(1)] have "setupComplete (gate_of S) = Some True" "AppShell.route s \<noteq> RSetup" by blast+
  with inv assms(2) main_survives [OF _ inv assms(2)] show ?thesis by (auto simp: site_inv_def)
qed

definition home_history :: history where
  "home_history = \<lparr>back_entries = [], pathname = js ''/'', forward_entries = []\<rparr>"

theorem application_in_document_witness:
  "\<exists>s. main_of (open_site True home_history) = Some s \<and> app_reachable Map.empty s \<and> AppShell.route s \<noteq> RSetup"
proof -
  have home: "useRoute home_history = RHome" by (simp add: home_history_def useRoute_def parseRoute_def)
  then have in_main: "in_main home_history" by (simp add: in_main_def)
  have "site_reachable Map.empty (open_site True home_history)" by (rule opened [OF in_main])
  moreover from site_reachable_inv [OF this] obtain s where "main_of (open_site True home_history) = Some s"
    by (auto simp: site_inv_def open_site_def init_gate_def split: option.splits)
  ultimately show ?thesis using application_in_document by blast
qed

end
