(* ===== verification/Labels.thy ===== *)
theory Labels
  imports Views ChatView ListViews SettingsView
begin

text \<open>
  The labels that load what they show: the model in the header of the chat (\<open>ActiveModelChip\<close> of
  ChatDrawer.tsx), which loads whenever the panel opens, and the running version at the foot of the
  sidebar (\<open>VersionFooter\<close> of WeeksSidebar.tsx) and of the settings (\<open>SettingsVersion\<close> of
  SettingsModal.tsx), which load once. A failure is not shown: the label stays as it was.
\<close>

subsection \<open>The active model\<close>

type_synonym chip = "jstr option fetch"

definition chip_init :: chip where
  "chip_init = fetch_init None"

text \<open>The effect on \<open>[open]\<close>: the cleanup of the previous run, then a new one when the panel is open.\<close>

definition chip_open :: "bool \<Rightarrow> chip \<Rightarrow> chip" where
  "chip_open is_open s = (if is_open then fetch_run (fetch_cleanup s) else fetch_cleanup s)"

definition chip_reply :: "nat \<Rightarrow> jstr + ProvidersEnvelope \<Rightarrow> chip \<Rightarrow> chip" where
  "chip_reply tok reply s = fetch_step (Reply tok (map_sum (\<lambda>e. e) active_model reply)) s"

definition chip_model :: "chip \<Rightarrow> jstr option" where
  "chip_model s = (case ft_value s of None \<Rightarrow> None | Some m \<Rightarrow> m)"

definition ActiveModelChip :: "(jstr \<Rightarrow> jstr) \<Rightarrow> chip \<Rightarrow> 'e node list" where
  "ActiveModelChip upper s = model_chip upper (chip_model s)"

datatype chip_event = ChipPanel bool | ChipReply nat "jstr + ProvidersEnvelope"

fun chip_step :: "chip_event \<Rightarrow> chip \<Rightarrow> chip" where
  "chip_step (ChipPanel is_open) s = chip_open is_open s"
| "chip_step (ChipReply tok reply) s = chip_reply tok reply s"

abbreviation "chip_run es s \<equiv> fold chip_step es s"

subsection \<open>The version\<close>

definition VersionFooter_info :: "VersionInfo fetch_event list \<Rightarrow> VersionInfo option" where
  "VersionFooter_info es = ft_value (fetch_exec es (fetch_run (fetch_init None)))"

definition SettingsVersion_info :: "VersionInfo fetch_event list \<Rightarrow> VersionInfo option" where
  "SettingsVersion_info es = ft_value (fetch_exec es (fetch_run (fetch_init None)))"

subsection \<open>Only the latest opening counts\<close>

lemma chip_step_inv: "fetch_inv s \<Longrightarrow> fetch_inv (chip_step e s)"
proof (cases e)
  case (ChipPanel is_open)
  assume "fetch_inv s"
  then show ?thesis
    using fetch_step_inv [of "fetch_cleanup s" Rerun] fetch_step_inv [of s Cleanup]
    by (cases is_open) (simp_all add: ChipPanel chip_open_def)
next
  case (ChipReply tok reply)
  then show "fetch_inv s \<Longrightarrow> ?thesis" by (simp add: chip_reply_def del: fetch_step.simps) (rule fetch_step_inv)
qed

lemma chip_run_inv: "fetch_inv s \<Longrightarrow> fetch_inv (chip_run es s)"
  by (induction es arbitrary: s) (simp_all add: chip_step_inv del: chip_step.simps)

text \<open>While no run is live, or the reply is to an earlier run, a reply leaves the label alone.\<close>

lemma stale_chip_reply:
  "tok \<noteq> ft_token s \<or> \<not> ft_live s \<Longrightarrow> ft_value (chip_reply tok reply s) = ft_value s
     \<and> ft_token (chip_reply tok reply s) = ft_token s \<and> ft_live (chip_reply tok reply s) = ft_live s"
  by (auto simp: chip_reply_def fetch_reply_def Let_def)

definition replies_of :: "chip_event list \<Rightarrow> nat set" where
  "replies_of es = {tok. \<exists>reply. ChipReply tok reply \<in> set es}"

definition only_replies :: "chip_event list \<Rightarrow> bool" where
  "only_replies es \<longleftrightarrow> list_all (\<lambda>e. case e of ChipPanel b \<Rightarrow> False | ChipReply tok r \<Rightarrow> True) es"

lemma stale_chip_replies:
  assumes "only_replies es" and "ft_token s \<notin> replies_of es"
  shows "ft_value (chip_run es s) = ft_value s \<and> ft_token (chip_run es s) = ft_token s
    \<and> ft_live (chip_run es s) = ft_live s \<and> (ft_token s \<in> set (ft_pending s) \<longrightarrow> ft_token s \<in> set (ft_pending (chip_run es s)))"
  using assms
proof (induction es arbitrary: s)
  case (Cons e es)
  then obtain tok reply where e: "e = ChipReply tok reply" by (cases e) (simp_all add: only_replies_def)
  let ?s = "chip_reply tok reply s"
  have tok: "tok \<noteq> ft_token s" using Cons.prems(2) by (auto simp: e replies_of_def)
  then have same: "ft_value ?s = ft_value s" "ft_token ?s = ft_token s" "ft_live ?s = ft_live s"
    using stale_chip_reply by blast+
  have "ft_token s \<in> set (ft_pending s) \<Longrightarrow> ft_token s \<in> set (ft_pending ?s)"
    using tok by (auto simp: chip_reply_def fetch_reply_def Let_def in_set_remove1)
  moreover have "only_replies es" "ft_token ?s \<notin> replies_of es"
    using Cons.prems same by (auto simp: only_replies_def replies_of_def)
  ultimately show ?case using Cons.IH [of ?s] same by (simp add: e)
qed simp

text \<open>
  The chip shows the model that is configured when the panel opens: after any history of openings
  and closings, and whatever replies to earlier openings arrive late, in any order and number, the
  reply to the latest opening decides what is shown; a failure leaves what was shown before.
\<close>

lemma chip_shows_latest:
  assumes "only_replies late" and "ft_token (chip_run es chip_init) + 1 \<notin> replies_of late"
  shows "let s0 = chip_run es chip_init; tok = ft_token s0 + 1;
      s1 = chip_run (ChipPanel True # late) s0 in
    chip_model (chip_step (ChipReply tok (Inr env)) s1) = active_model env \<and>
    chip_model (chip_step (ChipReply tok (Inl e)) s1) = chip_model s0"
proof -
  let ?s0 = "chip_run es chip_init"
  let ?o = "chip_open True ?s0"
  have o: "ft_token ?o = ft_token ?s0 + 1" "ft_live ?o" "ft_token ?o \<in> set (ft_pending ?o)" "ft_value ?o = ft_value ?s0"
    by (simp_all add: chip_open_def fetch_run_def fetch_cleanup_def)
  from stale_chip_replies [OF assms(1), of ?o] assms(2) o
  have "ft_token (chip_run late ?o) = ft_token ?s0 + 1" "ft_live (chip_run late ?o)"
    "ft_token ?s0 + 1 \<in> set (ft_pending (chip_run late ?o))" "ft_value (chip_run late ?o) = ft_value ?s0"
    by auto
  then show ?thesis by (simp add: chip_reply_def chip_model_def fetch_reply_def Let_def)
qed

text \<open>
  A version label is hidden until the version is known, and what is shown was reported; after the
  component is gone no reply changes it.
\<close>

lemma version_from_reply:
  "ft_value (fetch_exec es s) = Some v \<Longrightarrow> ft_value s = Some v \<or> (\<exists>tok. Reply tok (Inr v) \<in> set es)"
proof (induction es arbitrary: s)
  case (Cons e es)
  from Cons.IH [of "fetch_step e s"] Cons.prems
  have "ft_value (fetch_step e s) = Some v \<or> (\<exists>tok. Reply tok (Inr v) \<in> set es)" by (simp add: fetch_exec_def)
  moreover have "ft_value (fetch_step e s) = Some v \<Longrightarrow> ft_value s = Some v \<or> (\<exists>tok. e = Reply tok (Inr v))"
    by (cases e) (auto simp: fetch_run_def fetch_cleanup_def fetch_reply_def Let_def split: if_splits sum.splits)
  ultimately show ?case by auto
qed (simp add: fetch_exec_def)

lemma version_reported:
  "VersionFooter_info es = Some v \<Longrightarrow> \<exists>tok. Reply tok (Inr v) \<in> set es"
  "SettingsVersion_info es = Some v \<Longrightarrow> \<exists>tok. Reply tok (Inr v) \<in> set es"
  using version_from_reply [of es "fetch_run (fetch_init None)" v]
  by (simp_all add: VersionFooter_info_def SettingsVersion_info_def fetch_run_def fetch_init_def)

end
