(* ===== verification/Utf8.thy ===== *)
theory Utf8
  imports Sse "HOL-Library.Word"
begin

text \<open>
  The bytes below \<open>streamChat\<close> of web/src/lib/api.ts: \<open>new TextDecoder()\<close> and
  \<open>decoder.decode(value, { stream: true })\<close>. The decoder is the UTF-8 decoder of the Encoding
  Standard in replacement mode: it keeps the bytes of an unfinished character between two calls, an
  ill-formed sequence gives U+FFFD, and a byte order mark at the start is dropped. Code points become
  the UTF-16 code units of a JavaScript string. The loop never flushes the decoder, so an unfinished
  character at the end of the stream is dropped.
\<close>

unbundle bit_operations_syntax

type_synonym byte = "8 word"

subsection \<open>The decoder\<close>

record utf8_state =
  u8_point :: nat
  u8_needed :: nat
  u8_seen :: nat
  u8_lower :: nat
  u8_upper :: nat

definition u8_start :: utf8_state where
  "u8_start = \<lparr>u8_point = 0, u8_needed = 0, u8_seen = 0, u8_lower = 128, u8_upper = 191\<rparr>"

abbreviation (input) replacement :: nat where "replacement \<equiv> 65533"
abbreviation (input) byte_order_mark :: nat where "byte_order_mark \<equiv> 65279"

text \<open>A byte where a character begins: the new state and the code points that are put out.\<close>

definition u8_lead :: "byte \<Rightarrow> utf8_state \<times> nat list" where
  "u8_lead b =
     (let n = unat b in
      if n \<le> 127 then (u8_start, [n])
      else if 194 \<le> n \<and> n \<le> 223 then (u8_start\<lparr>u8_needed := 1, u8_point := unat (b AND 31)\<rparr>, [])
      else if 224 \<le> n \<and> n \<le> 239 then
        (u8_start\<lparr>u8_needed := 2, u8_point := unat (b AND 15),
                  u8_lower := (if n = 224 then 160 else 128), u8_upper := (if n = 237 then 159 else 191)\<rparr>, [])
      else if 240 \<le> n \<and> n \<le> 244 then
        (u8_start\<lparr>u8_needed := 3, u8_point := unat (b AND 7),
                  u8_lower := (if n = 240 then 144 else 128), u8_upper := (if n = 244 then 143 else 191)\<rparr>, [])
      else (u8_start, [replacement]))"

text \<open>A byte that cannot continue the character is read again as the start of the next one.\<close>

definition u8_step :: "byte \<Rightarrow> utf8_state \<Rightarrow> utf8_state \<times> nat list" where
  "u8_step b s =
     (if u8_needed s = 0 then u8_lead b
      else if unat b < u8_lower s \<or> u8_upper s < unat b then
        (let (s', out) = u8_lead b in (s', replacement # out))
      else
        (let point = u8_point s * 64 + unat (b AND 63) in
         if u8_seen s + 1 = u8_needed s then (u8_start, [point])
         else (s\<lparr>u8_point := point, u8_seen := u8_seen s + 1, u8_lower := 128, u8_upper := 191\<rparr>, [])))"

fun u8_run :: "byte list \<Rightarrow> utf8_state \<Rightarrow> utf8_state \<times> nat list" where
  "u8_run [] s = (s, [])"
| "u8_run (b # bs) s =
     (let (s1, out1) = u8_step b s; (s2, out2) = u8_run bs s1 in (s2, out1 @ out2))"

text \<open>The code units of a code point: one, or a surrogate pair.\<close>

definition code_units :: "nat \<Rightarrow> jstr" where
  "code_units c =
     (if c < 65536 then [c] else [55296 + (c - 65536) div 1024, 56320 + (c - 65536) mod 1024])"

definition utf16 :: "nat list \<Rightarrow> jstr" where
  "utf16 cs = concat (map code_units cs)"

record TextDecoder =
  td_state :: utf8_state
  td_bom_seen :: bool

definition new_TextDecoder :: TextDecoder where
  "new_TextDecoder = \<lparr>td_state = u8_start, td_bom_seen = False\<rparr>"

definition drop_mark :: "bool \<Rightarrow> nat list \<Rightarrow> nat list" where
  "drop_mark bom_seen cs =
     (case cs of c # cs' \<Rightarrow> if \<not> bom_seen \<and> c = byte_order_mark then cs' else cs | [] \<Rightarrow> [])"

definition decode :: "byte list \<Rightarrow> TextDecoder \<Rightarrow> TextDecoder \<times> jstr" where
  "decode bytes td =
     (let (s, cs) = u8_run bytes (td_state td) in
      (\<lparr>td_state = s, td_bom_seen = (td_bom_seen td \<or> cs \<noteq> [])\<rparr>, utf16 (drop_mark (td_bom_seen td) cs)))"

subsection \<open>The stream of bytes\<close>

datatype 'e byte_read = Bytes "byte list" | ReadThrows 'e

fun decoded :: "'e byte_read list \<Rightarrow> TextDecoder \<Rightarrow> 'e read_result list" where
  "decoded [] td = []"
| "decoded (ReadThrows e # rs) td = ReadFails e # decoded rs td"
| "decoded (Bytes bs # rs) td = (let (td', txt) = decode bs td in Chunk txt # decoded rs td')"

record 'e wire_response =
  wire_ok :: bool
  wire_status :: int
  wire_statusText :: jstr
  wire_body :: "'e byte_read list option"

definition received :: "'e wire_response \<Rightarrow> 'e chat_response" where
  "received r =
     \<lparr>resp_ok = wire_ok r, resp_status = wire_status r, resp_statusText = wire_statusText r,
      resp_body = map_option (\<lambda>rs. decoded rs new_TextDecoder) (wire_body r)\<rparr>"

definition streamChat_bytes ::
    "(jstr \<Rightarrow> 'e) \<Rightarrow> (jstr \<Rightarrow> 'j option) \<Rightarrow> 'e + 'e wire_response \<Rightarrow> ('j, 'w, 'e) StreamHandlers
       \<Rightarrow> 'w \<Rightarrow> 'e option \<times> 'w" where
  "streamChat_bytes mk_error pj response hs w = streamChat mk_error pj (map_sum (\<lambda>e. e) received response) hs w"

subsection \<open>The server's bytes\<close>

text \<open>A Unicode scalar value, and its bytes, as Go writes a string.\<close>

definition scalar :: "nat \<Rightarrow> bool" where
  "scalar c \<longleftrightarrow> c < 1114112 \<and> \<not> (55296 \<le> c \<and> c \<le> 57343)"

definition byte :: "nat \<Rightarrow> byte" where
  "byte n = word_of_nat n"

definition utf8_char :: "nat \<Rightarrow> byte list" where
  "utf8_char c =
     map byte
       (if c < 128 then [c]
        else if c < 2048 then [192 + c div 64, 128 + c mod 64]
        else if c < 65536 then [224 + c div 4096, 128 + c div 64 mod 64, 128 + c mod 64]
        else [240 + c div 262144, 128 + c div 4096 mod 64, 128 + c div 64 mod 64, 128 + c mod 64])"

definition utf8 :: "nat list \<Rightarrow> byte list" where
  "utf8 cs = concat (map utf8_char cs)"

subsection \<open>Decoding in pieces\<close>

lemma u8_run_append:
  "u8_run (a @ b) s =
     (let (s1, x) = u8_run a s; (s2, y) = u8_run b s1 in (s2, x @ y))"
  by (induction a arbitrary: s) (simp_all add: Let_def split_def)

lemma utf16_append [simp]: "utf16 (a @ b) = utf16 a @ utf16 b" and utf16_Nil [simp]: "utf16 [] = []"
  by (simp_all add: utf16_def)

lemma utf8_append [simp]: "utf8 (a @ b) = utf8 a @ utf8 b" and utf8_Nil [simp]: "utf8 [] = []"
  by (simp_all add: utf8_def)

lemma drop_mark_append: "drop_mark m (a @ b) = drop_mark m a @ drop_mark (m \<or> a \<noteq> []) b"
  by (cases a; cases b) (simp_all add: drop_mark_def)

text \<open>What a decoder puts out for a text does not depend on how the text is cut.\<close>

lemma decode_append:
  "decode (a @ b) td = (let (td1, x) = decode a td; (td2, y) = decode b td1 in (td2, x @ y))"
  by (simp add: decode_def u8_run_append Let_def split_def drop_mark_append disj_assoc)

lemma decode_Nil: "decode [] td = (td, [])"
  by (simp add: decode_def drop_mark_def)

lemma decoded_chunks:
  "\<exists>ts. (decoded (map Bytes cs) td :: 'e read_result list) = map Chunk ts \<and> concat ts = snd (decode (concat cs) td)"
proof (induction cs arbitrary: td)
  case (Cons c cs)
  obtain td1 x where d: "decode c td = (td1, x)" by fastforce
  from Cons.IH [of td1] obtain ts where
    "(decoded (map Bytes cs) td1 :: 'e read_result list) = map Chunk ts" "concat ts = snd (decode (concat cs) td1)" by blast
  then have "(decoded (map Bytes (c # cs)) td :: 'e read_result list) = map Chunk (x # ts) \<and> concat (x # ts) = snd (decode (concat (c # cs)) td)"
    by (simp add: d decode_append Let_def split_def)
  then show ?case by blast
qed (simp add: decode_Nil)

subsection \<open>Round trip\<close>

lemma unat_byte [simp]: "n < 256 \<Longrightarrow> unat (byte n) = n"
  by (simp add: byte_def unat_of_nat)

lemma u8_start_fields [simp]:
  "u8_point u8_start = 0" "u8_needed u8_start = 0" "u8_seen u8_start = 0" "u8_lower u8_start = 128"
  "u8_upper u8_start = 191"
  by (simp_all add: u8_start_def)

lemma unat_low_bits:
  "unat (b AND 63) = unat b mod 64" "unat (b AND 31) = unat b mod 32"
  "unat (b AND 15) = unat b mod 16" "unat (b AND 7) = unat b mod 8" for b :: byte
proof -
  have m: "unat (b AND mask n) = unat b mod 2 ^ n" for n
    by (simp add: take_bit_eq_mask [symmetric] unsigned_take_bit_eq) (simp add: take_bit_eq_mod)
  show "unat (b AND 63) = unat b mod 64" "unat (b AND 31) = unat b mod 32"
    "unat (b AND 15) = unat b mod 16" "unat (b AND 7) = unat b mod 8"
    using m [of 6] m [of 5] m [of 4] m [of 3] by (simp_all add: mask_eq_exp_minus_1)
qed

lemma payload [simp]:
  "x < 32 \<Longrightarrow> (192 + x) mod 32 = x" "x < 16 \<Longrightarrow> (224 + x) mod 16 = x" "x < 8 \<Longrightarrow> (240 + x) mod 8 = x"
  "x < 64 \<Longrightarrow> (128 + x) mod 64 = x" for x :: nat
  using mod_add_left_eq [of 192 32 x] mod_add_left_eq [of 224 16 x] mod_add_left_eq [of 240 8 x]
    mod_add_left_eq [of 128 64 x]
  by simp_all

text \<open>A character of one, two, three or four bytes is put out with its last byte.\<close>

lemma run1: "n < 128 \<Longrightarrow> u8_run [byte n] u8_start = (u8_start, [n])"
  by (simp add: u8_step_def u8_lead_def Let_def)

lemma lead2: "2 \<le> x \<Longrightarrow> x < 32 \<Longrightarrow> u8_step (byte (192 + x)) u8_start = (u8_start\<lparr>u8_needed := 1, u8_point := x\<rparr>, [])"
  by (simp add: u8_step_def u8_lead_def unat_low_bits Let_def)

lemma lead3: "x < 16 \<Longrightarrow> u8_step (byte (224 + x)) u8_start =
    (u8_start\<lparr>u8_needed := 2, u8_point := x, u8_lower := (if x = 0 then 160 else 128),
       u8_upper := (if x = 13 then 159 else 191)\<rparr>, [])"
  by (simp add: u8_step_def u8_lead_def unat_low_bits Let_def)

lemma lead4: "x < 5 \<Longrightarrow> u8_step (byte (240 + x)) u8_start =
    (u8_start\<lparr>u8_needed := 3, u8_point := x, u8_lower := (if x = 0 then 144 else 128),
       u8_upper := (if x = 4 then 143 else 191)\<rparr>, [])"
  by (simp add: u8_step_def u8_lead_def unat_low_bits Let_def)

lemma continue_char:
  assumes "u8_needed s \<noteq> 0" and "e < 64" and "u8_lower s \<le> 128 + e" and "128 + e \<le> u8_upper s"
  shows "u8_step (byte (128 + e)) s =
    (if u8_seen s + 1 = u8_needed s then (u8_start, [u8_point s * 64 + e])
     else (s\<lparr>u8_point := u8_point s * 64 + e, u8_seen := u8_seen s + 1, u8_lower := 128, u8_upper := 191\<rparr>, []))"
proof -
  have "unat (byte (128 + e) AND 63) = e" using assms(2) by (simp add: unat_low_bits)
  then show ?thesis using assms by (simp add: u8_step_def Let_def)
qed

lemma run2:
  assumes "2 \<le> x" "x < 32" "e < 64"
  shows "u8_run [byte (192 + x), byte (128 + e)] u8_start = (u8_start, [x * 64 + e])"
  using assms by (simp add: lead2 continue_char)

lemma run3:
  assumes "x < 16" "d < 64" "e < 64" "x = 0 \<longrightarrow> 32 \<le> d" "x = 13 \<longrightarrow> d \<le> 31"
  shows "u8_run [byte (224 + x), byte (128 + d), byte (128 + e)] u8_start =
    (u8_start, [(x * 64 + d) * 64 + e])"
  using assms by (simp add: lead3 continue_char)

lemma run4:
  assumes "x < 5" "f < 64" "d < 64" "e < 64" "x = 0 \<longrightarrow> 16 \<le> f" "x = 4 \<longrightarrow> f \<le> 15"
  shows "u8_run [byte (240 + x), byte (128 + f), byte (128 + d), byte (128 + e)] u8_start =
    (u8_start, [((x * 64 + f) * 64 + d) * 64 + e])"
  using assms by (simp add: lead4 continue_char)

lemma char_decoded:
  assumes "scalar c"
  shows "u8_run (utf8_char c) u8_start = (u8_start, [c])"
proof -
  define e d f z where "e = c mod 64" and "d = c div 64 mod 64" and "f = c div 4096 mod 64" and "z = c div 262144"
  define y where "y = c div 4096"
  have yz: "y = z * 64 + f" unfolding y_def z_def f_def using div_mult2_eq [of c 4096 64] by simp
  have "c = (y * 64 + d) * 64 + e"
    unfolding y_def d_def e_def using div_mult2_eq [of c 64 64] by simp
  then have cy: "c = 4096 * y + 64 * d + e" by simp
  have lt: "e < 64" "d < 64" "f < 64" by (simp_all add: e_def d_def f_def)
  have c: "c < 1114112" "\<not> (55296 \<le> c \<and> c \<le> 57343)" using assms by (simp_all add: scalar_def)
  consider "c < 128" | "128 \<le> c" "c < 2048" | "2048 \<le> c" "c < 65536" | "65536 \<le> c" by linarith
  then show ?thesis
  proof cases
    case 1
    then show ?thesis using run1 by (simp add: utf8_char_def)
  next
    case 2
    then have "y < 1" using cy by linarith
    then have "y = 0" by simp
    then have "c div 64 = d" "c = d * 64 + e" using cy lt(1) by simp_all
    moreover from this 2 lt have "2 \<le> d" "d < 32" by linarith+
    ultimately show ?thesis using run2 [of d e] lt 2 by (simp add: utf8_char_def e_def [symmetric])
  next
    case 3
    then have "y < 16" "y = 0 \<longrightarrow> 32 \<le> d" using cy lt by linarith+
    moreover have "y = 13 \<longrightarrow> d \<le> 31" using cy c(2) lt by linarith
    ultimately have "u8_run [byte (224 + y), byte (128 + d), byte (128 + e)] u8_start = (u8_start, [c])"
      using run3 [of y d e] lt cy by simp
    moreover have "utf8_char c = [byte (224 + y), byte (128 + d), byte (128 + e)]"
      using 3 by (simp add: utf8_char_def e_def d_def y_def)
    ultimately show ?thesis by simp
  next
    case 4
    then have "z < 5" "z = 0 \<longrightarrow> 16 \<le> f" "z = 4 \<longrightarrow> f \<le> 15" using cy yz c(1) lt by linarith+
    then have "u8_run [byte (240 + z), byte (128 + f), byte (128 + d), byte (128 + e)] u8_start = (u8_start, [c])"
      using run4 [of z f d e] lt cy yz by simp
    moreover have "utf8_char c = [byte (240 + z), byte (128 + f), byte (128 + d), byte (128 + e)]"
      using 4 by (simp add: utf8_char_def e_def d_def f_def z_def)
    ultimately show ?thesis by simp
  qed
qed

lemma text_decoded: "list_all scalar cs \<Longrightarrow> u8_run (utf8 cs) u8_start = (u8_start, cs)"
  by (induction cs) (simp_all add: utf8_def u8_run_append char_decoded)

lemma decode_text:
  assumes "list_all scalar cs" and "take 1 cs \<noteq> [byte_order_mark]"
  shows "snd (decode (utf8 cs) new_TextDecoder) = utf16 cs"
proof -
  have "drop_mark False cs = cs" using assms(2) by (cases cs) (simp_all add: drop_mark_def)
  then show ?thesis by (simp add: decode_def new_TextDecoder_def text_decoded [OF assms(1)])
qed

lemma ascii_text: "list_all (\<lambda>c. c < 128) cs \<Longrightarrow> utf16 cs = cs \<and> list_all scalar cs"
  by (induction cs) (simp_all add: utf16_def code_units_def scalar_def)

lemma frame_literals:
  "list_all (\<lambda>c. c < 128) (js ''event: '')" "list_all (\<lambda>c. c < 128) (js ''data: '')"
  by (simp_all add: js_Cons)

lemma newline_text: "c_nl \<in> set (utf16 cs) \<longleftrightarrow> c_nl \<in> set cs"
  by (induction cs) (auto simp: utf16_def code_units_def)

text \<open>
  A frame of \<open>sendSSE\<close> is written as text; on the wire it is its bytes. \<open>wire_message\<close> is what the
  server sends: an event name and a JSON text without a newline, in Unicode.
\<close>

definition wire_message :: "nat list \<times> nat list \<Rightarrow> bool" where
  "wire_message m \<longleftrightarrow> list_all scalar (fst m) \<and> list_all scalar (snd m) \<and> sendable (map_prod utf16 utf16 m)"

definition wire_bytes :: "(nat list \<times> nat list) list \<Rightarrow> byte list" where
  "wire_bytes ms = utf8 (concat (map (\<lambda>m. sendSSE (fst m) (snd m)) ms))"

lemma frame_text: "utf16 (sendSSE e b) = sendSSE (utf16 e) (utf16 b)"
  using frame_literals [THEN ascii_text] by (simp add: sendSSE_def utf16_def code_units_def)

lemma frames_text:
  "utf16 (concat (map (\<lambda>m. sendSSE (fst m) (snd m)) ms)) =
     concat (map (\<lambda>m. sendSSE (fst m) (snd m)) (map (map_prod utf16 utf16) ms))"
  by (induction ms) (simp_all add: frame_text)

lemma frames_scalar:
  "list_all wire_message ms \<Longrightarrow> list_all scalar (concat (map (\<lambda>m. sendSSE (fst m) (snd m)) ms))"
  using frame_literals [THEN ascii_text]
  by (induction ms) (simp_all add: sendSSE_def wire_message_def scalar_def)

lemma frames_no_mark: "take 1 (concat (map (\<lambda>m. sendSSE (fst m) (snd m)) ms)) \<noteq> [byte_order_mark]"
  by (cases ms) (simp_all add: sendSSE_def js_Cons)

lemma decoded_loop:
  fixes hs :: "('j, 'w, 'e) StreamHandlers"
  shows "stream_loop pj hs (decoded (map Bytes cs) td) [] w =
    (None, fold (handle_frame pj hs) (fst (drain (snd (decode (concat cs) td)))) w)"
proof -
  obtain ts where ts: "(decoded (map Bytes cs) td :: 'e read_result list) = map Chunk ts"
      "concat ts = snd (decode (concat cs) td)"
    using decoded_chunks [of cs td] by blast
  show ?thesis using stream_loop_chunks [of "[]" pj hs ts w] ts(2) by (simp add: ts(1))
qed

lemma wire_delivered:
  assumes "list_all wire_message ms" and "concat cs = wire_bytes ms"
  shows "stream_loop pj hs (decoded (map Bytes cs) new_TextDecoder) [] w =
    (None, fold (deliver pj hs) (map (map_prod utf16 utf16) ms) w)"
proof -
  let ?ms = "map (map_prod utf16 utf16) ms"
  have sent: "list_all sendable ?ms" using assms(1) by (simp add: list_all_iff wire_message_def)
  have "snd (decode (concat cs) new_TextDecoder) = concat (map (\<lambda>m. sendSSE (fst m) (snd m)) ?ms)"
    unfolding assms(2) wire_bytes_def decode_text [OF frames_scalar [OF assms(1)] frames_no_mark] by (rule frames_text)
  then show ?thesis
    unfolding decoded_loop by (simp only: drain_framing [OF framing_sent [OF sent]] fold_handle_sent [OF sent] fst_conv)
qed

subsection \<open>The text is well-formed\<close>

definition high_surrogate :: "nat \<Rightarrow> bool" where
  "high_surrogate u \<longleftrightarrow> 55296 \<le> u \<and> u \<le> 56319"

definition low_surrogate :: "nat \<Rightarrow> bool" where
  "low_surrogate u \<longleftrightarrow> 56320 \<le> u \<and> u \<le> 57343"

text \<open>Code units of 16 bits in which every surrogate is one of a pair.\<close>

fun well_formed :: "jstr \<Rightarrow> bool" where
  "well_formed [] = True"
| "well_formed (u # us) =
     (if high_surrogate u then (case us of v # vs \<Rightarrow> low_surrogate v \<and> well_formed vs | [] \<Rightarrow> False)
      else \<not> low_surrogate u \<and> u < 65536 \<and> well_formed us)"

lemma pair_surrogates:
  assumes "65536 \<le> c" and "c < 1114112"
  shows "high_surrogate (55296 + (c - 65536) div 1024)" "low_surrogate (56320 + (c - 65536) mod 1024)"
proof -
  have "(c - 65536) div 1024 < 1024" using assms(2) by (simp add: less_mult_imp_div_less)
  then show "high_surrogate (55296 + (c - 65536) div 1024)" by (simp add: high_surrogate_def)
  have "(c - 65536) mod 1024 < 1024" by simp
  then show "low_surrogate (56320 + (c - 65536) mod 1024)" unfolding low_surrogate_def by linarith
qed

lemma utf16_well_formed: "list_all scalar cs \<Longrightarrow> well_formed (utf16 cs)"
proof (induction cs)
  case (Cons c cs)
  then have c: "c < 1114112" "\<not> (55296 \<le> c \<and> c \<le> 57343)" and cs: "well_formed (utf16 cs)"
    by (simp_all add: scalar_def)
  have cons: "utf16 (c # cs) = code_units c @ utf16 cs" by (simp add: utf16_def)
  show ?case
  proof (cases "c < 65536")
    case True
    then show ?thesis
      using c cs by (auto simp: cons code_units_def high_surrogate_def low_surrogate_def)
  next
    case False
    then show ?thesis using pair_surrogates [of c] c(1) cs by (simp add: cons code_units_def)
  qed
qed simp

text \<open>
  The invariant of the decoder: \<open>k\<close> more bytes, the first within the bounds, complete the point to
  a scalar value.
\<close>

fun completes :: "nat \<Rightarrow> nat \<Rightarrow> nat \<Rightarrow> nat \<Rightarrow> bool" where
  "completes 0 p lo hi = scalar p"
| "completes (Suc k) p lo hi = (\<forall>e. lo \<le> 128 + e \<and> 128 + e \<le> hi \<longrightarrow> completes k (p * 64 + e) 128 191)"

definition u8_ok :: "utf8_state \<Rightarrow> bool" where
  "u8_ok s \<longleftrightarrow> u8_needed s = 0 \<or>
     (u8_seen s < u8_needed s \<and> 128 \<le> u8_lower s \<and> u8_upper s \<le> 191 \<and>
      completes (u8_needed s - u8_seen s) (u8_point s) (u8_lower s) (u8_upper s))"

lemma completes_lead1: "x < 32 \<Longrightarrow> completes (Suc 0) x 128 191"
  by (auto simp: scalar_def)

lemma completes_lead2:
  assumes "x < 16"
  shows "completes (Suc (Suc 0)) x (if x = 0 then 160 else 128) (if x = 13 then 159 else 191)"
proof -
  have "scalar ((x * 64 + d) * 64 + e)" if de: "d \<le> 63" "e \<le> 63" "x = 13 \<longrightarrow> d \<le> 31" for d e
  proof -
    consider "x \<le> 12" | "x = 13" "d \<le> 31" | "14 \<le> x" using de(3) by linarith
    then show ?thesis using de(1,2) assms by cases (simp_all add: scalar_def)
  qed
  then show ?thesis by auto
qed

lemma completes_lead3:
  assumes "x \<le> 4"
  shows "completes (Suc (Suc (Suc 0))) x (if x = 0 then 144 else 128) (if x = 4 then 143 else 191)"
proof -
  have "scalar (((x * 64 + f) * 64 + d) * 64 + e)"
    if fde: "f \<le> 63" "d \<le> 63" "e \<le> 63" "x = 0 \<longrightarrow> 16 \<le> f" "x = 4 \<longrightarrow> f \<le> 15" for f d e
  proof -
    consider "x = 0" "16 \<le> f" | "1 \<le> x" "x \<le> 3" | "x = 4" "f \<le> 15" using fde(4,5) assms by linarith
    then show ?thesis using fde(1,2,3) by cases (simp_all add: scalar_def)
  qed
  then show ?thesis by auto
qed

lemma lead_ok: "u8_ok (fst (u8_lead b)) \<and> list_all scalar (snd (u8_lead b))"
proof -
  let ?n = "unat b"
  consider "?n \<le> 127" | "194 \<le> ?n" "?n \<le> 223" | "224 \<le> ?n" "?n \<le> 239" | "240 \<le> ?n" "?n \<le> 244"
    | "\<not> ?n \<le> 127" "\<not> (194 \<le> ?n \<and> ?n \<le> 223)" "\<not> (224 \<le> ?n \<and> ?n \<le> 239)" "\<not> (240 \<le> ?n \<and> ?n \<le> 244)"
    by blast
  then show ?thesis
  proof cases
    case 2
    then show ?thesis
      using completes_lead1 [of "?n mod 32"] by (simp add: u8_lead_def u8_ok_def unat_low_bits Let_def)
  next
    case 3
    define x where "x = ?n - 224"
    have x: "?n = 224 + x" "x < 16" using 3 by (simp_all add: x_def)
    have two: "2 = Suc (Suc 0)" by simp
    show ?thesis
      using completes_lead2 [OF x(2)] x by (simp add: u8_lead_def u8_ok_def unat_low_bits Let_def two)
  next
    case 4
    define x where "x = ?n - 240"
    have x: "?n = 240 + x" "x \<le> 4" using 4 by (simp_all add: x_def)
    have three: "3 = Suc (Suc (Suc 0))" by simp
    show ?thesis
      using completes_lead3 [OF x(2)] x by (simp add: u8_lead_def u8_ok_def unat_low_bits Let_def three)
  next
    case 5
    then have "u8_lead b = (u8_start, [replacement])" by (auto simp: u8_lead_def Let_def)
    then show ?thesis by (simp add: u8_ok_def scalar_def)
  qed (simp_all add: u8_lead_def u8_ok_def scalar_def Let_def)
qed

lemma step_ok:
  assumes "u8_ok s"
  shows "u8_ok (fst (u8_step b s)) \<and> list_all scalar (snd (u8_step b s))"
proof (cases "u8_needed s = 0 \<or> unat b < u8_lower s \<or> u8_upper s < unat b")
  case True
  then show ?thesis using lead_ok [of b] by (auto simp: u8_step_def scalar_def split_def Let_def)
next
  case False
  then have s: "u8_seen s < u8_needed s" "128 \<le> u8_lower s" "u8_upper s \<le> 191"
    "completes (u8_needed s - u8_seen s) (u8_point s) (u8_lower s) (u8_upper s)"
    using assms by (simp_all add: u8_ok_def)
  define e where "e = unat b - 128"
  have e: "unat b = 128 + e" "e < 64" using False s by (auto simp: e_def)
  obtain k where k: "u8_needed s - u8_seen s = Suc k" using s(1) by (metis Suc_diff_Suc)
  have "completes k (u8_point s * 64 + e) 128 191" using s(4) k False e by simp
  moreover have "u8_needed s - Suc (u8_seen s) = k" "Suc (u8_seen s) = u8_needed s \<longleftrightarrow> k = 0"
    "Suc (u8_seen s) < u8_needed s \<longleftrightarrow> k \<noteq> 0" using k by arith+
  ultimately show ?thesis
    using False e by (cases "k = 0") (simp_all add: u8_step_def u8_ok_def unat_low_bits Let_def)
qed

lemma run_ok: "u8_ok s \<Longrightarrow> u8_ok (fst (u8_run bs s)) \<and> list_all scalar (snd (u8_run bs s))"
  by (induction bs arbitrary: s) (simp_all add: Let_def split_def step_ok)

lemma drop_mark_scalar: "list_all scalar cs \<Longrightarrow> list_all scalar (drop_mark m cs)"
  by (cases cs) (simp_all add: drop_mark_def)

lemma decode_ok:
  assumes "u8_ok (td_state td)"
  shows "u8_ok (td_state (fst (decode bs td))) \<and> well_formed (snd (decode bs td))"
  using run_ok [OF assms, of bs] utf16_well_formed drop_mark_scalar
  by (simp add: decode_def split_def Let_def)

lemma decoded_well_formed:
  "u8_ok (td_state td) \<Longrightarrow>
    \<exists>ts. (decoded (map Bytes cs) td :: 'e read_result list) = map Chunk ts \<and> list_all well_formed ts"
proof (induction cs arbitrary: td)
  case (Cons c cs)
  obtain td1 x where d: "decode c td = (td1, x)" by fastforce
  then have "u8_ok (td_state td1)" "well_formed x" using decode_ok [OF Cons.prems, of c] by simp_all
  with Cons.IH [of td1] obtain ts where
    "(decoded (map Bytes cs) td1 :: 'e read_result list) = map Chunk ts" "list_all well_formed ts" by blast
  with \<open>well_formed x\<close> have "(decoded (map Bytes (c # cs)) td :: 'e read_result list) = map Chunk (x # ts)
      \<and> list_all well_formed (x # ts)" by (simp add: d)
  then show ?case by blast
qed simp

subsection \<open>Properties\<close>

text \<open>
  C8: How the network cuts the bytes of the stream does not matter, also when a cut falls within a
  character or the bytes are not well-formed: two ways to cut the same bytes run the same handlers on
  the same frames in the same order, which are the frames of the text that the bytes decode to at once.
\<close>

theorem byte_chunking_irrelevant:
  assumes "concat cs = concat ds" and "wire_ok r" and "wire_body r = Some (map Bytes cs)"
  shows "streamChat_bytes mk_error pj (Inr r) hs w =
      streamChat_bytes mk_error pj (Inr (r\<lparr>wire_body := Some (map Bytes ds)\<rparr>)) hs w \<and>
    streamChat_bytes mk_error pj (Inr r) hs w =
      (None, fold (handle_frame pj hs) (fst (drain (snd (decode (concat cs) new_TextDecoder)))) w)"
  using assms by (simp add: streamChat_bytes_def streamChat_def received_def decoded_loop)

definition sample_wire :: "byte list list \<Rightarrow> jstr wire_response" where
  "sample_wire cs = \<lparr>wire_ok = True, wire_status = 200, wire_statusText = [], wire_body = Some (map Bytes cs)\<rparr>"

theorem byte_chunking_irrelevant_witness:
  "streamChat_bytes (\<lambda>m. m) Some (Inr (sample_wire [[100, 195], [165, 10, 10]])) counting_handlers 0 =
     streamChat_bytes (\<lambda>m. m) Some (Inr (sample_wire [[100, 195, 165], [10, 10]])) counting_handlers 0"
  using byte_chunking_irrelevant [where cs = "[[100, 195], [165, 10, 10]]" and ds = "[[100, 195, 165], [10, 10]]"
      and r = "sample_wire [[100, 195], [165, 10, 10]]" and pj = Some and hs = counting_handlers and w = 0]
  by (simp add: sample_wire_def)

text \<open>
  C9: Every event that the server sends arrives: when the bytes of the response are the messages of
  \<open>sendSSE\<close> in UTF-8, cut anywhere, \<open>streamChat\<close> calls the handler of each message once, in order,
  with the parsed data, whatever characters the data has, skips those that are not JSON, and returns
  without an error.
\<close>

theorem server_bytes_delivered:
  assumes "list_all wire_message ms" and "concat cs = wire_bytes ms"
    and "wire_ok r" and "wire_body r = Some (map Bytes cs)"
  shows "streamChat_bytes mk_error pj (Inr r) hs w = (None, fold (deliver pj hs) (map (map_prod utf16 utf16) ms) w)"
  using wire_delivered [OF assms(1,2)] assms(3,4) by (simp add: streamChat_bytes_def streamChat_def received_def)

text \<open>The sample is a letter with a ring and a smiling face, in two and four bytes.\<close>

definition sample_message :: "nat list \<times> nat list" where
  "sample_message = (js ''end'', [229, 128512])"

lemma sample_bytes: "utf8 [229, 128512] = [195, 165, 240, 159, 152, 128]"
  by (simp add: utf8_def utf8_char_def byte_def)

theorem server_bytes_delivered_witness:
  "streamChat_bytes (\<lambda>m. m) Some
     (Inr (sample_wire [take 9 (wire_bytes [sample_message]), drop 9 (wire_bytes [sample_message])])) counting_handlers 0 = (None, 3)"
proof -
  have "list_all wire_message [sample_message]"
    by (simp add: wire_message_def sample_message_def scalar_def sendable_def utf16_def code_units_def js_Cons
        trim_def is_ws_def)
  from server_bytes_delivered [OF this, where cs = "[take 9 (wire_bytes [sample_message]), drop 9 (wire_bytes [sample_message])]"
      and r = "sample_wire [take 9 (wire_bytes [sample_message]), drop 9 (wire_bytes [sample_message])]"
      and pj = Some and hs = counting_handlers and w = 0]
  show ?thesis
    by (simp add: sample_wire_def sample_message_def deliver_def dispatch_event_def call_opt_def counting_handlers_def
        utf16_def code_units_def js_Cons)
qed


end
