(* ===== verification/BackupsPanel.thy ===== *)
theory BackupsPanel
  imports MaintenanceView "HOL-Library.Multiset"
begin

text \<open>
  The panel of web/src/components/BackupsSection.tsx in use: the controls that it renders, with the
  requests that are under way and their replies in any order, from its mounting (the panel is mounted
  anew whenever the settings are opened).
\<close>

subsection \<open>Requests under way\<close>

datatype bk_request =
    RefreshAll                      \<comment> \<open>the effect on mount\<close>
  | TakeReq | TakeRefresh
  | DeleteReq jstr | DeleteRefresh
  | PatchReq bk_patch

type_synonym panel = "backups_ui \<times> bk_request multiset"

fun requested :: "backup_call option \<Rightarrow> bk_request multiset" where
  "requested None = {#}"
| "requested (Some CallTake) = {#TakeReq#}"
| "requested (Some (CallDelete file)) = {#DeleteReq file#}"
| "requested (Some (CallPatch p)) = {#PatchReq p#}"

definition panel_start :: panel where
  "panel_start = (backups_init, {#RefreshAll#})"

inductive panel_reply :: "panel \<Rightarrow> panel \<Rightarrow> bool" where
  pn_loaded: "RefreshAll \<in># P \<Longrightarrow> panel_reply (s, P) (bk_refresh reply s, P - {#RefreshAll#})"
| pn_taken: "TakeReq \<in># P \<Longrightarrow> taken reply s = (again, s') \<Longrightarrow>
    panel_reply (s, P) (s', P - {#TakeReq#} + (if again then {#TakeRefresh#} else {#}))"
| pn_take_refreshed: "TakeRefresh \<in># P \<Longrightarrow> panel_reply (s, P) (take_refreshed reply s, P - {#TakeRefresh#})"
| pn_deleted: "DeleteReq file \<in># P \<Longrightarrow> bk_deleted reply s = (again, s') \<Longrightarrow>
    panel_reply (s, P) (s', P - {#DeleteReq file#} + (if again then {#DeleteRefresh#} else {#}))"
| pn_delete_refreshed: "DeleteRefresh \<in># P \<Longrightarrow> panel_reply (s, P) (bk_refresh reply s, P - {#DeleteRefresh#})"
| pn_patched: "PatchReq p \<in># P \<Longrightarrow> panel_reply (s, P) (bk_patched reply s, P - {#PatchReq p#})"

inductive panel_step :: "panel \<Rightarrow> panel \<Rightarrow> bool" where
  pn_input: "e \<in> fires i (backups_view shown_time s) \<Longrightarrow> backups_act e s = (c, s') \<Longrightarrow>
    panel_step (s, P) (s', P + requested c)"
| pn_reply: "panel_reply p p' \<Longrightarrow> panel_step p p'"

inductive panel_reachable :: "panel \<Rightarrow> bool" where
  pn_start: "panel_reachable panel_start"
| pn_more: "panel_reachable p \<Longrightarrow> panel_step p p' \<Longrightarrow> panel_reachable p'"

inductive_cases panel_reply_cases: "panel_reply (s, P) p'"
inductive_cases panel_step_cases: "panel_step (s, P) p'"

subsection \<open>The invariant\<close>

text \<open>The requests after which the buttons are released.\<close>

fun occupies :: "bk_request \<Rightarrow> bool" where
  "occupies TakeReq = True"
| "occupies TakeRefresh = True"
| "occupies (PatchReq p) = True"
| "occupies RefreshAll = False"
| "occupies (DeleteReq f) = False"
| "occupies DeleteRefresh = False"

definition panel_inv :: "panel \<Rightarrow> bool" where
  "panel_inv p \<longleftrightarrow>
     (bk_busy (fst p) \<noteq> BkIdle \<longrightarrow> (\<exists>r \<in># snd p. occupies r)) \<and>
     (bk_cfg (fst p) = None \<longrightarrow>
        bk_list (fst p) = None \<and> (snd p = {#RefreshAll#} \<or> snd p = {#} \<and> bk_error (fst p) \<noteq> None))"

lemmas backups_handlers = bk_refresh_def taken_def take_refreshed_def bk_deleted_def bk_patched_def onTake_def
  onDelete_def onToggleNightly_def onChangeKeep_def

lemma occupied_other:
  assumes "\<exists>r \<in># P. occupies r" and q: "\<not> occupies q"
  shows "\<exists>r \<in># P - {#q#}. occupies r"
  using assms(1)
proof (elim bexE)
  fix r assume r: "r \<in># P" "occupies r"
  with q have "r \<noteq> q" by blast
  with r(1) have "r \<in># P - {#q#}" by (simp add: in_diff_count)
  with r(2) show "\<exists>r \<in># P - {#q#}. occupies r" by blast
qed

lemma panel_inv_shown:
  "panel_inv (s, P) \<Longrightarrow> r \<in># P \<Longrightarrow> r \<noteq> RefreshAll \<Longrightarrow> bk_cfg s \<noteq> None"
  by (auto simp: panel_inv_def)

lemma panel_inv_idle: "bk_busy s = BkIdle \<Longrightarrow> bk_cfg s \<noteq> None \<Longrightarrow> panel_inv (s, P)"
  by (auto simp: panel_inv_def)

lemma panel_inv_busy: "bk_cfg s \<noteq> None \<Longrightarrow> panel_inv (s, P) = (bk_busy s \<noteq> BkIdle \<longrightarrow> (\<exists>r \<in># P. occupies r))"
  by (auto simp: panel_inv_def)

lemma refresh_shown:
  "bk_cfg s \<noteq> None \<Longrightarrow> bk_cfg (bk_refresh reply s) \<noteq> None" "bk_busy (bk_refresh reply s) = bk_busy s"
  by (auto simp: bk_refresh_def split: sum.split)

text \<open>A refresh of the mount effect or after a deletion.\<close>

lemma refresh_inv:
  assumes "panel_inv (s, P)" and "q \<in># P" and "\<not> occupies q"
  shows "panel_inv (bk_refresh reply s, P - {#q#})"
proof (cases "bk_cfg s")
  case None
  with assms(1,2) have "P = {#RefreshAll#}" "q = RefreshAll" "bk_busy s = BkIdle" "bk_list s = None"
    by (auto simp: panel_inv_def)
  then show ?thesis using None by (auto simp: panel_inv_def bk_refresh_def split: sum.split)
next
  case (Some c)
  then have "bk_cfg (bk_refresh reply s) \<noteq> None" by (simp add: refresh_shown)
  moreover have "bk_busy s \<noteq> BkIdle \<Longrightarrow> \<exists>r \<in># P - {#q#}. occupies r"
    using assms by (simp add: panel_inv_def occupied_other)
  ultimately show ?thesis by (simp add: panel_inv_busy refresh_shown(2))
qed

lemma panel_reply_inv: "panel_reply p p' \<Longrightarrow> panel_inv p \<Longrightarrow> panel_inv p'"
proof (induction rule: panel_reply.induct)
  case (pn_taken P reply s again s')
  from panel_inv_shown [OF pn_taken.prems pn_taken.hyps(1)] have "bk_cfg s \<noteq> None" by simp
  with pn_taken.hyps(2) show ?case by (auto simp: panel_inv_def taken_def split: sum.splits)
next
  case (pn_take_refreshed P s reply)
  from panel_inv_shown [OF pn_take_refreshed.prems pn_take_refreshed.hyps] have "bk_cfg s \<noteq> None" by simp
  then show ?case by (intro panel_inv_idle) (auto simp: take_refreshed_def bk_refresh_def split: sum.split)
next
  case (pn_deleted name P reply s again s')
  from panel_inv_shown [OF pn_deleted.prems pn_deleted.hyps(1)] have shown: "bk_cfg s \<noteq> None" by simp
  have s': "bk_cfg s' = bk_cfg s" "bk_busy s' = bk_busy s"
    using pn_deleted.hyps(2) by (auto simp: bk_deleted_def split: sum.splits)
  have "\<exists>r \<in># P - {#DeleteReq name#}. occupies r" if "bk_busy s \<noteq> BkIdle"
    using pn_deleted.prems that by (simp add: panel_inv_def occupied_other)
  then show ?case using shown by (auto simp: panel_inv_busy s')
next
  case (pn_patched p P s reply)
  from panel_inv_shown [OF pn_patched.prems pn_patched.hyps] have "bk_cfg s \<noteq> None" by simp
  then show ?case by (intro panel_inv_idle) (auto simp: bk_patched_def split: sum.split)
qed (simp_all add: refresh_inv)

lemma panel_input_inv:
  assumes "e \<in> fires i (backups_view shown_time s)" and "backups_act e s = (c, s')" and "panel_inv (s, P)"
  shows "panel_inv (s', P + requested c)"
proof -
  have "bk_cfg s \<noteq> None" using assms(1,3) by (auto simp: backups_fires panel_inv_def nullish_def split: option.splits if_splits)
  then show ?thesis
    using assms(2,3) by (cases e) (auto simp: panel_inv_def backups_handlers split: option.splits if_splits)
qed

lemma panel_reachable_inv: "panel_reachable p \<Longrightarrow> panel_inv p"
proof (induction rule: panel_reachable.induct)
  case pn_start
  show ?case by (simp add: panel_inv_def panel_start_def backups_init_def)
next
  case (pn_more p p')
  from pn_more.hyps(2) pn_more.IH show ?case
    by (cases rule: panel_step.cases) (auto intro: panel_input_inv panel_reply_inv)
qed

lemma panel_replies_reachable: "panel_reply\<^sup>*\<^sup>* p p' \<Longrightarrow> panel_reachable p \<Longrightarrow> panel_reachable p'"
  by (induction rule: rtranclp_induct) (blast intro: pn_more pn_reply)+

subsection \<open>The replies come to an end\<close>

fun replies_due :: "bk_request \<Rightarrow> nat" where
  "replies_due TakeReq = 2"
| "replies_due (DeleteReq f) = 2"
| "replies_due _ = 1"

definition panel_due :: "panel \<Rightarrow> nat" where
  "panel_due p = (\<Sum>r \<in># snd p. replies_due r)"

lemma due_take_away: "r \<in># P \<Longrightarrow> (\<Sum>x \<in># P. replies_due x) = replies_due r + (\<Sum>x \<in># P - {#r#}. replies_due x)"
  by (metis image_mset_add_mset insert_DiffM sum_mset.insert)

lemma panel_due_falls: "panel_reply p p' \<Longrightarrow> panel_due p' < panel_due p"
  by (induction rule: panel_reply.induct) (simp_all add: panel_due_def due_take_away)

lemma panel_replies_end: "wfp (panel_reply\<inverse>\<inverse>)"
  by (rule wfp_if_convertible_to_nat [of _ panel_due]) (auto dest: panel_due_falls)

lemma every_request_answered: "r \<in># P \<Longrightarrow> \<exists>p'. panel_reply (s, P) p'"
  by (cases r) (blast intro: panel_reply.intros prod.collapse [symmetric])+

lemma panel_quiet_empty: "(\<forall>p'. \<not> panel_reply (s, P) p') \<Longrightarrow> P = {#}"
  using every_request_answered by (metis multiset_nonemptyE)

subsection \<open>Overlapping requests\<close>

text \<open>
  The controls of the configuration are not disabled while a backup is being taken, and the reply
  to their request releases the buttons: a second backup can be taken during the first.
\<close>

definition sample_config :: BackupConfig where
  "sample_config = \<lparr>nightly_enabled = True, nightly_keep = 7, can_write = True\<rparr>"

definition loaded_panel :: backups_ui where
  "loaded_panel = bk_refresh (Inr ([], sample_config)) backups_init"

lemma loaded_panel_reachable: "panel_reachable (loaded_panel, {#})"
proof -
  have "panel_reply (backups_init, {#RefreshAll#}) (loaded_panel, {#RefreshAll#} - {#RefreshAll#})"
    unfolding loaded_panel_def by (rule pn_loaded) simp
  from pn_more [OF pn_start [unfolded panel_start_def] pn_reply [OF this]] show ?thesis by simp
qed

lemma input_reachable:
  "panel_reachable (s, P) \<Longrightarrow> e \<in> fires i (backups_view shown_time s) \<Longrightarrow>
    s' = snd (backups_act e s) \<Longrightarrow> P' = P + requested (fst (backups_act e s)) \<Longrightarrow> panel_reachable (s', P')"
  by (simp add: pn_more [OF _ pn_input])

lemma loaded_fields:
  "bk_cfg loaded_panel = Some sample_config" "bk_busy loaded_panel = BkIdle" "bk_list loaded_panel = Some []"
  "can_write sample_config" "nightly_enabled sample_config"
  by (simp_all add: loaded_panel_def sample_config_def backups_init_def bk_refresh_def)

lemma overlapping_backups:
  "\<exists>s P. panel_reachable (s, P) \<and> count P TakeReq = 2"
proof -
  let ?s1 = "onTake loaded_panel"
  let ?s2 = "snd (onToggleNightly False ?s1)"
  let ?s3 = "bk_patched (Inr sample_config) ?s2"
  let ?p = "PatchReq (PatchEnabled False)"
  have "panel_reachable (?s1, {#TakeReq#})"
    by (rule input_reachable [OF loaded_panel_reachable, of BeTake Click]) (simp_all add: backups_fires backup_config_fires loaded_fields)
  then have "panel_reachable (?s2, {#TakeReq, ?p#})"
    by (rule input_reachable [of _ _ "BeNightly False" Click])
      (simp_all add: backups_fires backup_config_fires onTake_def onToggleNightly_def loaded_fields)
  moreover have "panel_reply (?s2, {#TakeReq, ?p#}) (?s3, {#TakeReq, ?p#} - {#?p#})" by (rule pn_patched) simp
  ultimately have "panel_reachable (?s3, {#TakeReq#})" using pn_more pn_reply by fastforce
  then have "panel_reachable (onTake ?s3, {#TakeReq, TakeReq#})"
    by (rule input_reachable [of _ _ BeTake Click])
      (simp_all add: backups_fires backup_config_fires bk_patched_def loaded_fields)
  then show ?thesis by (rule_tac exI)+ (auto intro: conjI)
qed

text \<open>
  As long as the configuration is left alone while a backup is being taken, at most one of these
  requests is under way, and the buttons are busy exactly then.
\<close>

inductive panel_calm :: "panel \<Rightarrow> bool" where
  calm_start: "panel_calm panel_start"
| calm_reply: "panel_calm p \<Longrightarrow> panel_reply p p' \<Longrightarrow> panel_calm p'"
| calm_input: "panel_calm (s, P) \<Longrightarrow> e \<in> fires i (backups_view shown_time s) \<Longrightarrow> backups_act e s = (c, s') \<Longrightarrow>
    bk_busy s = BkTaking \<longrightarrow> e = BeTake \<or> (\<exists>f. e = BeDelete f) \<Longrightarrow> panel_calm (s', P + requested c)"

definition one_request :: "panel \<Rightarrow> bool" where
  "one_request p \<longleftrightarrow> size (filter_mset occupies (snd p)) = (if bk_busy (fst p) = BkIdle then 0 else 1)"

lemma one_request_after:
  assumes "one_request (s, P)" and "q \<in># P" and "occupies q"
  shows "filter_mset occupies (P - {#q#}) = {#}"
proof -
  have "q \<in># filter_mset occupies P" using assms(2,3) by simp
  moreover from this have "size (filter_mset occupies P) = 1"
    using assms(1) by (auto simp: one_request_def split: if_splits)
  ultimately have "filter_mset occupies P = {#q#}" by (metis multi_member_split size_1_singleton_mset single_eq_add_mset One_nat_def)
  then show ?thesis by (simp add: assms(3))
qed

lemma one_request_other:
  "q \<in># P \<Longrightarrow> \<not> occupies q \<Longrightarrow> filter_mset occupies (P - {#q#}) = filter_mset occupies P"
  by simp

lemma one_request_reply: "panel_reply p p' \<Longrightarrow> one_request p \<Longrightarrow> one_request p'"
proof (induction rule: panel_reply.induct)
  case (pn_taken P reply s again s')
  from one_request_after [OF pn_taken.prems pn_taken.hyps(1)] have e: "filter_mset occupies (P - {#TakeReq#}) = {#}"
    by simp
  have "bk_busy s \<noteq> BkIdle" using pn_taken.prems pn_taken.hyps(1)
    by (auto simp: one_request_def split: if_splits)
  then show ?case using pn_taken.hyps(2) e by (auto simp: one_request_def taken_def split: sum.splits)
next
  case (pn_take_refreshed P s reply)
  from one_request_after [OF pn_take_refreshed.prems pn_take_refreshed.hyps] show ?case
    by (simp add: one_request_def take_refreshed_def)
next
  case (pn_patched p P s reply)
  from one_request_after [OF pn_patched.prems pn_patched.hyps] show ?case
    by (simp add: one_request_def bk_patched_def)
next
  case (pn_deleted name P reply s again s')
  have "bk_busy s' = bk_busy s" using pn_deleted.hyps(2) by (auto simp: bk_deleted_def split: sum.splits)
  then show ?case using pn_deleted.prems by (auto simp: one_request_def)
qed (simp_all add: one_request_def refresh_shown(2))

lemma panel_calm_one_request: "panel_calm p \<Longrightarrow> one_request p"
proof (induction rule: panel_calm.induct)
  case calm_start
  show ?case by (simp add: one_request_def panel_start_def backups_init_def)
next
  case (calm_input s P e i shown_time c s')
  show ?case
  proof (cases e)
    case (BeDelete f)
    then show ?thesis using calm_input.IH calm_input.hyps(3) by (auto simp: one_request_def onDelete_def)
  next
    case BeTake
    then have "bk_busy s = BkIdle" using calm_input.hyps(2)
      by (cases i) (auto simp: backups_fires backup_config_fires split: option.splits if_splits)
    then show ?thesis using BeTake calm_input.IH calm_input.hyps(3) by (auto simp: one_request_def onTake_def)
  next
    case (BeNightly b)
    then have "bk_busy s \<noteq> BkSaving" using calm_input.hyps(2)
      by (cases i) (auto simp: backups_fires backup_config_fires split: option.splits if_splits)
    then have "bk_busy s = BkIdle" using BeNightly calm_input.hyps(4) by (cases "bk_busy s") auto
    then show ?thesis using BeNightly calm_input.IH calm_input.hyps(3) by (auto simp: one_request_def onToggleNightly_def)
  next
    case (BeKeep v)
    then have "bk_busy s \<noteq> BkSaving" using calm_input.hyps(2)
      by (cases i) (auto simp: backups_fires backup_config_fires split: option.splits if_splits)
    then have "bk_busy s = BkIdle" using BeKeep calm_input.hyps(4) by (cases "bk_busy s") auto
    then show ?thesis using BeKeep calm_input.IH calm_input.hyps(3)
      by (auto simp: one_request_def onChangeKeep_def split: option.splits if_splits)
  qed
qed (rule one_request_reply)

subsection \<open>Properties\<close>

text \<open>
  C39: Whatever the user does with the controls of the backups panel, and in whatever order replies and
  failures arrive, the panel comes to rest: the replies end, and once none is due the buttons are
  released, and either the configuration is shown with a button that takes a backup where the server
  can write one, or an error says why it is not.
\<close>

theorem panel_comes_to_rest:
  assumes "panel_reachable (s, P)"
  shows "wfp (panel_reply\<inverse>\<inverse>) \<and>
    ((\<nexists>p'. panel_reply (s, P) p') \<longrightarrow>
       P = {#} \<and> bk_busy s = BkIdle \<and>
       (case bk_cfg s of
          Some c \<Rightarrow> can_write c \<longrightarrow> BeTake \<in> fires Click (backups_view shown_time s)
        | None \<Rightarrow> bk_error s \<noteq> None))"
proof (intro conjI impI panel_replies_end)
  assume quiet: "\<nexists>p'. panel_reply (s, P) p'"
  show P: "P = {#}" by (rule panel_quiet_empty) (use quiet in blast)
  note inv = panel_reachable_inv [OF assms, unfolded P]
  then show idle: "bk_busy s = BkIdle" by (auto simp: panel_inv_def)
  show "case bk_cfg s of
          Some c \<Rightarrow> can_write c \<longrightarrow> BeTake \<in> fires Click (backups_view shown_time s)
        | None \<Rightarrow> bk_error s \<noteq> None"
    using inv idle by (auto simp: panel_inv_def backups_fires backup_config_fires split: option.splits)
qed

theorem panel_comes_to_rest_witness:
  "bk_cfg loaded_panel = Some sample_config \<and> BeTake \<in> fires Click (backups_view (\<lambda>x. None) loaded_panel)"
proof -
  have "\<nexists>p'. panel_reply (loaded_panel, {#}) p'" by (auto elim: panel_reply_cases)
  with panel_comes_to_rest [OF loaded_panel_reachable, of "\<lambda>x. None"] show ?thesis
    by (simp add: loaded_fields)
qed

end
