(* ===== verification/Spec2Isabelle.thy ===== *)
theory Spec2Isabelle
  imports AppShell SetupGate Sse Transcript Editable WeekMenu Saving PlanForms SettingsForm Preferences Updates
    Maintenance Integrations Views Rendered Turns Subscriptions LocaleDates Site Labels Utf8 BackupsPanel
begin

text \<open>
  A model of the web client of veckomenyn, a planner for the dinners of a week, in
  src/web/src (TypeScript, React). The client is a single page over a server written in Go:
  it shows the plan of a week, edits it, talks to an agent that changes it, and keeps settings,
  preferences, integrations and backups. This theory imports all others, holds the
  properties that span components and describes the whole.

  Parts and how they interact. The component \<open>App\<close> (App.tsx) is a gate: it asks for the
  set-up status and shows the wizard or \<open>Main\<close>. \<open>Main\<close> keeps the state of the application:
  the route, the week that is loaded, the transcript of the chat, the open stream, and the
  panels. Two effects follow the route: one loads the week, one the stored conversation; both
  drop the replies of earlier runs. The chat panel (ChatDrawer.tsx) sends a message, the server
  answers with a stream of frames (\<open>streamChat\<close> in lib/api.ts), every frame is an event of
  the agent, \<open>applyAgentEvent\<close> turns events into entries of the transcript, and the result of
  a tool that changes data makes \<open>Main\<close> load the week again. The week view (WeekView.tsx) and
  its editors (Editable.tsx) patch the week. Modules with a state of their own, toast.ts,
  theme.ts, route.ts and events.ts, are stores that components subscribe to.

  Theories. Values and formats: JsPrelude (strings as lists of code units, decimal printing),
  JsDate and IsoDate (calendar days, ISO dates), JsNumber (toFixed). Stores: ExternalStore (the
  contract of useSyncExternalStore as the locales external_store and quiet_store), Toast
  (lib/toast.ts; the locale error_board is the interface on which the saving controls rest),
  RouteNav (lib/route.ts), Theme (lib/theme.ts); each interprets the contract on its own
  operations. Subscriptions adds the listeners and the mounted components of the four stores.
  Server interface: ApiTypes and Api (lib/api.ts; the server is a function from
  requests to replies), Sse (streamChat), Utf8 (the bytes below it: the streaming
  TextDecoder of the client and the UTF-8 of the server). Translations: DictEn, DictSv (the dictionaries), I18n
  (lookup and interpolation), LocaleDates (the date formats). Application: AppShell (Main in
  App.tsx), Turns (a turn of the chat in it), SetupGate (App), Site (a document: the gate, the wizard
  and Main over one history), Chat
  (the event reducer and the input of ChatDrawer.tsx) and Transcript (its abstract
  specification). Week view: Editable (calendar and inline editors), WeekMenu (sections, status
  menu, header, dinner card, cart), Saving (the retrospective and the ratings), PlanForms
  (PlanNewForm.tsx, DuplicatePlanDialog.tsx), MarkdownText (Markdown.tsx). Settings:
  SettingsForm (SettingsModal.tsx), Preferences (PreferencesModal.tsx), Updates
  (UpdateBanner.tsx, UpdatesSection.tsx, lib/events.ts), Maintenance (BackupsSection.tsx,
  SetupWizard.tsx), BackupsPanel (the backups panel in use), Integrations (IntegrationsSection.tsx). Views: the loading and the data of
  WeeksSidebar.tsx, HomeView.tsx, UsageModal.tsx, PrintableWeek.tsx and ToastViewport.tsx.

  What is rendered. Html: the trees of elements that the JSX of a component builds, with texts,
  attributes and handlers; \<open>fires\<close> gives the events that an input of the user can cause in a
  tree, \<open>reads\<close> its texts in a language, \<open>texts_complete\<close> says that no text lacks a translation
  or a value for a token. Texts: that every key of the dictionaries is complete. Then one view for
  each component, over the states of the theories above: ChatView (ChatDrawer.tsx), EditView
  (Editable.tsx), WeekPage (WeekView.tsx), PlanView (PlanNewForm.tsx, DuplicatePlanDialog.tsx),
  ListViews (WeeksSidebar.tsx, HomeView.tsx, ToastViewport.tsx), UpdateView, MaintenanceView,
  IntegrationView, SettingsView (SettingsModal.tsx, PreferencesModal.tsx), UsageView, PrintView;
  Labels adds the labels that load what they show (the model chip, the versions);
  ShellView puts the page of \<open>Main\<close> together and says what each of its handlers does, and
  Rendered is the whole screen of \<open>App\<close>.

  State and operations. The state hooks and refs of a component are the fields of one record,
  under their names in the code. A handler is a function on the record. A handler that awaits
  the server is two functions: what it does at once, with the request recorded in the state,
  and what the reply, a sum of an error text and the value, does later; so every order in
  which replies arrive is an interleaving of steps. An effect with a cleanup flag has a token:
  every run takes a new one and a reply carries the token of its run. Timers are handles with a
  delay in the state. The step relations app_step, gate_step, wizard_step, session_step, panel_step and site_step say which
  steps exist, and the reachable states are inductive predicates; the other components are
  driven by lists of events.

  What the lemmas show. AppShell: the loader and chat invariants are preserved by every step,
  so only replies of the latest run count, and Loading always has a reply to wait for. Turns:
  during a turn only events of the agent write the transcript, and its end is marked;
  late_history_mixes shows what a stored conversation does that arrives in the middle. Site:
  the parts of a document stay in their own reachable states and Main is never unmounted. Sse
  and Utf8: cutting the stream into chunks changes nothing, not even inside a character, what
  the server writes is delivered, and the decoded text is well-formed UTF-16.
  Chat and Transcript: the reducer refines an abstract transcript and can be replayed. Saving:
  through debouncing and retries nothing that was typed is lost as long as the user does not
  type during a save; what happens otherwise is shown by early_reply_clears_warning,
  stale_retry_overwrites and reload_drops_typing. Toast: the eviction policy and its loop.
  Subscriptions: no mounted component shows an outdated value; resolved_theme_stale is the
  exception, the resolved theme. The theories of the views show
  which events the controls can cause in each state (the lemmas on \<open>fires\<close>), and with them that
  the rendered page acts by steps of the application (ShellView), that the rendered wizard and
  text editor cannot get ahead of the server (MaintenanceView, EditView), that the backups panel comes to rest (BackupsPanel, with
  overlapping_backups for what its controls do not prevent), that a plan past the
  draft offers no change of its menu (WeekPage), that a Save is offered when it does something
  (IntegrationView), and that no text lacks a translation (Rendered). The other theories prove
  the round trips of routes, dates and links, the bounds of printed numbers, that dialogs ask
  before something is lost, and the behaviour of forms.

  Bounds and fuel. No definition has fuel. The loops of the code that are not structural, the
  frame loop of streamChat and the splice loop of capQueue, are partial functions with an
  option, and are proved to end with the value of the structural definitions. Route ids are
  exact up to 2 to the 53, as in JavaScript; amounts and ratios are rationals, the exact
  values of the doubles that are printed. Dates are restricted to four-digit years where
  they are printed.

  Parameters. The server's replies; JSON.parse, as a partial function from strings to values,
  and the casts of parsed values to the declared types; the Unicode case mapping; Intl's
  toLocaleDateString and its other format functions; the distance of local midnights, for the change of daylight-saving time;
  the current date; the names of providers and of their fields, which the server sends.

  Not modelled: icons, class names that do not depend on the state, elements that carry nothing
  else, focus and scrolling; the rendering of Markdown (a library), the Go server except the function that writes a frame of
  the stream, the entry point main.tsx, build files and scripts.
\<close>

subsection \<open>From the server's stream to the transcript\<close>

text \<open>
  The handlers that \<open>send\<close> passes to \<open>streamChat\<close> for the stream \<open>st\<close>. The casts of the
  parsed data to \<open>ChatMeta\<close> and \<open>AgentEvent\<close> are parameters.
\<close>

definition agent_handlers ::
    "(jstr \<Rightarrow> json option) \<Rightarrow> (json \<Rightarrow> int) \<Rightarrow> (json \<Rightarrow> AgentEvent) \<Rightarrow> stream \<Rightarrow> (json, app, jstr) StreamHandlers"
  where
  "agent_handlers pj meta_of event_of st =
     \<lparr>onMeta = Some (\<lambda>j s. (None, on_meta (meta_of j) st s)),
      onEvent = Some (\<lambda>j s. (None, handleAgentEvent pj (event_of j) s)), onEnd = None, onError = None\<rparr>"

lemma handle_event_frame:
  "(chatEntries (handleAgentEvent pj ev s), refs (handleAgentEvent pj ev s)) =
     applyAgentEvent ev (chatEntries s, refs s)"
  "conversationID (handleAgentEvent pj ev s) = conversationID s"
  by (simp_all add: handleAgentEvent_def mark_day_def bumpLoad_def Let_def split: prod.splits option.splits)

lemma deliver_event:
  "pj b = Some j \<Longrightarrow> deliver pj (agent_handlers pj meta_of event_of st) (js ''event'', b) s =
     handleAgentEvent pj (event_of j) s"
  by (simp add: deliver_def dispatch_event_def call_opt_def agent_handlers_def)

lemma deliver_meta:
  "pj b = Some j \<Longrightarrow> deliver pj (agent_handlers pj meta_of event_of st) (js ''meta'', b) s =
     on_meta (meta_of j) st s"
  by (simp add: deliver_def dispatch_event_def call_opt_def agent_handlers_def)

lemma deliver_end: "deliver pj (agent_handlers pj meta_of event_of st) (js ''end'', b) s = s"
  by (simp add: deliver_def dispatch_event_def call_opt_def agent_handlers_def split: option.splits)

lemma deliver_texts:
  assumes "map (\<lambda>b. map_option event_of (pj b)) bs = map (\<lambda>x. Some (text_event x)) xs"
  shows "(let s' = fold (deliver pj (agent_handlers pj meta_of event_of st)) (map (Pair (js ''event'')) bs) s in
      (chatEntries s', refs s') = run_events (map text_event xs) (chatEntries s, refs s) \<and>
      conversationID s' = conversationID s)"
  using assms
proof (induction bs arbitrary: xs s)
  case (Cons b bs)
  then obtain y ys where xs: "xs = y # ys" by (cases xs) simp_all
  with Cons.prems obtain j where j: "pj b = Some j" "event_of j = text_event y" by auto
  show ?case
    using Cons.IH [of ys "handleAgentEvent pj (text_event y) s"] Cons.prems
    by (simp add: xs deliver_event [of pj, OF j(1)] j(2) Let_def handle_event_frame run_events_def)
qed (simp add: run_events_def)

definition answer_messages :: "jstr \<Rightarrow> jstr list \<Rightarrow> (jstr \<times> jstr) list" where
  "answer_messages meta bs =
     [(js ''meta'', meta)] @ map (Pair (js ''event'')) bs @ [(js ''end'', meta)]"

lemma answer_words:
  "k \<in> {''meta'', ''event'', ''end''} \<Longrightarrow>
    list_all (\<lambda>c. c < 128) (js k) \<and> c_nl \<notin> set (js k) \<and> trim (js k) = js k"
  by (auto simp: js_def trim_def is_ws_def)

lemma answer_wire:
  assumes "list_all (\<lambda>b. list_all scalar b \<and> c_nl \<notin> set b) (meta # bs)"
  shows "list_all wire_message (answer_messages meta bs) \<and>
    map (map_prod utf16 utf16) (answer_messages meta bs) = answer_messages (utf16 meta) (map utf16 bs)"
proof -
  have words: "utf16 (js k) = js k \<and> list_all scalar (js k) \<and> c_nl \<notin> set (js k) \<and> trim (js k) = js k"
    if "k \<in> {''meta'', ''event'', ''end''}" for k
    using answer_words [OF that] ascii_text by blast
  then show ?thesis
    using assms by (auto simp: list_all_iff wire_message_def sendable_def newline_text answer_messages_def)
qed


text \<open>In the witness the answer is a letter with a ring, cut between its two bytes.\<close>

definition sample_answer :: "byte list" where
  "sample_answer = wire_bytes (answer_messages [49] [[229]])"


subsection \<open>A failed save\<close>

text \<open>
  C7: A failed save of a plan's notes loses nothing: the text that was typed goes out in a patch of
  the week that is shown; when the server refuses it the error is shown in a toast, the week
  stays as it was, and the editor stays open with the text, ready to be sent again. When the
  server accepts, the editor closes and the page shows the week of the reply.
\<close>

theorem failed_edit_keeps_draft:
  assumes "week_key s = Some i" and "editing te" and "draft te \<noteq> old"
  shows "let (sent, te1) = text_commit old te;
      s1 = patchCurrentWeek (empty_patch\<lparr>p_notes_md := sent\<rparr>) s;
      (err, s2) = patched_week (Inl e) s1; te2 = snd (text_step True old TextRejected te1);
      (ok, s3) = patched_week (Inr w) s1; te3 = snd (text_step True old TextResolved te1) in
    ReqPatch i (empty_patch\<lparr>p_notes_md := Some (draft te)\<rparr>) \<in> set (requests s1) \<and>
    err = Some e \<and> e \<in> set (map message (filter is_error (toasts (app_toasts s2)))) \<and> week s2 = week s \<and>
    editing te2 \<and> draft te2 = draft te \<and> \<not> saving te2 \<and>
    ok = None \<and> week s3 = Some w \<and> \<not> editing te3"
proof -
  have shown: "e \<in> set (map message (filter is_error (toasts (snd (add Error e no_opts st)))))" for st :: "unit toast_state"
    using added_error_shown [of e no_opts st] by auto
  show ?thesis
    using assms shown by (simp add: text_commit_def patchCurrentWeek_def ask_def patched_week_def toast_error_def)
qed

theorem failed_edit_keeps_draft_witness:
  "let te = \<lparr>editing = True, draft = [120], saving = False\<rparr>; s = sample_settled;
       te1 = snd (text_commit [121] te);
       s2 = snd (patched_week (Inl [63]) (patchCurrentWeek (empty_patch\<lparr>p_notes_md := Some [120]\<rparr>) s))
   in [63] \<in> set (map message (filter is_error (toasts (app_toasts s2)))) \<and>
      editing (snd (text_step True [121] TextRejected te1)) \<and> draft (snd (text_step True [121] TextRejected te1)) = [120]"
proof -
  have "week_key sample_settled = Some 7"
    by (simp add: sample_settled_def sample_loaded_def sample_start_def sample_eval sample_week_def)
  from failed_edit_keeps_draft [OF this, where te = "\<lparr>editing = True, draft = [120], saving = False\<rparr>"
      and old = "[121]" and e = "[63]" and w = "sample_week 7"]
  show ?thesis by (simp add: text_commit_def Let_def split_def)
qed

end
